theory Spec2Isabelle
  imports Complex_Main "HOL-Library.Word"
begin

chapter \<open>Finite-element meshing and export of sdfx: a shallow embedding\<close>

text \<open>
  The development follows the Go sources. Conventions of the embedding:
  \<^item> Go's \<open>float64\<close> is modelled by \<open>real\<close>: arithmetic is exact, there is no rounding,
    no infinity and no NaN. Where the Go code divides, the theorems state the side
    condition that the divisor is not zero. The one exception is \<open>isBad\<close>, whose
    threshold lies below the rounding error: there every operation is rounded to
    binary64.
  \<^item> Go's \<open>uint32\<close> is \<open>32 word\<close>; conversions \<open>uint32(n)\<close> are \<open>word_of_nat\<close>
    (reduction modulo \<open>2 ^ 32\<close>) and \<open>int(u)\<close> is \<open>unat\<close>.
  \<^item> Go's \<open>int\<close> (64 bit) is \<open>int\<close> or, for lengths and loop counters, \<open>nat\<close>.
  \<^item> A Go map is a partial function; a \<open>nil\<close> map is \<open>None\<close>.
  \<^item> A panic, an error return and an I/O failure are values of the result type.
\<close>

type_synonym u32 = "32 word"

section \<open>Vectors (package \<open>vec/v3\<close>, \<open>vec/v3i\<close>)\<close>

record Vec =
  X :: real
  Y :: real
  Z :: real

text \<open>The array \<open>[3]float64{vert.X, vert.Y, vert.Z}\<close> used as a map key.\<close>

definition key3 :: "Vec \<Rightarrow> real \<times> real \<times> real" where
  "key3 vert = (X vert, Y vert, Z vert)"

section \<open>The layered tetrahedron mesh (\<open>MeshTet4\<close> with \<open>addVertex\<close>)\<close>

record MeshTet4 =
  T :: "u32 list list"
  V :: "Vec list"
  Lookup :: "(real \<times> real \<times> real \<Rightarrow> u32 option) option"

text \<open>\<open>NewMeshTet4(layerCount)\<close>: no vertices, an empty map, one empty index list per layer.\<close>

definition NewMeshTet4 :: "nat \<Rightarrow> MeshTet4" where
  "NewMeshTet4 layerCount =
     \<lparr>T = replicate layerCount [], V = [], Lookup = Some (\<lambda>k. None)\<rparr>"

definition vertexCount :: "MeshTet4 \<Rightarrow> nat" where
  "vertexCount m = length (V m)"

text \<open>
  \<open>addVertex\<close>: a vertex whose key is in the map keeps its id; a new vertex is appended
  and gets \<open>uint32(vertexCount() - 1)\<close>. Reading a \<open>nil\<close> map (after \<open>Finalize\<close>) finds
  nothing, and the assignment to it panics: the result is \<open>None\<close>.
\<close>

definition addVertex :: "MeshTet4 \<Rightarrow> Vec \<Rightarrow> (u32 \<times> MeshTet4) option" where
  "addVertex m vert =
     (case Lookup m of
        None \<Rightarrow> None
      | Some lk \<Rightarrow>
          (case lk (key3 vert) of
             Some vertID \<Rightarrow> Some (vertID, m)
           | None \<Rightarrow>
               (let m1 = m\<lparr>V := V m @ [vert]\<rparr>;
                    m2 = m1\<lparr>Lookup := Some (lk(key3 vert \<mapsto> word_of_nat (vertexCount m1 - 1)))\<rparr>
                in Some (word_of_nat (vertexCount m2 - 1), m2))))"

definition Finalize :: "MeshTet4 \<Rightarrow> MeshTet4" where
  "Finalize t = t\<lparr>Lookup := None\<rparr>"

text \<open>Adding a sequence of points one after the other, collecting the ids returned.\<close>

fun addVertices :: "MeshTet4 \<Rightarrow> Vec list \<Rightarrow> (u32 list \<times> MeshTet4) option" where
  "addVertices m [] = Some ([], m)"
| "addVertices m (p # ps) =
     (case addVertex m p of
        None \<Rightarrow> None
      | Some (i, m1) \<Rightarrow>
          (case addVertices m1 ps of
             None \<Rightarrow> None
           | Some (is, m2) \<Rightarrow> Some (i # is, m2)))"

text \<open>
  \<open>AddTet4(l, a, b, c, d)\<close> appends the four ids to layer \<open>l\<close>; the four calls of
  \<open>addVertex\<close> run from left to right. A layer outside the mesh is an index panic.
\<close>

definition AddTet4 :: "MeshTet4 \<Rightarrow> nat \<Rightarrow> Vec \<Rightarrow> Vec \<Rightarrow> Vec \<Rightarrow> Vec \<Rightarrow> MeshTet4 option" where
  "AddTet4 m l a b c d =
     (if l < length (T m) then
        (case addVertices m [a, b, c, d] of
           None \<Rightarrow> None
         | Some (is, m') \<Rightarrow> Some (m'\<lparr>T := (T m')[l := T m' ! l @ is]\<rparr>))
      else None)"

section \<open>The flat tetrahedron mesh (\<open>MeshTet4\<close> of \<open>tet4.go\<close>, with \<open>AddVertex\<close>)\<close>

text \<open>
  The older mesh keeps one flat index list, keys its map by the \<open>float32\<close> conversions of
  the coordinates and counts its vertices in \<open>vCount\<close>. The conversion \<open>float32(x)\<close> is a
  parameter \<open>f32\<close> of the model. The fields carry the prefix \<open>flat\<close> to keep them apart
  from those of the layered mesh.
\<close>

record MeshTet4_flat =
  flat_T :: "u32 list"
  flat_V :: "Vec list"
  flat_Lookup :: "real \<times> real \<times> real \<Rightarrow> u32 option"
  vCount :: u32

definition NewMeshTet4_flat :: MeshTet4_flat where
  "NewMeshTet4_flat = \<lparr>flat_T = [], flat_V = [], flat_Lookup = (\<lambda>k. None), vCount = 0\<rparr>"

definition zeroVec :: Vec where
  "zeroVec = \<lparr>X = 0, Y = 0, Z = 0\<rparr>"

definition Allocate :: "MeshTet4_flat \<Rightarrow> u32 \<Rightarrow> MeshTet4_flat" where
  "Allocate m tetCount =
     m\<lparr>flat_T := replicate (unat (tetCount * 4)) 0,
       flat_V := replicate (unat (tetCount div 4 * 2)) zeroVec,
       flat_Lookup := (\<lambda>k. None)\<rparr>"

definition VertexCount :: "MeshTet4_flat \<Rightarrow> nat" where
  "VertexCount m = length (flat_V m)"

definition key32 :: "(real \<Rightarrow> real) \<Rightarrow> Vec \<Rightarrow> real \<times> real \<times> real" where
  "key32 f32 vert = (f32 (X vert), f32 (Y vert), f32 (Z vert))"

definition AddVertex :: "(real \<Rightarrow> real) \<Rightarrow> MeshTet4_flat \<Rightarrow> Vec \<Rightarrow> u32 \<times> MeshTet4_flat" where
  "AddVertex f32 t vert =
     (case flat_Lookup t (key32 f32 vert) of
        Some vertID \<Rightarrow> (vertID, t)
      | None \<Rightarrow>
          (let t1 = (if VertexCount t \<le> unat (vCount t)
                     then t\<lparr>flat_V := flat_V t @ [vert]\<rparr>
                     else t\<lparr>flat_V := (flat_V t)[unat (vCount t) := vert]\<rparr>);
               t2 = t1\<lparr>flat_Lookup := (flat_Lookup t1)(key32 f32 vert \<mapsto> vCount t1)\<rparr>;
               t3 = t2\<lparr>vCount := vCount t2 + 1\<rparr>
           in (vCount t3 - 1, t3)))"

fun AddVertices :: "(real \<Rightarrow> real) \<Rightarrow> MeshTet4_flat \<Rightarrow> Vec list \<Rightarrow> u32 list \<times> MeshTet4_flat" where
  "AddVertices f32 t [] = ([], t)"
| "AddVertices f32 t (p # ps) =
     (let (i, t1) = AddVertex f32 t p;
          (is, t2) = AddVertices f32 t1 ps
      in (i # is, t2))"

section \<open>Vector operations\<close>

text \<open>
  Modelled from the spec: the methods \<open>Sub\<close>, \<open>Length\<close>, \<open>Cross\<close> and \<open>Dot\<close> of \<open>v3.Vec\<close>
  are not under \<open>src/\<close>. They are the componentwise difference, the Euclidean length,
  the cross product and the dot product ("edge vectors", "edge length", "scalar triple
  product", "Euclidean distance" in the spec).
\<close>

definition Sub :: "Vec \<Rightarrow> Vec \<Rightarrow> Vec" where
  "Sub a b = \<lparr>X = X a - X b, Y = Y a - Y b, Z = Z a - Z b\<rparr>"

definition Dot :: "Vec \<Rightarrow> Vec \<Rightarrow> real" where
  "Dot a b = X a * X b + Y a * Y b + Z a * Z b"

definition Cross :: "Vec \<Rightarrow> Vec \<Rightarrow> Vec" where
  "Cross a b =
     \<lparr>X = Y a * Z b - Z a * Y b, Y = Z a * X b - X a * Z b, Z = X a * Y b - Y a * X b\<rparr>"

definition Length :: "Vec \<Rightarrow> real" where
  "Length a = sqrt (Dot a a)"

section \<open>Edge interpolation of marching cubes (\<open>mcInterpolate\<close>)\<close>

text \<open>
  The constant \<open>epsilon\<close> of package \<open>render\<close> is declared outside \<open>src/\<close>; it is the first
  parameter of the model.
\<close>

definition mcInterpolate :: "real \<Rightarrow> Vec \<Rightarrow> Vec \<Rightarrow> real \<Rightarrow> real \<Rightarrow> real \<Rightarrow> Vec" where
  "mcInterpolate epsilon p1 p2 v1 v2 x =
     (let closeToV1 = \<bar>x - v1\<bar> < epsilon;
          closeToV2 = \<bar>x - v2\<bar> < epsilon
      in if closeToV1 \<and> \<not> closeToV2 then p1
         else if closeToV2 \<and> \<not> closeToV1 then p2
         else
           (let t = (if closeToV1 \<and> closeToV2 then 0.5 else (x - v1) / (v2 - v1))
            in \<lparr>X = X p1 + t * (X p2 - X p1),
                Y = Y p1 + t * (Y p2 - Y p1),
                Z = Z p1 + t * (Z p2 - Z p1)\<rparr>))"

section \<open>Quality checks of a tetrahedron (\<open>isZeroVolume\<close>, \<open>isBad\<close>)\<close>

definition isZeroVolume :: "Vec \<Rightarrow> Vec \<Rightarrow> Vec \<Rightarrow> Vec \<Rightarrow> bool \<times> real" where
  "isZeroVolume a b c d =
     (let ab = Sub b a;
          ac = Sub c a;
          ad = Sub d a;
          nab = Length ab;
          ncd = Length (Sub d c);
          nbd = Length (Sub d b);
          nbc = Length (Sub c b);
          nac = Length ac;
          nad = Length ad
      in if nab = 0 \<or> ncd = 0 \<or> nbd = 0 \<or> nbc = 0 \<or> nac = 0 \<or> nad = 0 then (True, 0)
         else
           (let volume = 1 / 6 * \<bar>Dot (Cross ab ac) ad\<bar>;
                denom = (nab + ncd) * (nac + nbd) * (nad + nbc);
                tolerance = 480;
                rho = tolerance * volume / denom
            in (rho < 1, volume)))"





section \<open>Elements, the voxel grid and the vertex buffer (package \<open>buffer\<close>)\<close>

text \<open>
  Modelled from the spec: package \<open>buffer\<close> (\<open>Element\<close>, \<open>IB\<close> with its \<open>Grid\<close>, \<open>VB\<close>) is not
  under \<open>src/\<close>; only its callers are. The model keeps what the callers use:
  \<^item> an element is an ordered list of vertex ids plus a type tag drawn from linear
    tetrahedron, quadratic tetrahedron, linear hexahedron, quadratic-reduced hexahedron
    and unknown;
  \<^item> the grid is a 3D array of \<open>Len\<close> cells of size \<open>Dim\<close>, each owning a list of elements;
    \<open>Min0\<close> stands for \<open>Voxels[0].Min\<close>, the minimum corner of the first cell. \<open>Get\<close>
    returns the elements of a cell; a coordinate outside the array is an index panic
    (\<open>None\<close>). \<open>Order\<close> is the sequence of cell coordinates in which \<open>Iterate\<close> visits the
    grid, and \<open>Intersecting\<close> is the method \<open>VoxelsIntersecting\<close>: both are parameters;
  \<^item> the vertex buffer deduplicates by exact key while its hash table exists, as
    \<open>MeshTet4.addVertex\<close> does; \<open>DestroyHashTable\<close> drops the table and keeps the points.
\<close>

datatype ElementType = C3D4 | C3D10 | C3D8 | C3D20R | Unknown

record Element =
  Nodes :: "u32 list"
  Type :: ElementType

record V3i =
  Xi :: int
  Yi :: int
  Zi :: int

record VoxelGrid =
  Len :: V3i
  Dim :: Vec
  Min0 :: Vec
  Voxel :: "int \<Rightarrow> int \<Rightarrow> int \<Rightarrow> Element list"
  Intersecting :: "Vec list \<Rightarrow> V3i list \<times> Vec \<times> Vec"

record IB =
  Grid :: VoxelGrid
  Order :: "(int \<times> int \<times> int) list"

definition Get :: "VoxelGrid \<Rightarrow> int \<Rightarrow> int \<Rightarrow> int \<Rightarrow> Element list option" where
  "Get g x y z =
     (if 0 \<le> x \<and> x < Xi (Len g) \<and> 0 \<le> y \<and> y < Yi (Len g) \<and> 0 \<le> z \<and> z < Zi (Len g)
      then Some (Voxel g x y z) else None)"

definition IB_Size :: "IB \<Rightarrow> int \<times> int \<times> int" where
  "IB_Size ib = (Xi (Len (Grid ib)), Yi (Len (Grid ib)), Zi (Len (Grid ib)))"

record VB =
  Points :: "Vec list"
  hashTable :: "(real \<times> real \<times> real \<Rightarrow> u32 option) option"

definition NewVB :: VB where
  "NewVB = \<lparr>Points = [], hashTable = Some (\<lambda>k. None)\<rparr>"

definition VB_Id :: "VB \<Rightarrow> Vec \<Rightarrow> (u32 \<times> VB) option" where
  "VB_Id vb vert =
     (case hashTable vb of
        None \<Rightarrow> None
      | Some tbl \<Rightarrow>
          (case tbl (key3 vert) of
             Some vertID \<Rightarrow> Some (vertID, vb)
           | None \<Rightarrow>
               Some (word_of_nat (length (Points vb)),
                     vb\<lparr>Points := Points vb @ [vert],
                        hashTable := Some (tbl(key3 vert \<mapsto> word_of_nat (length (Points vb))))\<rparr>)))"

definition Vertex :: "VB \<Rightarrow> u32 \<Rightarrow> Vec option" where
  "Vertex vb i = (if unat i < length (Points vb) then Some (Points vb ! unat i) else None)"

definition DestroyHashTable :: "VB \<Rightarrow> VB" where
  "DestroyHashTable vb = vb\<lparr>hashTable := None\<rparr>"

section \<open>The finite-element mesh \<open>Fem\<close>\<close>

record Fem =
  IBuff :: IB
  VBuff :: VB

definition Size :: "Fem \<Rightarrow> int \<times> int \<times> int" where
  "Size m = IB_Size (IBuff m)"

definition vertex :: "Fem \<Rightarrow> u32 \<Rightarrow> Vec option" where
  "vertex m i = Vertex (VBuff m) i"

definition VoxelsIntersecting :: "Fem \<Rightarrow> Vec list \<Rightarrow> V3i list \<times> Vec \<times> Vec" where
  "VoxelsIntersecting m points = Intersecting (Grid (IBuff m)) points"

subsection \<open>\<open>Locate\<close>\<close>

text \<open>
  One axis of "Calculating voxel indices" and "Ensure indices are within bounds":
  \<open>idx := int(math.Floor((loc - mn) / d)); if idx >= n { idx = n - 1 }\<close>.
  The conversion to \<open>int\<close> is exact in the model.
\<close>

definition axisIndex :: "real \<Rightarrow> real \<Rightarrow> real \<Rightarrow> int \<Rightarrow> int" where
  "axisIndex loc mn d n =
     (let idx = \<lfloor>(loc - mn) / d\<rfloor>
      in if idx \<ge> n then n - 1 else idx)"

text \<open>
  The scan for the closest node. \<open>minDistance\<close> starts as \<open>math.Inf(1)\<close>, which is \<open>None\<close>
  here; \<open>closestNode\<close> starts as \<open>0\<close>. Reading a node outside the vertex buffer panics.
\<close>

fun closestInElement :: "Fem \<Rightarrow> Vec \<Rightarrow> u32 list \<Rightarrow> u32 \<times> real option \<Rightarrow> (u32 \<times> real option) option" where
  "closestInElement m location [] acc = Some acc"
| "closestInElement m location (node # nodes) (closestNode, minDistance) =
     (case vertex m node of
        None \<Rightarrow> None
      | Some nodePos \<Rightarrow>
          (let distance = Length (Sub location nodePos)
           in if (case minDistance of None \<Rightarrow> True | Some d \<Rightarrow> distance < d)
              then closestInElement m location nodes (node, Some distance)
              else closestInElement m location nodes (closestNode, minDistance)))"

fun closestInElements :: "Fem \<Rightarrow> Vec \<Rightarrow> Element list \<Rightarrow> u32 \<times> real option \<Rightarrow> (u32 \<times> real option) option" where
  "closestInElements m location [] acc = Some acc"
| "closestInElements m location (element # elements) acc =
     (case closestInElement m location (Nodes element) acc of
        None \<Rightarrow> None
      | Some acc' \<Rightarrow> closestInElements m location elements acc')"

definition Locate :: "Fem \<Rightarrow> Vec \<Rightarrow> (u32 \<times> V3i) option" where
  "Locate m location =
     (let g = Grid (IBuff m);
          idxX = axisIndex (X location) (X (Min0 g)) (X (Dim g)) (Xi (Len g));
          idxY = axisIndex (Y location) (Y (Min0 g)) (Y (Dim g)) (Yi (Len g));
          idxZ = axisIndex (Z location) (Z (Min0 g)) (Z (Dim g)) (Zi (Len g))
      in case Get g idxX idxY idxZ of
           None \<Rightarrow> None
         | Some elements \<Rightarrow>
             (case closestInElements m location elements (0, None) of
                None \<Rightarrow> None
              | Some (closestNode, minDistance) \<Rightarrow>
                  Some (closestNode, \<lparr>Xi = idxX, Yi = idxY, Zi = idxZ\<rparr>)))"

section \<open>Errors, results and the file system\<close>

text \<open>
  An export ends with \<open>Done\<close> and the final state, or fails with an error and the state
  reached: a configuration error or an I/O error returned to the caller, or a panic.
\<close>

datatype error = ConfigError string | IOError string | Panic string

datatype ('v, 's) result = Done 'v 's | Fail error 's

fun and_then :: "('v, 's) result \<Rightarrow> ('v \<Rightarrow> 's \<Rightarrow> ('w, 's) result) \<Rightarrow> ('w, 's) result" where
  "and_then (Done v s) f = f v s"
| "and_then (Fail e s) f = Fail e s"

text \<open>A \<open>for ... range\<close> loop whose body may fail, and a sequence of statements.\<close>

fun for_each :: "('a \<Rightarrow> 's \<Rightarrow> (unit, 's) result) \<Rightarrow> 'a list \<Rightarrow> 's \<Rightarrow> (unit, 's) result" where
  "for_each f [] s = Done () s"
| "for_each f (x # xs) s = and_then (f x s) (\<lambda>_ s'. for_each f xs s')"

definition steps :: "('s \<Rightarrow> (unit, 's) result) list \<Rightarrow> 's \<Rightarrow> (unit, 's) result" where
  "steps fs s = for_each (\<lambda>f. f) fs s"

text \<open>
  The world outside the exporter: the files by path, which paths cannot be created and
  which cannot be written, the lines printed to standard output, the formatted current
  date, and the renderings of \<open>fmt.Sprintf\<close> for floating-point arguments (\<open>%f\<close> of a
  \<open>float32\<close> conversion, \<open>%f\<close> and \<open>%v\<close> of a \<open>float64\<close>, \<open>%e\<close> of a \<open>float32\<close>), which are
  parameters of the model.
\<close>

record World =
  files :: "string \<Rightarrow> string option"
  create_fails :: "string \<Rightarrow> bool"
  write_fails :: "string \<Rightarrow> bool"
  stdout :: "string list"
  now :: string
  fmt_f32 :: "real \<Rightarrow> string"
  fmt_f :: "real \<Rightarrow> string"
  fmt_v :: "real \<Rightarrow> string"
  fmt_e32 :: "real \<Rightarrow> string"

definition os_Create :: "string \<Rightarrow> World \<Rightarrow> World option" where
  "os_Create p w = (if create_fails w p then None else Some (w\<lparr>files := (files w)(p \<mapsto> [])\<rparr>))"

definition WriteString :: "string \<Rightarrow> string \<Rightarrow> World \<Rightarrow> World option" where
  "WriteString p s w =
     (if write_fails w p then None
      else Some (w\<lparr>files := (files w)(p \<mapsto> (case files w p of None \<Rightarrow> s | Some c \<Rightarrow> c @ s))\<rparr>))"

definition Println :: "string \<Rightarrow> World \<Rightarrow> World" where
  "Println s w = w\<lparr>stdout := stdout w @ [s]\<rparr>"

text \<open>\<open>%d\<close> of a non-negative integer.\<close>

function fmt_d :: "nat \<Rightarrow> string" where
  "fmt_d n = (if n < 10 then [''0123456789'' ! n] else fmt_d (n div 10) @ [''0123456789'' ! (n mod 10)])"
  by pat_completeness auto
termination
  by (relation "measure (\<lambda>n. n)") auto

declare fmt_d.simps [simp del]

text \<open>A run of \<open>%d\<close> verbs separated by commas, applied to \<open>uint32\<close> arguments.\<close>

fun csv :: "u32 list \<Rightarrow> string" where
  "csv [] = []"
| "csv [i] = fmt_d (unat i)"
| "csv (i # is) = fmt_d (unat i) @ '','' @ csv is"

section \<open>Restraints, loads and the writer \<open>Inp\<close>\<close>

text \<open>
  The types \<open>Restraint\<close> and \<open>Load\<close> are declared outside \<open>src/\<close>; their fields are those the
  writer reads and assigns. The fields of \<open>Load\<close> carry the prefix \<open>Load\<close>.
\<close>

record Restraint =
  Location :: "Vec list"
  IsFixedX :: bool
  IsFixedY :: bool
  IsFixedZ :: bool
  voxels :: "V3i list"

record Load =
  LoadLocation :: "Vec list"
  Magnitude :: Vec
  nodeREF :: u32
  Loadvoxels :: "V3i list"

record Inp =
  Mesh :: Fem
  Path :: string
  PathNodes :: string
  PathElsC3D4 :: string
  PathElsC3D10 :: string
  PathElsC3D8 :: string
  PathElsC3D20R :: string
  PathBou :: string
  PathLoad :: string
  PathGravity :: string
  GravityIsNeeded :: bool
  LayerStart :: int
  LayerEnd :: int
  TempVBuff :: VB
  MassDensity :: real
  YoungModulus :: real
  PoissonRatio :: real
  eleID :: u32
  nextNode :: u32
  Restraints :: "Restraint list"
  Loads :: "Load list"
  GravityDirection :: Vec
  GravityMagnitude :: real

definition NewInp ::
  "Fem \<Rightarrow> string \<Rightarrow> int \<Rightarrow> int \<Rightarrow> real \<Rightarrow> real \<Rightarrow> real \<Rightarrow> Restraint list \<Rightarrow> Load list \<Rightarrow>
   Vec \<Rightarrow> real \<Rightarrow> bool \<Rightarrow> Inp" where
  "NewInp m path layerStart layerEnd massDensity youngModulus poissonRatio restraints loads
     gravityDirection gravityMagnitude gravityIsNeeded =
     \<lparr>Mesh = m,
      Path = path,
      PathNodes = path @ ''.nodes'',
      PathElsC3D4 = path @ ''.elements_C3D4'',
      PathElsC3D10 = path @ ''.elements_C3D10'',
      PathElsC3D8 = path @ ''.elements_C3D8'',
      PathElsC3D20R = path @ ''.elements_C3D20R'',
      PathBou = path @ ''.boundary'',
      PathLoad = path @ ''.load'',
      PathGravity = path @ ''.gravity'',
      GravityIsNeeded = gravityIsNeeded,
      LayerStart = layerStart,
      LayerEnd = layerEnd,
      TempVBuff = NewVB,
      MassDensity = massDensity,
      YoungModulus = youngModulus,
      PoissonRatio = poissonRatio,
      eleID = 0,
      nextNode = 0,
      Restraints = restraints,
      Loads = map (\<lambda>l. l\<lparr>Loadvoxels := fst (VoxelsIntersecting m (LoadLocation l))\<rparr>) loads,
      GravityDirection = gravityDirection,
      GravityMagnitude = gravityMagnitude\<rparr>"

text \<open>
  The statements of a writer act on the pair of the writer's variables and the world.
  \<open>Create\<close> is \<open>os.Create\<close> followed by \<open>return err\<close>; \<open>write_or_return\<close> is \<open>f.WriteString\<close> followed by
  \<open>return err\<close>; \<open>write_or_panic\<close> is \<open>f.WriteString\<close> followed by \<open>panic(msg + err.Error())\<close>.
  A file is named by its path.
\<close>

definition Create :: "string \<Rightarrow> 'a \<times> World \<Rightarrow> (unit, 'a \<times> World) result" where
  "Create p st =
     (case os_Create p (snd st) of
        None \<Rightarrow> Fail (IOError p) st
      | Some w' \<Rightarrow> Done () (fst st, w'))"

definition write_or_return :: "string \<Rightarrow> string \<Rightarrow> 'a \<times> World \<Rightarrow> (unit, 'a \<times> World) result" where
  "write_or_return p s st =
     (case WriteString p s (snd st) of
        None \<Rightarrow> Fail (IOError p) st
      | Some w' \<Rightarrow> Done () (fst st, w'))"

definition write_or_panic :: "string \<Rightarrow> string \<Rightarrow> string \<Rightarrow> 'a \<times> World \<Rightarrow> (unit, 'a \<times> World) result" where
  "write_or_panic msg p s st =
     (case WriteString p s (snd st) of
        None \<Rightarrow> Fail (Panic msg) st
      | Some w' \<Rightarrow> Done () (fst st, w'))"

text \<open>\<open>Iterate\<close> calls the function on every cell of the grid, in the order of the grid.\<close>

definition iterate ::
  "(int \<Rightarrow> int \<Rightarrow> int \<Rightarrow> Element list \<Rightarrow> Inp \<times> World \<Rightarrow> (unit, Inp \<times> World) result) \<Rightarrow>
   Inp \<times> World \<Rightarrow> (unit, Inp \<times> World) result" where
  "iterate f st =
     for_each (\<lambda>(x, y, z). f x y z (Voxel (Grid (IBuff (Mesh (fst st)))) x y z))
       (Order (IBuff (Mesh (fst st)))) st"

text \<open>
  The loop \<open>vertices[n] = inp.Mesh.vertex(el.Nodes[n]); ids[n] = inp.TempVBuff.Id(vertices[n])\<close>.
  A node outside the vertex buffer of the mesh and a destroyed hash table are panics.
\<close>

fun tempIds :: "Fem \<Rightarrow> u32 list \<Rightarrow> VB \<Rightarrow> ((Vec \<times> u32) list \<times> VB) option" where
  "tempIds m [] tb = Some ([], tb)"
| "tempIds m (node # nodes) tb =
     (case vertex m node of
        None \<Rightarrow> None
      | Some v \<Rightarrow>
          (case VB_Id tb v of
             None \<Rightarrow> None
           | Some (i, tb1) \<Rightarrow>
               (case tempIds m nodes tb1 of
                  None \<Rightarrow> None
                | Some (vis, tb2) \<Rightarrow> Some ((v, i) # vis, tb2))))"

definition elementIds :: "Element \<Rightarrow> Inp \<times> World \<Rightarrow> ((Vec \<times> u32) list, Inp \<times> World) result" where
  "elementIds el st =
     (case tempIds (Mesh (fst st)) (Nodes el) (TempVBuff (fst st)) of
        None \<Rightarrow> Fail (Panic ''runtime error'') st
      | Some (vis, tb) \<Rightarrow> Done vis ((fst st)\<lparr>TempVBuff := tb\<rparr>, snd st))"

subsection \<open>\<open>writeHeader\<close>\<close>

definition layer_range_ok :: "Inp \<Rightarrow> bool" where
  "layer_range_ok inp \<longleftrightarrow>
     (case Size (Mesh inp) of (_, _, layersZ) \<Rightarrow>
        0 \<le> LayerStart inp \<and> LayerStart inp < LayerEnd inp \<and> LayerEnd inp \<le> layersZ)"

definition writeHeader :: "Inp \<times> World \<Rightarrow> (unit, Inp \<times> World) result" where
  "writeHeader st =
     (if layer_range_ok (fst st) then
        steps
          [write_or_return (Path (fst st))
             ''**\<newline>** Structure: finite elements of a 3D model.\<newline>** Generated by: https://github.com/deadsy/sdfx\<newline>**\<newline>'',
           write_or_return (Path (fst st))
             (''*HEADING\<newline>Model: 3D model Date: '' @ now (snd st) @ ''\<newline>'')] st
      else Fail (ConfigError ''start or end layer is beyond range'') st)"

subsection \<open>\<open>writeNodes\<close>\<close>

definition in_layers :: "Inp \<Rightarrow> int \<Rightarrow> bool" where
  "in_layers inp z \<longleftrightarrow> z \<ge> LayerStart inp \<and> z < LayerEnd inp"

definition node_record :: "World \<Rightarrow> u32 \<Rightarrow> Vec \<Rightarrow> string" where
  "node_record w i v =
     fmt_d (unat (i + 1)) @ '','' @ fmt_f32 w (X v) @ '','' @ fmt_f32 w (Y v) @ '','' @
     fmt_f32 w (Z v) @ ''\<newline>''"

definition writeNode :: "Vec \<times> u32 \<Rightarrow> Inp \<times> World \<Rightarrow> (unit, Inp \<times> World) result" where
  "writeNode vi st =
     (case vi of (v, i) \<Rightarrow>
        if i + 1 = nextNode (fst st) then
          and_then
            (write_or_panic ''Couldn't write node to file: '' (PathNodes (fst st))
               (node_record (snd st) i v) st)
            (\<lambda>_ st'. Done () ((fst st')\<lparr>nextNode := nextNode (fst st') + 1\<rparr>, snd st'))
        else Done () st)"

definition writeNodes_element :: "Element \<Rightarrow> Inp \<times> World \<Rightarrow> (unit, Inp \<times> World) result" where
  "writeNodes_element el st = and_then (elementIds el st) (\<lambda>vis st'. for_each writeNode vis st')"

definition writeNodes_process ::
  "int \<Rightarrow> int \<Rightarrow> int \<Rightarrow> Element list \<Rightarrow> Inp \<times> World \<Rightarrow> (unit, Inp \<times> World) result" where
  "writeNodes_process x y z els st =
     (if in_layers (fst st) z then for_each writeNodes_element els st else Done () st)"

definition writeNodes :: "Inp \<times> World \<Rightarrow> (unit, Inp \<times> World) result" where
  "writeNodes st =
     steps
       [Create (PathNodes (fst st)),
        write_or_return (PathNodes (fst st)) ''*NODE\<newline>'',
        (\<lambda>st'. Done () ((fst st')\<lparr>nextNode := 1\<rparr>, snd st')),
        iterate writeNodes_process] st"

subsection \<open>\<open>writeElements\<close>\<close>

text \<open>
  The arguments \<open>ids[0]+1, ..., ids[n-1]+1\<close> of a connectivity record; an element with
  fewer than \<open>n\<close> nodes is an index panic (\<open>None\<close>).
\<close>

definition element_args :: "u32 list \<Rightarrow> nat \<Rightarrow> u32 list option" where
  "element_args ids n = (if n \<le> length ids then Some (map (\<lambda>k. ids ! k + 1) [0..<n]) else None)"

text \<open>
  The record of an element: \<open>eleID+1\<close> and the arguments, separated by commas; the record
  of \<open>C3D20R\<close> has a line break after its 16th entry.
\<close>

definition element_record :: "ElementType \<Rightarrow> u32 \<Rightarrow> u32 list \<Rightarrow> string" where
  "element_record t e args =
     (if t = C3D20R
      then csv (take 16 ((e + 1) # args)) @ '',\<newline>'' @ csv (drop 16 ((e + 1) # args)) @ ''\<newline>''
      else csv ((e + 1) # args) @ ''\<newline>'')"

definition write_record ::
  "string \<Rightarrow> ElementType \<Rightarrow> nat \<Rightarrow> u32 list \<Rightarrow> Inp \<times> World \<Rightarrow> (unit, Inp \<times> World) result" where
  "write_record p t n ids st =
     (case element_args ids n of
        None \<Rightarrow> Fail (Panic ''runtime error'') st
      | Some args \<Rightarrow>
          write_or_panic ''Couldn't write finite element to file: '' p
            (element_record t (eleID (fst st)) args) st)"

definition writeElement :: "Element \<Rightarrow> Inp \<times> World \<Rightarrow> (unit, Inp \<times> World) result" where
  "writeElement el st =
     and_then (elementIds el st) (\<lambda>vis st1.
       and_then
         (case Type el of
            C3D4 \<Rightarrow> write_record (PathElsC3D4 (fst st1)) C3D4 4 (map snd vis) st1
          | C3D10 \<Rightarrow> write_record (PathElsC3D10 (fst st1)) C3D10 10 (map snd vis) st1
          | C3D8 \<Rightarrow> write_record (PathElsC3D8 (fst st1)) C3D8 8 (map snd vis) st1
          | C3D20R \<Rightarrow> write_record (PathElsC3D20R (fst st1)) C3D20R 20 (map snd vis) st1
          | Unknown \<Rightarrow> Done () (fst st1, Println ''Element has unknown type :('' (snd st1)))
         (\<lambda>_ st2. Done () ((fst st2)\<lparr>eleID := eleID (fst st2) + 1\<rparr>, snd st2)))"

definition writeElements_process ::
  "int \<Rightarrow> int \<Rightarrow> int \<Rightarrow> Element list \<Rightarrow> Inp \<times> World \<Rightarrow> (unit, Inp \<times> World) result" where
  "writeElements_process x y z els st =
     (if in_layers (fst st) z then for_each writeElement els st else Done () st)"

definition writeElements :: "Inp \<times> World \<Rightarrow> (unit, Inp \<times> World) result" where
  "writeElements st =
     steps
       [Create (PathElsC3D4 (fst st)),
        Create (PathElsC3D10 (fst st)),
        Create (PathElsC3D8 (fst st)),
        Create (PathElsC3D20R (fst st)),
        write_or_return (PathElsC3D4 (fst st)) ''*ELEMENT, TYPE=C3D4, ELSET=eC3D4\<newline>'',
        write_or_return (PathElsC3D10 (fst st)) ''*ELEMENT, TYPE=C3D10, ELSET=eC3D10\<newline>'',
        write_or_return (PathElsC3D8 (fst st)) ''*ELEMENT, TYPE=C3D8, ELSET=eC3D8\<newline>'',
        write_or_return (PathElsC3D20R (fst st)) ''*ELEMENT, TYPE=C3D20R, ELSET=eC3D20R\<newline>'',
        iterate writeElements_process] st"

subsection \<open>\<open>writeBoundary\<close>\<close>

definition resolveVoxels :: "Fem \<Rightarrow> Restraint \<Rightarrow> Restraint" where
  "resolveVoxels m r =
     (if length (voxels r) < 1 then r\<lparr>voxels := fst (VoxelsIntersecting m (Location r))\<rparr> else r)"

text \<open>The node set of a restraint: the ids, in the temporary vertex buffer, of all nodes
  of all elements of its voxels.\<close>

fun nodeSet_elements :: "Fem \<Rightarrow> Element list \<Rightarrow> VB \<Rightarrow> (u32 list \<times> VB) option" where
  "nodeSet_elements m [] tb = Some ([], tb)"
| "nodeSet_elements m (element # elements) tb =
     (case tempIds m (Nodes element) tb of
        None \<Rightarrow> None
      | Some (vis, tb1) \<Rightarrow>
          (case nodeSet_elements m elements tb1 of
             None \<Rightarrow> None
           | Some (ids, tb2) \<Rightarrow> Some (map snd vis @ ids, tb2)))"

fun nodeSet_voxels :: "Fem \<Rightarrow> V3i list \<Rightarrow> VB \<Rightarrow> (u32 list \<times> VB) option" where
  "nodeSet_voxels m [] tb = Some ([], tb)"
| "nodeSet_voxels m (vox # voxs) tb =
     (case Get (Grid (IBuff m)) (Xi vox) (Yi vox) (Zi vox) of
        None \<Rightarrow> None
      | Some elements \<Rightarrow>
          (case nodeSet_elements m elements tb of
             None \<Rightarrow> None
           | Some (ids1, tb1) \<Rightarrow>
               (case nodeSet_voxels m voxs tb1 of
                  None \<Rightarrow> None
                | Some (ids2, tb2) \<Rightarrow> Some (ids1 @ ids2, tb2))))"

definition collectNodeSet :: "Restraint \<Rightarrow> Inp \<times> World \<Rightarrow> (u32 list, Inp \<times> World) result" where
  "collectNodeSet r st =
     (case nodeSet_voxels (Mesh (fst st)) (voxels r) (TempVBuff (fst st)) of
        None \<Rightarrow> Fail (Panic ''runtime error'') st
      | Some (nodeSet, tb) \<Rightarrow> Done nodeSet ((fst st)\<lparr>TempVBuff := tb\<rparr>, snd st))"

text \<open>The text written for member \<open>j\<close> of a node set of \<open>n\<close> members.\<close>

definition nodeSet_entry :: "nat \<Rightarrow> nat \<Rightarrow> u32 \<Rightarrow> string" where
  "nodeSet_entry n j i =
     (if j = n - 1 then fmt_d (unat (i + 1)) @ ''\<newline>''
      else if j \<noteq> 0 \<and> j mod 15 = 0 then fmt_d (unat (i + 1)) @ '',\<newline>''
      else fmt_d (unat (i + 1)) @ '','')"

definition writeNodeSet :: "string \<Rightarrow> u32 list \<Rightarrow> Inp \<times> World \<Rightarrow> (unit, Inp \<times> World) result" where
  "writeNodeSet p nodeSet st =
     for_each (\<lambda>(j, i). write_or_return p (nodeSet_entry (length nodeSet) j i))
       (enumerate 0 nodeSet) st"

text \<open>The degrees of freedom constrained for a restraint, in the order of the records written.\<close>

definition fixed_dofs :: "Restraint \<Rightarrow> nat list" where
  "fixed_dofs r =
     (let isFixedX = IsFixedX r; isFixedY = IsFixedY r; isFixedZ = IsFixedZ r
      in if isFixedX \<and> isFixedY \<and> isFixedZ then [1, 2, 3]
         else if isFixedX \<and> isFixedY \<and> \<not> isFixedZ then [1, 2]
         else if \<not> isFixedX \<and> isFixedY \<and> isFixedZ then [2, 3]
         else if isFixedX \<and> \<not> isFixedY \<and> isFixedZ then [1, 3]
         else if isFixedX \<and> \<not> isFixedY \<and> \<not> isFixedZ then [1]
         else if \<not> isFixedX \<and> isFixedY \<and> \<not> isFixedZ then [2]
         else if \<not> isFixedX \<and> \<not> isFixedY \<and> isFixedZ then [3]
         else [])"

definition writeRestraint :: "nat \<times> Restraint \<Rightarrow> Inp \<times> World \<Rightarrow> (unit, Inp \<times> World) result" where
  "writeRestraint ir st =
     (case ir of (i, r) \<Rightarrow>
        if \<not> IsFixedX r \<and> \<not> IsFixedY r \<and> \<not> IsFixedZ r
        then Fail (ConfigError ''restraint has no fixed degree of freedom'') st
        else
          and_then (collectNodeSet r st) (\<lambda>nodeSet st1.
            steps
              [write_or_return (PathBou (fst st1))
                 (''*NSET,NSET=restraint'' @ fmt_d (i + 1) @ ''\<newline>''),
               writeNodeSet (PathBou (fst st1)) nodeSet,
               write_or_return (PathBou (fst st1)) ''*BOUNDARY\<newline>'',
               for_each
                 (\<lambda>dof. write_or_panic ''Couldn't write boundary to file: '' (PathBou (fst st1))
                    (''restraint'' @ fmt_d (i + 1) @ '','' @ fmt_d dof @ ''\<newline>''))
                 (fixed_dofs r)] st1))"

definition writeBoundary :: "Inp \<times> World \<Rightarrow> (unit, Inp \<times> World) result" where
  "writeBoundary st =
     and_then (Create (PathBou (fst st)) st) (\<lambda>_ st1.
       (let inp = (fst st1)\<lparr>Restraints := map (resolveVoxels (Mesh (fst st1))) (Restraints (fst st1))\<rparr>
        in for_each writeRestraint (enumerate 0 (Restraints inp)) (inp, snd st1)))"

subsection \<open>\<open>writeLoad\<close>, \<open>writeGravity\<close> and \<open>writeFooter\<close>\<close>

definition writeLoad_load :: "Load \<Rightarrow> Inp \<times> World \<Rightarrow> (unit, Inp \<times> World) result" where
  "writeLoad_load l st =
     (case vertex (Mesh (fst st)) (nodeREF l) of
        None \<Rightarrow> Fail (Panic ''runtime error'') st
      | Some v \<Rightarrow>
          (case VB_Id (TempVBuff (fst st)) v of
             None \<Rightarrow> Fail (Panic ''runtime error'') st
           | Some (i, tb) \<Rightarrow>
               steps
                 [write_or_panic ''Couldn't write load to file: '' (PathLoad (fst st))
                    (fmt_d (unat (i + 1)) @ '',1,'' @ fmt_f (snd st) (X (Magnitude l)) @ ''\<newline>''),
                  write_or_panic ''Couldn't write load to file: '' (PathLoad (fst st))
                    (fmt_d (unat (i + 1)) @ '',2,'' @ fmt_f (snd st) (Y (Magnitude l)) @ ''\<newline>''),
                  write_or_panic ''Couldn't write load to file: '' (PathLoad (fst st))
                    (fmt_d (unat (i + 1)) @ '',3,'' @ fmt_f (snd st) (Z (Magnitude l)) @ ''\<newline>'')]
                 ((fst st)\<lparr>TempVBuff := tb\<rparr>, snd st)))"

definition writeLoad :: "Inp \<times> World \<Rightarrow> (unit, Inp \<times> World) result" where
  "writeLoad st =
     steps
       [Create (PathLoad (fst st)),
        write_or_return (PathLoad (fst st)) ''*CLOAD\<newline>'',
        (\<lambda>st1. Done ()
           ((fst st1)\<lparr>Loads :=
               map (\<lambda>l. l\<lparr>Loadvoxels := fst (VoxelsIntersecting (Mesh (fst st1)) (LoadLocation l))\<rparr>)
                 (Loads (fst st1))\<rparr>, snd st1)),
        (\<lambda>st1. for_each writeLoad_load (Loads (fst st1)) st1)] st"

definition gravity_record :: "string \<Rightarrow> Inp \<times> World \<Rightarrow> string" where
  "gravity_record elset st =
     elset @ '',GRAV,'' @ fmt_v (snd st) (GravityMagnitude (fst st)) @ '','' @
     fmt_v (snd st) (X (GravityDirection (fst st))) @ '','' @
     fmt_v (snd st) (Y (GravityDirection (fst st))) @ '','' @
     fmt_v (snd st) (Z (GravityDirection (fst st))) @ ''\<newline>''"

definition writeGravity :: "Inp \<times> World \<Rightarrow> (unit, Inp \<times> World) result" where
  "writeGravity st =
     steps
       [Create (PathGravity (fst st)),
        write_or_return (PathGravity (fst st)) ''*DLOAD\<newline>'',
        write_or_return (PathGravity (fst st)) (gravity_record ''eC3D4'' st),
        write_or_return (PathGravity (fst st)) (gravity_record ''eC3D10'' st),
        write_or_return (PathGravity (fst st)) (gravity_record ''eC3D8'' st),
        write_or_return (PathGravity (fst st)) (gravity_record ''eC3D20R'' st)] st"

definition writeFooter :: "Inp \<times> World \<Rightarrow> (unit, Inp \<times> World) result" where
  "writeFooter st =
     steps
       [write_or_return (Path (fst st)) ''*MATERIAL, name=resin\<newline>'',
        write_or_return (Path (fst st))
          (''*ELASTIC,TYPE=ISO\<newline>'' @ fmt_e32 (snd st) (YoungModulus (fst st)) @ '','' @
           fmt_e32 (snd st) (PoissonRatio (fst st)) @ '',0\<newline>''),
        write_or_return (Path (fst st))
          (''*DENSITY\<newline>'' @ fmt_e32 (snd st) (MassDensity (fst st)) @ ''\<newline>''),
        write_or_return (Path (fst st)) ''*SOLID SECTION,MATERIAL=resin,ELSET=eC3D4\<newline>'',
        write_or_return (Path (fst st)) ''*SOLID SECTION,MATERIAL=resin,ELSET=eC3D10\<newline>'',
        write_or_return (Path (fst st)) ''*SOLID SECTION,MATERIAL=resin,ELSET=eC3D8\<newline>'',
        write_or_return (Path (fst st)) ''*SOLID SECTION,MATERIAL=resin,ELSET=eC3D20R\<newline>'',
        write_or_return (Path (fst st)) ''*STEP\<newline>*STATIC\<newline>'',
        write_or_return (Path (fst st)) (''*INCLUDE,INPUT='' @ PathLoad (fst st) @ ''\<newline>''),
        writeLoad,
        (\<lambda>st1. if GravityIsNeeded (fst st1)
                then steps
                  [write_or_return (Path (fst st1))
                     (''*INCLUDE,INPUT='' @ PathGravity (fst st1) @ ''\<newline>''),
                   writeGravity] st1
                else Done () st1),
        write_or_return (Path (fst st)) ''*EL FILE\<newline>'',
        write_or_return (Path (fst st)) ''S\<newline>'',
        write_or_return (Path (fst st)) ''*NODE FILE\<newline>'',
        write_or_return (Path (fst st)) ''U\<newline>'',
        write_or_return (Path (fst st)) ''*END STEP\<newline>''] st"

subsection \<open>\<open>Write\<close>\<close>

text \<open>
  A deferred call runs when the function returns, with an error or without.
  \<open>Write\<close> defers \<open>inp.TempVBuff.DestroyHashTable()\<close> once the header and the first include
  line are written.
\<close>

definition deferred ::
  "(Inp \<Rightarrow> Inp) \<Rightarrow> (unit, Inp \<times> World) result \<Rightarrow> (unit, Inp \<times> World) result" where
  "deferred g r =
     (case r of
        Done v st \<Rightarrow> Done v (g (fst st), snd st)
      | Fail e st \<Rightarrow> Fail e (g (fst st), snd st))"

definition Write_body :: "Inp \<times> World \<Rightarrow> (unit, Inp \<times> World) result" where
  "Write_body st =
     steps
       [writeNodes,
        write_or_return (Path (fst st)) (''*INCLUDE,INPUT='' @ PathElsC3D4 (fst st) @ ''\<newline>''),
        write_or_return (Path (fst st)) (''*INCLUDE,INPUT='' @ PathElsC3D10 (fst st) @ ''\<newline>''),
        write_or_return (Path (fst st)) (''*INCLUDE,INPUT='' @ PathElsC3D8 (fst st) @ ''\<newline>''),
        write_or_return (Path (fst st)) (''*INCLUDE,INPUT='' @ PathElsC3D20R (fst st) @ ''\<newline>''),
        writeElements,
        write_or_return (Path (fst st)) (''*INCLUDE,INPUT='' @ PathBou (fst st) @ ''\<newline>''),
        writeBoundary,
        writeFooter] st"

definition Write :: "Inp \<times> World \<Rightarrow> (unit, Inp \<times> World) result" where
  "Write st =
     and_then (Create (Path (fst st)) st) (\<lambda>_ st1.
       and_then (writeHeader st1) (\<lambda>_ st2.
         and_then
           (write_or_return (Path (fst st2)) (''*INCLUDE,INPUT='' @ PathNodes (fst st2) @ ''\<newline>'') st2)
           (\<lambda>_ st3.
              deferred (\<lambda>inp. inp\<lparr>TempVBuff := DestroyHashTable (TempVBuff inp)\<rparr>)
                (Write_body st3))))"

section \<open>The layered hexahedron mesh \<open>MeshHex8\<close> and its \<open>WriteInpLayers\<close>\<close>

text \<open>
  The index buffer \<open>buffer.Hex8IB\<close> is declared outside \<open>src/\<close>: it is modelled as the list
  of layers, each the list of its elements, each element the array of its eight vertex
  ids. \<open>feVertices\<close> reads the eight vertices; an id outside the vertex buffer, and an
  element or layer outside the index buffer, are index panics.
\<close>

record MeshHex8 =
  Hex8_IBuff :: "u32 list list list"
  Hex8_VBuff :: VB

definition layerCount :: "MeshHex8 \<Rightarrow> int" where
  "layerCount m = int (length (Hex8_IBuff m))"

definition feCountOnLayer :: "MeshHex8 \<Rightarrow> nat \<Rightarrow> nat" where
  "feCountOnLayer m l = length (Hex8_IBuff m ! l)"

fun vertices_of :: "VB \<Rightarrow> u32 list \<Rightarrow> Vec list option" where
  "vertices_of vb [] = Some []"
| "vertices_of vb (i # is) =
     (case Vertex vb i of
        None \<Rightarrow> None
      | Some v \<Rightarrow> (case vertices_of vb is of None \<Rightarrow> None | Some vs \<Rightarrow> Some (v # vs)))"

definition feVertices :: "MeshHex8 \<Rightarrow> nat \<Rightarrow> nat \<Rightarrow> Vec list option" where
  "feVertices m l i = vertices_of (Hex8_VBuff m) (take 8 (Hex8_IBuff m ! l ! i))"

text \<open>The ids of the vertices of an element in the temporary buffer: \<open>ids[n] = tempVBuff.Id(nodes[n])\<close>.\<close>

fun hex8Ids :: "Vec list \<Rightarrow> VB \<Rightarrow> (u32 list \<times> VB) option" where
  "hex8Ids [] tb = Some ([], tb)"
| "hex8Ids (v # vs) tb =
     (case VB_Id tb v of
        None \<Rightarrow> None
      | Some (i, tb1) \<Rightarrow>
          (case hex8Ids vs tb1 of None \<Rightarrow> None | Some (is, tb2) \<Rightarrow> Some (i # is, tb2)))"

text \<open>The state of the loops of \<open>WriteInpLayers\<close>: \<open>tempVBuff\<close>, \<open>eleID\<close> and the world.\<close>

definition hex8_nodes ::
  "MeshHex8 \<Rightarrow> string \<Rightarrow> nat \<times> nat \<Rightarrow> (VB \<times> u32) \<times> World \<Rightarrow> (unit, (VB \<times> u32) \<times> World) result" where
  "hex8_nodes m path li st =
     (case li of (l, i) \<Rightarrow>
        (case feVertices m l i of
           None \<Rightarrow> Fail (Panic ''runtime error'') st
         | Some nodes \<Rightarrow>
             (case hex8Ids nodes (fst (fst st)) of
                None \<Rightarrow> Fail (Panic ''runtime error'') st
              | Some (ids, tb) \<Rightarrow>
                  for_each (\<lambda>(v, i). write_or_return path (node_record (snd st) i v))
                    (zip nodes ids) ((tb, snd (fst st)), snd st))))"

definition hex8_element ::
  "MeshHex8 \<Rightarrow> string \<Rightarrow> nat \<times> nat \<Rightarrow> (VB \<times> u32) \<times> World \<Rightarrow> (unit, (VB \<times> u32) \<times> World) result" where
  "hex8_element m path li st =
     (case li of (l, i) \<Rightarrow>
        (case feVertices m l i of
           None \<Rightarrow> Fail (Panic ''runtime error'') st
         | Some nodes \<Rightarrow>
             (case hex8Ids nodes (fst (fst st)) of
                None \<Rightarrow> Fail (Panic ''runtime error'') st
              | Some (ids, tb) \<Rightarrow>
                  and_then
                    (write_or_return path
                       (csv ((snd (fst st) + 1) # map (\<lambda>i. i + 1) ids) @ ''\<newline>'')
                       ((tb, snd (fst st)), snd st))
                    (\<lambda>_ st1. Done () ((fst (fst st1), snd (fst st1) + 1), snd st1)))))"

text \<open>The pairs \<open>(l, i)\<close> visited by \<open>for l := layerStart; l < layerEnd; l++ { for i := 0; i < feCountOnLayer(l); i++\<close>.\<close>

definition hex8_range :: "MeshHex8 \<Rightarrow> int \<Rightarrow> int \<Rightarrow> (nat \<times> nat) list" where
  "hex8_range m layerStart layerEnd =
     concat (map (\<lambda>l. map (\<lambda>i. (l, i)) [0..<feCountOnLayer m l]) [nat layerStart..<nat layerEnd])"

definition WriteInpLayers :: "MeshHex8 \<Rightarrow> string \<Rightarrow> int \<Rightarrow> int \<Rightarrow> World \<Rightarrow> (unit, World) result" where
  "WriteInpLayers m path layerStart layerEnd w =
     (if 0 \<le> layerStart \<and> layerStart < layerEnd \<and> layerEnd \<le> layerCount m then
        (case steps
           [Create path,
            write_or_return path
              ''**\<newline>** Structure: finite elements of a 3D model.\<newline>** Generated by: https://github.com/deadsy/sdfx\<newline>**\<newline>'',
            write_or_return path (''*HEADING\<newline>Model: 3D model Date: '' @ now w @ ''\<newline>''),
            write_or_return path ''*NODE\<newline>'',
            for_each (hex8_nodes m path) (hex8_range m layerStart layerEnd),
            write_or_return path ''*ELEMENT, TYPE=C3D8, ELSET=Eall\<newline>'',
            for_each (hex8_element m path) (hex8_range m layerStart layerEnd)]
           ((NewVB, 0), w) of
           Done v st \<Rightarrow> Done v (snd st)
         | Fail e st \<Rightarrow> Fail e (snd st))
      else Fail (ConfigError ''start or end layer is beyond range'') w)"

definition WriteInp :: "MeshHex8 \<Rightarrow> string \<Rightarrow> World \<Rightarrow> (unit, World) result" where
  "WriteInp m path w = WriteInpLayers m path 0 (layerCount m) w"

section \<open>Notions used in the statements\<close>

subsection \<open>Vertex buffers\<close>

text \<open>The invariant of the build phase: the map sends the key of every stored vertex to its index.\<close>

definition lookup_inv :: "MeshTet4 \<Rightarrow> bool" where
  "lookup_inv m \<longleftrightarrow>
     (\<exists>lk. Lookup m = Some lk \<and>
        (\<forall>k i. lk k = Some i \<longrightarrow> unat i < length (V m) \<and> key3 (V m ! unat i) = k))"

definition same_point_same_id :: "Vec list \<Rightarrow> u32 list \<Rightarrow> bool" where
  "same_point_same_id ps ids \<longleftrightarrow>
     (\<forall>(p, i) \<in> set (zip ps ids). \<forall>(q, j) \<in> set (zip ps ids). p = q \<longrightarrow> i = j)"

definition same_id_same_key :: "(Vec \<Rightarrow> real \<times> real \<times> real) \<Rightarrow> Vec list \<Rightarrow> u32 list \<Rightarrow> bool" where
  "same_id_same_key key ps ids \<longleftrightarrow>
     (\<forall>(p, i) \<in> set (zip ps ids). \<forall>(q, j) \<in> set (zip ps ids). i = j \<longrightarrow> key p = key q)"

definition flat_inv :: "(real \<Rightarrow> real) \<Rightarrow> MeshTet4_flat \<Rightarrow> bool" where
  "flat_inv f32 t \<longleftrightarrow>
     length (flat_V t) = unat (vCount t) \<and>
     (\<forall>k i. flat_Lookup t k = Some i \<longrightarrow>
        unat i < length (flat_V t) \<and> key32 f32 (flat_V t ! unat i) = k)"

definition dedup_p :: Vec where
  "dedup_p = \<lparr>X = 0, Y = 0, Z = 0\<rparr>"

definition dedup_q :: Vec where
  "dedup_q = \<lparr>X = 1, Y = 0, Z = 0\<rparr>"

subsection \<open>Geometry of a tetrahedron and of an edge\<close>

text \<open>
  The scalar triple product \<open>(b - a) \<sqdot> ((c - a) \<times> (d - a))\<close> of the edge vectors from \<open>a\<close>,
  written out in coordinates, and the Euclidean distance of two points: the notions in
  which the specification states the quality gate.
\<close>

definition triple :: "Vec \<Rightarrow> Vec \<Rightarrow> Vec \<Rightarrow> Vec \<Rightarrow> real" where
  "triple a b c d =
     (X b - X a) * ((Y c - Y a) * (Z d - Z a) - (Z c - Z a) * (Y d - Y a))
   - (Y b - Y a) * ((X c - X a) * (Z d - Z a) - (Z c - Z a) * (X d - X a))
   + (Z b - Z a) * ((X c - X a) * (Y d - Y a) - (Y c - Y a) * (X d - X a))"

definition spec_edge :: "Vec \<Rightarrow> Vec \<Rightarrow> real" where
  "spec_edge p q = sqrt ((X q - X p)\<^sup>2 + (Y q - Y p)\<^sup>2 + (Z q - Z p)\<^sup>2)"

definition spec_volume :: "Vec \<Rightarrow> Vec \<Rightarrow> Vec \<Rightarrow> Vec \<Rightarrow> real" where
  "spec_volume a b c d = \<bar>triple a b c d\<bar> / 6"

definition spec_degenerate :: "Vec \<Rightarrow> Vec \<Rightarrow> Vec \<Rightarrow> Vec \<Rightarrow> bool" where
  "spec_degenerate a b c d \<longleftrightarrow>
     (spec_edge a b = 0 \<or> spec_edge a c = 0 \<or> spec_edge a d = 0 \<or>
      spec_edge b c = 0 \<or> spec_edge b d = 0 \<or> spec_edge c d = 0) \<or>
     480 * spec_volume a b c d /
       ((spec_edge a b + spec_edge c d) * (spec_edge a c + spec_edge b d) *
        (spec_edge a d + spec_edge b c)) < 1"

definition spec_lerp :: "Vec \<Rightarrow> Vec \<Rightarrow> real \<Rightarrow> Vec" where
  "spec_lerp p1 p2 t =
     \<lparr>X = X p1 + t * (X p2 - X p1), Y = Y p1 + t * (Y p2 - Y p1), Z = Z p1 + t * (Z p2 - Z p1)\<rparr>"

definition spec_midpoint :: "Vec \<Rightarrow> Vec \<Rightarrow> Vec" where
  "spec_midpoint p1 p2 = \<lparr>X = (X p1 + X p2) / 2, Y = (Y p1 + Y p2) / 2, Z = (Z p1 + Z p2) / 2\<rparr>"




definition sliver_b :: Vec where "sliver_b = \<lparr>X = 1, Y = 0, Z = 0\<rparr>"

definition sliver_c :: Vec where "sliver_c = \<lparr>X = 0, Y = 1, Z = 0\<rparr>"

definition sliver_d :: Vec where "sliver_d = \<lparr>X = 0, Y = 0, Z = 1 / 1024\<rparr>"

definition edge_p1 :: Vec where "edge_p1 = \<lparr>X = 0, Y = 0, Z = 0\<rparr>"

definition edge_p2 :: Vec where "edge_p2 = \<lparr>X = 1, Y = 2, Z = 4\<rparr>"

subsection \<open>Results of a run and a small mesh\<close>

text \<open>Whether a run succeeded, the error it failed with, and the state it ended in.\<close>

definition succeeded :: "('v, 's) result \<Rightarrow> bool" where
  "succeeded r = (case r of Done _ _ \<Rightarrow> True | Fail _ _ \<Rightarrow> False)"

definition failure :: "('v, 's) result \<Rightarrow> error option" where
  "failure r = (case r of Done _ _ \<Rightarrow> None | Fail e _ \<Rightarrow> Some e)"

definition final_state :: "('v, 's) result \<Rightarrow> 's" where
  "final_state r = (case r of Done _ s \<Rightarrow> s | Fail _ s \<Rightarrow> s)"

text \<open>
  One voxel holding the given elements over four vertices, a world in which every
  file operation succeeds and every floating-point number prints as a single letter,
  and a writer made by \<open>NewInp\<close> for the output path \<open>m\<close> and the layer range \<open>[0, 1)\<close>.
\<close>

definition ex_points :: "Vec list" where
  "ex_points = [\<lparr>X = 0, Y = 0, Z = 0\<rparr>, \<lparr>X = 1, Y = 0, Z = 0\<rparr>, \<lparr>X = 0, Y = 1, Z = 0\<rparr>, \<lparr>X = 0, Y = 0, Z = 1\<rparr>]"

definition ex_tet :: Element where
  "ex_tet = \<lparr>Nodes = [0, 1, 2, 3], Type = C3D4\<rparr>"

definition ex_unknown :: Element where
  "ex_unknown = \<lparr>Nodes = [0], Type = Unknown\<rparr>"

definition ex_mesh :: "Element list \<Rightarrow> Fem" where
  "ex_mesh els =
     \<lparr>IBuff = \<lparr>Grid = \<lparr>Len = \<lparr>Xi = 1, Yi = 1, Zi = 1\<rparr>, Dim = \<lparr>X = 1, Y = 1, Z = 1\<rparr>,
                       Min0 = \<lparr>X = 0, Y = 0, Z = 0\<rparr>,
                       Voxel = (\<lambda>x y z. if x = 0 \<and> y = 0 \<and> z = 0 then els else []),
                       Intersecting = (\<lambda>ps. ([\<lparr>Xi = 0, Yi = 0, Zi = 0\<rparr>], zeroVec, zeroVec))\<rparr>,
              Order = [(0, 0, 0)]\<rparr>,
      VBuff = \<lparr>Points = ex_points, hashTable = None\<rparr>\<rparr>"

definition ex_world :: World where
  "ex_world = \<lparr>files = (\<lambda>p. None), create_fails = (\<lambda>p. False), write_fails = (\<lambda>p. False),
     stdout = [], now = ''2024-Jan-01 UTC'', fmt_f32 = (\<lambda>r. ''f''), fmt_f = (\<lambda>r. ''f''),
     fmt_v = (\<lambda>r. ''v''), fmt_e32 = (\<lambda>r. ''e'')\<rparr>"

definition ex_free :: Restraint where
  "ex_free = \<lparr>Location = [], IsFixedX = False, IsFixedY = False, IsFixedZ = False, voxels = []\<rparr>"

definition ex_fixed :: Restraint where
  "ex_fixed = \<lparr>Location = [], IsFixedX = True, IsFixedY = False, IsFixedZ = False, voxels = []\<rparr>"

definition ex_inp :: "Element list \<Rightarrow> Restraint list \<Rightarrow> Inp" where
  "ex_inp els rs = NewInp (ex_mesh els) ''m'' 0 1 1 1 1 rs [] zeroVec 0 False"

text \<open>A new writer on the mesh of one tetrahedron, and the same after \<open>inp.nextNode = 1\<close>.\<close>

definition ex_state :: "Inp \<times> World" where
  "ex_state = (ex_inp [ex_tet] [], ex_world)"

definition ex_state1 :: "Inp \<times> World" where
  "ex_state1 = ((ex_inp [ex_tet] [])\<lparr>nextNode := 1\<rparr>, ex_world)"

text \<open>
  A world in which the master file \<open>m\<close> cannot be created, a world in which it exists
  with a content, and a writer for the empty layer range \<open>[0, 0)\<close>.
\<close>

definition ex_world_locked :: World where
  "ex_world_locked = ex_world\<lparr>create_fails := (\<lambda>p. p = ''m'')\<rparr>"

definition ex_world_old :: World where
  "ex_world_old = ex_world\<lparr>files := (files ex_world)(''m'' \<mapsto> ''old'')\<rparr>"

definition ex_inp_empty_range :: Inp where
  "ex_inp_empty_range = (ex_inp [ex_tet] [ex_fixed])\<lparr>LayerStart := 0, LayerEnd := 0\<rparr>"

definition ex_hex8 :: MeshHex8 where
  "ex_hex8 = \<lparr>Hex8_IBuff = [[[0, 1, 2, 3, 0, 1, 2, 3]]], Hex8_VBuff = \<lparr>Points = ex_points, hashTable = None\<rparr>\<rparr>"

subsection \<open>Preservation\<close>

text \<open>
  \<open>keeps P f\<close>: when \<open>f\<close> succeeds from a state with \<open>P\<close>, the state reached has \<open>P\<close>.
  \<open>stable q\<close>: the quantity \<open>q\<close> of the writer does not depend on the temporary vertex
  buffer and on the counters \<open>eleID\<close> and \<open>nextNode\<close>, the only variables that the node and
  element stages assign.
\<close>

definition keeps :: "('s \<Rightarrow> bool) \<Rightarrow> ('s \<Rightarrow> ('v, 's) result) \<Rightarrow> bool" where
  "keeps P f \<longleftrightarrow> (\<forall>s v s'. P s \<longrightarrow> f s = Done v s' \<longrightarrow> P s')"

definition stable :: "(Inp \<Rightarrow> 'a) \<Rightarrow> bool" where
  "stable q \<longleftrightarrow>
     (\<forall>i tb. q (i\<lparr>TempVBuff := tb\<rparr>) = q i) \<and>
     (\<forall>i e. q (i\<lparr>eleID := e\<rparr>) = q i) \<and>
     (\<forall>i n. q (i\<lparr>nextNode := n\<rparr>) = q i)"

definition holds :: "(Inp \<Rightarrow> 'a) \<Rightarrow> 'a \<Rightarrow> Inp \<times> World \<Rightarrow> bool" where
  "holds q c st \<longleftrightarrow> q (fst st) = c"

subsection \<open>Restraints\<close>

definition all_free :: "Restraint \<Rightarrow> bool" where
  "all_free r \<longleftrightarrow> \<not> IsFixedX r \<and> \<not> IsFixedY r \<and> \<not> IsFixedZ r"

subsection \<open>Texts, lines and entries\<close>

text \<open>
  The text that \<open>writeBoundary\<close> writes for the members of a node set, as the concatenation
  of the texts written for its members.
\<close>

definition nodeSet_text :: "u32 list \<Rightarrow> string" where
  "nodeSet_text nodeSet =
     concat (map (\<lambda>(j, i). nodeSet_entry (length nodeSet) j i) (enumerate 0 nodeSet))"

text \<open>
  The lines of a text, each ended by a line break, and the entries of a line: its
  non-empty fields between commas.
\<close>

fun lines_acc :: "string \<Rightarrow> string \<Rightarrow> string list" where
  "lines_acc cur [] = (if cur = [] then [] else [cur])"
| "lines_acc cur (c # cs) =
     (if c = CHR ''\<newline>'' then cur # lines_acc [] cs else lines_acc (cur @ [c]) cs)"

definition text_lines :: "string \<Rightarrow> string list" where
  "text_lines s = lines_acc [] s"

fun fields_acc :: "string \<Rightarrow> string \<Rightarrow> string list" where
  "fields_acc cur [] = [cur]"
| "fields_acc cur (c # cs) =
     (if c = CHR '','' then cur # fields_acc [] cs else fields_acc (cur @ [c]) cs)"

definition entries :: "string \<Rightarrow> string list" where
  "entries l = filter (\<lambda>f. f \<noteq> []) (fields_acc [] l)"

text \<open>
  A list cut into a first chunk of at most \<open>k\<close> members and further chunks of at most 15,
  and the text of a list of chunks: one line per chunk, a continuation comma at the end
  of every line but the last.
\<close>

function wrap :: "nat \<Rightarrow> 'a list \<Rightarrow> 'a list list" where
  "wrap k xs = (if k = 0 \<or> length xs \<le> k then [xs] else take k xs # wrap 15 (drop k xs))"
  by pat_completeness auto

termination
  by (relation "measure (\<lambda>(k, xs). length xs)") auto

declare wrap.simps [simp del]

fun render :: "u32 list list \<Rightarrow> string" where
  "render [] = []"
| "render [c] = csv c @ ''\<newline>''"
| "render (c # cs) = csv c @ '',\<newline>'' @ render cs"

text \<open>The number of members that still fit on the line when member \<open>k\<close> is written.\<close>

definition cap :: "nat \<Rightarrow> nat" where
  "cap k = (if k = 0 then 16 else 15 - (k - 1) mod 15)"

definition ex_ids17 :: "u32 list" where
  "ex_ids17 = [16, 15, 14, 13, 12, 11, 10, 9, 8, 7, 6, 5, 4, 3, 2, 1, 0]"

definition ex_world_b :: World where
  "ex_world_b = ex_world\<lparr>files := (files ex_world)(''b'' \<mapsto> [])\<rparr>"

subsection \<open>Reading back a number\<close>

text \<open>Reading back a decimal number: the inverse of \<open>%d\<close>.\<close>

definition digit_val :: "char \<Rightarrow> nat option" where
  "digit_val c = map_of (zip ''0123456789'' [0..<10]) c"

fun parse_acc :: "nat \<Rightarrow> string \<Rightarrow> nat option" where
  "parse_acc a [] = Some a"
| "parse_acc a (c # cs) =
     (case digit_val c of None \<Rightarrow> None | Some d \<Rightarrow> parse_acc (10 * a + d) cs)"

definition parse_d :: "string \<Rightarrow> nat option" where
  "parse_d s = (if s = [] then None else parse_acc 0 s)"

subsection \<open>Visited elements and their records\<close>

text \<open>
  The elements visited by the element stage, in the order of the iteration: those of the
  cells within the layer range. The file and the number of nodes that \<open>writeElement\<close>
  uses for a type, the id at the start of a record, and the content of a file.
\<close>

definition visited :: "Inp \<Rightarrow> Element list" where
  "visited inp =
     concat (map (\<lambda>(x, y, z). if in_layers inp z then Voxel (Grid (IBuff (Mesh inp))) x y z else [])
       (Order (IBuff (Mesh inp))))"

definition layer_range :: "Inp \<Rightarrow> int \<times> int" where
  "layer_range inp = (LayerStart inp, LayerEnd inp)"

definition file_of :: "ElementType \<Rightarrow> Inp \<Rightarrow> string" where
  "file_of t inp =
     (case t of C3D4 \<Rightarrow> PathElsC3D4 inp | C3D10 \<Rightarrow> PathElsC3D10 inp | C3D8 \<Rightarrow> PathElsC3D8 inp
      | C3D20R \<Rightarrow> PathElsC3D20R inp | Unknown \<Rightarrow> [])"

definition nodes_of :: "ElementType \<Rightarrow> nat" where
  "nodes_of t = (case t of C3D4 \<Rightarrow> 4 | C3D10 \<Rightarrow> 10 | C3D8 \<Rightarrow> 8 | C3D20R \<Rightarrow> 20 | Unknown \<Rightarrow> 0)"

text \<open>
  The nodes of a list of vertices with their ids that \<open>writeNodes\<close> writes when the counter
  \<open>nextNode\<close> has the given value: those whose id plus one is the counter at their turn.
\<close>

fun written_nodes :: "u32 \<Rightarrow> (Vec \<times> u32) list \<Rightarrow> (Vec \<times> u32) list" where
  "written_nodes nn [] = []"
| "written_nodes nn ((v, i) # vis) =
     (if i + 1 = nn then (v, i) # written_nodes (nn + 1) vis else written_nodes nn vis)"

definition record_id :: "string \<Rightarrow> nat option" where
  "record_id s = parse_d (hd (fields_acc [] s))"

definition content :: "World \<Rightarrow> string \<Rightarrow> string" where
  "content w p = (case files w p of None \<Rightarrow> [] | Some c \<Rightarrow> c)"

section \<open>Properties of the vertex buffers\<close>

lemma key3_inj: "key3 p = key3 q \<longleftrightarrow> p = q"
  by (cases p, cases q) (simp add: key3_def)

subsection \<open>The layered mesh\<close>

lemma addVertex_Some:
  assumes "addVertex m p = Some (i, m1)"
  shows "\<exists>lk lk1. Lookup m = Some lk \<and> Lookup m1 = Some lk1 \<and> lk1 (key3 p) = Some i \<and>
    (\<forall>k j. lk k = Some j \<longrightarrow> lk1 k = Some j)"
proof (cases "Lookup m")
  case None
  with assms show ?thesis by (simp add: addVertex_def)
next
  case (Some lk)
  show ?thesis
  proof (cases "lk (key3 p)")
    case None
    with Some assms show ?thesis
      by (auto simp: addVertex_def Let_def vertexCount_def)
  next
    case (Some j)
    with \<open>Lookup m = Some lk\<close> assms show ?thesis
      by (auto simp: addVertex_def)
  qed
qed

lemma addVertex_total: "Lookup m \<noteq> None \<Longrightarrow> \<exists>i m1. addVertex m p = Some (i, m1)"
  by (auto simp: addVertex_def Let_def split: option.splits)

lemma addVertices_Some:
  "addVertices m ps = Some (ids, m') \<Longrightarrow> Lookup m = Some lk \<Longrightarrow>
     length ids = length ps \<and>
     (\<exists>lk'. Lookup m' = Some lk' \<and>
        (\<forall>k j. lk k = Some j \<longrightarrow> lk' k = Some j) \<and>
        (\<forall>n<length ps. lk' (key3 (ps ! n)) = Some (ids ! n)))"
proof (induction ps arbitrary: m ids lk)
  case Nil
  then show ?case by simp
next
  case (Cons p ps)
  from Cons.prems(1) obtain i m1 "is" where
    a: "addVertex m p = Some (i, m1)" and b: "addVertices m1 ps = Some (is, m')" and c: "ids = i # is"
    by (auto split: option.splits)
  from addVertex_Some [OF a] Cons.prems(2) obtain lk1 where l: "Lookup m = Some lk" "Lookup m1 = Some lk1" "lk1 (key3 p) = Some i"
    and mono1: "\<And>k j. lk k = Some j \<Longrightarrow> lk1 k = Some j"
    by auto
  from Cons.IH [OF b l(2)] obtain lk' where l': "length is = length ps" "Lookup m' = Some lk'"
    and mono2: "\<And>k j. lk1 k = Some j \<Longrightarrow> lk' k = Some j"
    and hit: "\<And>n. n < length ps \<Longrightarrow> lk' (key3 (ps ! n)) = Some (is ! n)" by auto
  have "lk' (key3 ((p # ps) ! n)) = Some (ids ! n)" if "n < length (p # ps)" for n
  proof (cases n)
    case 0
    then show ?thesis using mono2 [OF l(3)] c by simp
  next
    case (Suc k)
    then show ?thesis using hit [of k] that c by simp
  qed
  moreover have "lk' k = Some j" if "lk k = Some j" for k j
    using mono2 [OF mono1 [OF that]] .
  ultimately show ?case using l(1) l'(1,2) c by simp
qed


lemma addVertices_total: "Lookup m \<noteq> None \<Longrightarrow> \<exists>ids m'. addVertices m ps = Some (ids, m')"
proof (induction ps arbitrary: m)
  case Nil
  then show ?case by simp
next
  case (Cons p ps)
  from addVertex_total [OF Cons.prems] obtain i m1 where a: "addVertex m p = Some (i, m1)" by blast
  from addVertex_Some [OF a] have "Lookup m1 \<noteq> None" by auto
  from Cons.IH [OF this] a show ?case by auto
qed

lemma addVertex_inv:
  assumes "addVertex m p = Some (i, m1)" "lookup_inv m" "length (V m1) \<le> 2 ^ 32"
  shows "lookup_inv m1 \<and> length (V m) \<le> length (V m1)"
proof -
  from assms(2) obtain lk where lk: "Lookup m = Some lk"
    and inv: "\<And>k i. lk k = Some i \<Longrightarrow> unat i < length (V m) \<and> key3 (V m ! unat i) = k"
    unfolding lookup_inv_def by blast
  show ?thesis
  proof (cases "lk (key3 p)")
    case (Some j)
    with lk assms show ?thesis by (simp add: addVertex_def)
  next
    case None
    with lk have "addVertex m p =
        Some (word_of_nat (length (V m)), m\<lparr>V := V m @ [p], Lookup := Some (lk(key3 p \<mapsto> word_of_nat (length (V m))))\<rparr>)"
      by (simp add: addVertex_def Let_def vertexCount_def)
    with assms(1) have "Some (i, m1) =
        Some (word_of_nat (length (V m)), m\<lparr>V := V m @ [p], Lookup := Some (lk(key3 p \<mapsto> word_of_nat (length (V m))))\<rparr>)"
      by (simp only:)
    then have m1: "m1 = m\<lparr>V := V m @ [p], Lookup := Some (lk(key3 p \<mapsto> word_of_nat (length (V m))))\<rparr>"
      by (simp only: option.inject prod.inject)
    with assms(3) have len: "length (V m) < 2 ^ 32" by simp
    then have u: "unat (word_of_nat (length (V m)) :: u32) = length (V m)"
      by (simp add: unat_of_nat)
    have "unat i' < length (V m1) \<and> key3 (V m1 ! unat i') = k"
      if "(lk(key3 p \<mapsto> word_of_nat (length (V m)))) k = Some i'" for k i'
    proof (cases "k = key3 p")
      case True
      with that have "i' = word_of_nat (length (V m))" by simp
      with u True m1 show ?thesis by simp
    next
      case False
      with that have "lk k = Some i'" by simp
      from inv [OF this] m1 show ?thesis by (simp add: nth_append)
    qed
    with m1 show ?thesis unfolding lookup_inv_def by simp
  qed
qed

lemma addVertex_length: "addVertex m p = Some (i, m1) \<Longrightarrow> length (V m) \<le> length (V m1)"
  by (auto simp: addVertex_def Let_def split: option.splits)

lemma addVertices_length: "addVertices m ps = Some (ids, m') \<Longrightarrow> length (V m) \<le> length (V m')"
proof (induction ps arbitrary: m ids)
  case Nil
  then show ?case by simp
next
  case (Cons p ps)
  from Cons.prems obtain i m1 "is" where
    a: "addVertex m p = Some (i, m1)" and b: "addVertices m1 ps = Some (is, m')"
    by (auto split: option.splits)
  from addVertex_length [OF a] Cons.IH [OF b] show ?case by simp
qed

lemma addVertices_inv:
  "addVertices m ps = Some (ids, m') \<Longrightarrow> lookup_inv m \<Longrightarrow> length (V m') \<le> 2 ^ 32 \<Longrightarrow> lookup_inv m'"
proof (induction ps arbitrary: m ids)
  case Nil
  then show ?case by simp
next
  case (Cons p ps)
  from Cons.prems(1) obtain i m1 "is" where
    a: "addVertex m p = Some (i, m1)" and b: "addVertices m1 ps = Some (is, m')"
    by (auto split: option.splits)
  from addVertices_length [OF b] Cons.prems(3) have "length (V m1) \<le> 2 ^ 32" by simp
  from addVertex_inv [OF a Cons.prems(2) this] have "lookup_inv m1" by simp
  from Cons.IH [OF b this Cons.prems(3)] show ?case .
qed

lemma lookup_inv_New: "lookup_inv (NewMeshTet4 n)"
  by (simp add: lookup_inv_def NewMeshTet4_def)


lemma addVertices_map:
  assumes "addVertices m ps = Some (ids, m')" "Lookup m = Some lk"
  shows "\<exists>lk'. Lookup m' = Some lk' \<and> ids = map (\<lambda>p. the (lk' (key3 p))) ps"
proof -
  from addVertices_Some [OF assms] obtain lk' where len: "length ids = length ps"
    and lk': "Lookup m' = Some lk'"
    and hit: "\<And>n. n < length ps \<Longrightarrow> lk' (key3 (ps ! n)) = Some (ids ! n)"
    by blast
  have "ids = map (\<lambda>p. the (lk' (key3 p))) ps"
    by (rule nth_equalityI) (simp_all add: len hit)
  with lk' show ?thesis by blast
qed

lemma map_same_point_same_id: "same_point_same_id ps (map f ps)"
  by (auto simp: same_point_same_id_def zip_map2 zip_same)

lemma map_card_le: "card (set (map f ps)) \<le> card (set ps)"
  by (simp add: card_image_le)

lemma addVertices_exact:
  assumes "addVertices m ps = Some (ids, m')" "lookup_inv m" "length (V m') \<le> 2 ^ 32"
  shows "same_id_same_key key3 ps ids"
proof -
  from assms(2) obtain lk where lk: "Lookup m = Some lk" unfolding lookup_inv_def by blast
  from addVertices_Some [OF assms(1) lk] obtain lk' where len: "length ids = length ps"
    and lk': "Lookup m' = Some lk'"
    and hit: "\<And>n. n < length ps \<Longrightarrow> lk' (key3 (ps ! n)) = Some (ids ! n)"
    by blast
  from addVertices_inv [OF assms] lk'
  have inv: "\<And>k i. lk' k = Some i \<Longrightarrow> key3 (V m' ! unat i) = k"
    unfolding lookup_inv_def by auto
  have "key3 p = key3 q" if "(p, i) \<in> set (zip ps ids)" "(q, i) \<in> set (zip ps ids)" for p q i
  proof -
    from that(1) len obtain n where n: "n < length ps" "ps ! n = p" "ids ! n = i"
      by (auto simp: in_set_zip)
    from that(2) len obtain k where k: "k < length ps" "ps ! k = q" "ids ! k = i"
      by (auto simp: in_set_zip)
    from hit [OF n(1)] n have "lk' (key3 p) = Some i" by simp
    moreover from hit [OF k(1)] k have "lk' (key3 q) = Some i" by simp
    ultimately show ?thesis using inv by metis
  qed
  then show ?thesis unfolding same_id_same_key_def by blast
qed


subsection \<open>The flat mesh\<close>

lemma AddVertex_lookup:
  assumes "AddVertex f32 t p = (i, t1)"
  shows "flat_Lookup t1 (key32 f32 p) = Some i \<and>
    (\<forall>k j. flat_Lookup t k = Some j \<longrightarrow> flat_Lookup t1 k = Some j)"
proof (cases "flat_Lookup t (key32 f32 p)")
  case None
  with assms show ?thesis
    by (auto simp: AddVertex_def Let_def)
next
  case (Some j)
  with assms show ?thesis
    by (auto simp: AddVertex_def)
qed

lemma AddVertices_Some:
  "AddVertices f32 t ps = (ids, t') \<Longrightarrow>
     length ids = length ps \<and>
     (\<forall>k j. flat_Lookup t k = Some j \<longrightarrow> flat_Lookup t' k = Some j) \<and>
     (\<forall>n<length ps. flat_Lookup t' (key32 f32 (ps ! n)) = Some (ids ! n))"
proof (induction ps arbitrary: t ids t')
  case Nil
  then show ?case by simp
next
  case (Cons p ps)
  obtain i t1 where a: "AddVertex f32 t p = (i, t1)" by (cases "AddVertex f32 t p")
  obtain "is" t2 where b: "AddVertices f32 t1 ps = (is, t2)" by (cases "AddVertices f32 t1 ps")
  from Cons.prems a b have c: "ids = i # is" "t' = t2" by simp_all
  from AddVertex_lookup [OF a] have l: "flat_Lookup t1 (key32 f32 p) = Some i"
    and mono1: "\<And>k j. flat_Lookup t k = Some j \<Longrightarrow> flat_Lookup t1 k = Some j"
    by auto
  from Cons.IH [OF b] c have l': "length is = length ps"
    and mono2: "\<And>k j. flat_Lookup t1 k = Some j \<Longrightarrow> flat_Lookup t' k = Some j"
    and hit: "\<And>n. n < length ps \<Longrightarrow> flat_Lookup t' (key32 f32 (ps ! n)) = Some (is ! n)" by auto
  have "flat_Lookup t' (key32 f32 ((p # ps) ! n)) = Some (ids ! n)" if "n < length (p # ps)" for n
  proof (cases n)
    case 0
    then show ?thesis using mono2 [OF l] c by simp
  next
    case (Suc k)
    then show ?thesis using hit [of k] that c by simp
  qed
  moreover have "flat_Lookup t' k = Some j" if "flat_Lookup t k = Some j" for k j
    using mono2 [OF mono1 [OF that]] .
  ultimately show ?case using l' c by simp
qed

lemma AddVertices_map:
  assumes "AddVertices f32 t ps = (ids, t')"
  shows "ids = map (\<lambda>p. the (flat_Lookup t' (key32 f32 p))) ps"
proof -
  from AddVertices_Some [OF assms] have len: "length ids = length ps"
    and hit: "\<And>n. n < length ps \<Longrightarrow> flat_Lookup t' (key32 f32 (ps ! n)) = Some (ids ! n)"
    by auto
  show ?thesis
    by (rule nth_equalityI) (simp_all add: len hit)
qed

lemma AddVertex_length: "AddVertex f32 t p = (i, t1) \<Longrightarrow> length (flat_V t) \<le> length (flat_V t1)"
  by (auto simp: AddVertex_def Let_def split: option.splits if_splits)

lemma AddVertices_length: "AddVertices f32 t ps = (ids, t') \<Longrightarrow> length (flat_V t) \<le> length (flat_V t')"
proof (induction ps arbitrary: t ids t')
  case Nil
  then show ?case by simp
next
  case (Cons p ps)
  obtain i t1 where a: "AddVertex f32 t p = (i, t1)" by (cases "AddVertex f32 t p")
  obtain "is" t2 where b: "AddVertices f32 t1 ps = (is, t2)" by (cases "AddVertices f32 t1 ps")
  from Cons.prems a b have c: "t' = t2" by simp
  from AddVertex_length [OF a] Cons.IH [OF b] c show ?case by simp
qed

lemma AddVertex_inv:
  assumes "AddVertex f32 t p = (i, t1)" "flat_inv f32 t" "length (flat_V t1) < 2 ^ 32"
  shows "flat_inv f32 t1"
proof (cases "flat_Lookup t (key32 f32 p)")
  case (Some j)
  with assms show ?thesis by (simp add: AddVertex_def)
next
  case None
  from assms(2) have len: "length (flat_V t) = unat (vCount t)"
    and inv: "\<And>k i. flat_Lookup t k = Some i \<Longrightarrow>
        unat i < length (flat_V t) \<and> key32 f32 (flat_V t ! unat i) = k"
    unfolding flat_inv_def by auto
  from None len have "AddVertex f32 t p =
      (vCount t, t\<lparr>flat_V := flat_V t @ [p],
         flat_Lookup := (flat_Lookup t)(key32 f32 p \<mapsto> vCount t), vCount := vCount t + 1\<rparr>)"
    by (simp add: AddVertex_def Let_def VertexCount_def)
  with assms(1) have "(i, t1) = (vCount t, t\<lparr>flat_V := flat_V t @ [p],
         flat_Lookup := (flat_Lookup t)(key32 f32 p \<mapsto> vCount t), vCount := vCount t + 1\<rparr>)"
    by (simp only:)
  then have t1: "t1 = t\<lparr>flat_V := flat_V t @ [p],
         flat_Lookup := (flat_Lookup t)(key32 f32 p \<mapsto> vCount t), vCount := vCount t + 1\<rparr>"
    by (simp only: prod.inject)
  with assms(3) len have "unat (vCount t) + 1 < 2 ^ 32" by simp
  then have u: "unat (vCount t + 1) = unat (vCount t) + 1"
    by (simp add: unat_word_ariths)
  have "unat i' < length (flat_V t1) \<and> key32 f32 (flat_V t1 ! unat i') = k"
    if "flat_Lookup t1 k = Some i'" for k i'
  proof (cases "k = key32 f32 p")
    case True
    with that t1 have "i' = vCount t" by simp
    with len [symmetric] True t1 show ?thesis by simp
  next
    case False
    with that t1 have "flat_Lookup t k = Some i'" by simp
    from inv [OF this] t1 show ?thesis by (simp add: nth_append)
  qed
  moreover from t1 u len have "length (flat_V t1) = unat (vCount t1)" by simp
  ultimately show ?thesis unfolding flat_inv_def by blast
qed

lemma AddVertices_inv:
  "AddVertices f32 t ps = (ids, t') \<Longrightarrow> flat_inv f32 t \<Longrightarrow> length (flat_V t') < 2 ^ 32 \<Longrightarrow> flat_inv f32 t'"
proof (induction ps arbitrary: t ids t')
  case Nil
  then show ?case by simp
next
  case (Cons p ps)
  obtain i t1 where a: "AddVertex f32 t p = (i, t1)" by (cases "AddVertex f32 t p")
  obtain "is" t2 where b: "AddVertices f32 t1 ps = (is, t2)" by (cases "AddVertices f32 t1 ps")
  from Cons.prems(1) a b have c: "t' = t2" by simp
  from AddVertices_length [OF b] Cons.prems(3) c have "length (flat_V t1) < 2 ^ 32" by simp
  from AddVertex_inv [OF a Cons.prems(2) this] have "flat_inv f32 t1" .
  from Cons.IH [OF b this] Cons.prems(3) c show ?case by simp
qed

lemma flat_inv_New: "flat_inv f32 NewMeshTet4_flat"
  by (simp add: flat_inv_def NewMeshTet4_flat_def)

lemma AddVertices_exact:
  assumes "AddVertices f32 t ps = (ids, t')" "flat_inv f32 t" "length (flat_V t') < 2 ^ 32"
  shows "same_id_same_key (key32 f32) ps ids"
proof -
  from AddVertices_Some [OF assms(1)] have len: "length ids = length ps"
    and hit: "\<And>n. n < length ps \<Longrightarrow> flat_Lookup t' (key32 f32 (ps ! n)) = Some (ids ! n)"
    by auto
  from AddVertices_inv [OF assms]
  have inv: "\<And>k i. flat_Lookup t' k = Some i \<Longrightarrow> key32 f32 (flat_V t' ! unat i) = k"
    unfolding flat_inv_def by auto
  have "key32 f32 p = key32 f32 q" if "(p, i) \<in> set (zip ps ids)" "(q, i) \<in> set (zip ps ids)" for p q i
  proof -
    from that(1) len obtain n where n: "n < length ps" "ps ! n = p" "ids ! n = i"
      by (auto simp: in_set_zip)
    from that(2) len obtain k where k: "k < length ps" "ps ! k = q" "ids ! k = i"
      by (auto simp: in_set_zip)
    from hit [OF n(1)] n have "flat_Lookup t' (key32 f32 p) = Some i" by simp
    moreover from hit [OF k(1)] k have "flat_Lookup t' (key32 f32 q) = Some i" by simp
    ultimately show ?thesis using inv by metis
  qed
  then show ?thesis unfolding same_id_same_key_def by blast
qed


text \<open>
  Claim C3. For every sequence of points added to the vertex buffer, adding the same
  point twice returns the same id, and the number of distinct ids never exceeds the
  number of distinct points added. The deduplication is by exact key: from a new buffer
  that stays within the range of \<open>uint32\<close>, two points get the same id only if their keys
  are equal (the coordinates themselves for \<open>addVertex\<close>, their \<open>float32\<close> conversions for
  \<open>AddVertex\<close>). On a mesh that is not finalized \<open>addVertex\<close> always returns.
\<close>

theorem vertex_buffer_dedup:
  "(Lookup m \<noteq> None \<longrightarrow>
      (\<exists>ids m'. addVertices m ps = Some (ids, m') \<and> length ids = length ps \<and>
         same_point_same_id ps ids \<and> card (set ids) \<le> card (set ps))) \<and>
   (\<forall>ids m'. addVertices (NewMeshTet4 n) ps = Some (ids, m') \<and> length (V m') \<le> 2 ^ 32 \<longrightarrow>
         same_id_same_key key3 ps ids) \<and>
   (case AddVertices f32 t ps of (ids, t') \<Rightarrow>
         length ids = length ps \<and> same_point_same_id ps ids \<and> card (set ids) \<le> card (set ps)) \<and>
   (case AddVertices f32 NewMeshTet4_flat ps of (ids, t') \<Rightarrow>
         length (flat_V t') < 2 ^ 32 \<longrightarrow> same_id_same_key (key32 f32) ps ids)"
proof (intro conjI impI allI)
  assume "Lookup m \<noteq> None"
  then obtain lk where lk: "Lookup m = Some lk" by blast
  from addVertices_total [OF \<open>Lookup m \<noteq> None\<close>] obtain ids m' where
    a: "addVertices m ps = Some (ids, m')" by blast
  from addVertices_map [OF a lk] obtain lk' where
    ids: "ids = map (\<lambda>p. the (lk' (key3 p))) ps" by blast
  have "length ids = length ps" "same_point_same_id ps ids" "card (set ids) \<le> card (set ps)"
    unfolding ids by (simp_all add: map_same_point_same_id card_image_le)
  with a show "\<exists>ids m'. addVertices m ps = Some (ids, m') \<and> length ids = length ps \<and>
         same_point_same_id ps ids \<and> card (set ids) \<le> card (set ps)" by blast
next
  fix ids m'
  assume "addVertices (NewMeshTet4 n) ps = Some (ids, m') \<and> length (V m') \<le> 2 ^ 32"
  then show "same_id_same_key key3 ps ids"
    using addVertices_exact [OF _ lookup_inv_New] by blast
next
  obtain ids t' where a: "AddVertices f32 t ps = (ids, t')" by (cases "AddVertices f32 t ps")
  have "length ids = length ps" "same_point_same_id ps ids" "card (set ids) \<le> card (set ps)"
    unfolding AddVertices_map [OF a] by (simp_all add: map_same_point_same_id card_image_le)
  with a show "case AddVertices f32 t ps of (ids, t') \<Rightarrow>
         length ids = length ps \<and> same_point_same_id ps ids \<and> card (set ids) \<le> card (set ps)"
    by simp
next
  obtain ids t' where a: "AddVertices f32 NewMeshTet4_flat ps = (ids, t')"
    by (cases "AddVertices f32 NewMeshTet4_flat ps")
  from AddVertices_exact [OF a flat_inv_New]
  show "case AddVertices f32 NewMeshTet4_flat ps of (ids, t') \<Rightarrow>
         length (flat_V t') < 2 ^ 32 \<longrightarrow> same_id_same_key (key32 f32) ps ids"
    unfolding a by simp
qed

theorem vertex_buffer_dedup_witness:
  "(\<exists>m'. addVertices (NewMeshTet4 1) [dedup_p, dedup_q, dedup_p] = Some ([0, 1, 0], m')) \<and>
   same_point_same_id [dedup_p, dedup_q, dedup_p] [0, 1, 0] \<and>
   card (set [0, 1, 0 :: u32]) \<le> card (set [dedup_p, dedup_q, dedup_p]) \<and>
   same_id_same_key key3 [dedup_p, dedup_q, dedup_p] [0, 1, 0] \<and>
   fst (AddVertices (\<lambda>x. x) NewMeshTet4_flat [dedup_p, dedup_q, dedup_p]) = [0, 1, 0] \<and>
   same_id_same_key (key32 (\<lambda>x. x)) [dedup_p, dedup_q, dedup_p] [0, 1, 0]"
proof -
  have e1: "\<exists>m'. addVertices (NewMeshTet4 1) [dedup_p, dedup_q, dedup_p] = Some ([0, 1, 0], m') \<and> length (V m') = 2"
    by (simp add: addVertex_def NewMeshTet4_def key3_def dedup_p_def dedup_q_def vertexCount_def Let_def)
  have e2: "\<exists>t'. AddVertices (\<lambda>x. x) NewMeshTet4_flat [dedup_p, dedup_q, dedup_p] = ([0, 1, 0], t') \<and> length (flat_V t') = 2"
    by (simp add: AddVertex_def NewMeshTet4_flat_def key32_def dedup_p_def dedup_q_def VertexCount_def Let_def)
  have l: "Lookup (NewMeshTet4 1) \<noteq> None" by (simp add: NewMeshTet4_def)
  from e1 obtain m' where m': "addVertices (NewMeshTet4 1) [dedup_p, dedup_q, dedup_p] = Some ([0, 1, 0], m')"
    "length (V m') = 2" by blast
  from e2 obtain t' where t': "AddVertices (\<lambda>x. x) NewMeshTet4_flat [dedup_p, dedup_q, dedup_p] = ([0, 1, 0], t')"
    "length (flat_V t') = 2" by blast
  note inst = vertex_buffer_dedup [of "NewMeshTet4 1" "[dedup_p, dedup_q, dedup_p]" 1 "\<lambda>x. x" NewMeshTet4_flat]
  from inst l m' have "same_point_same_id [dedup_p, dedup_q, dedup_p] [0, 1, 0]"
    "card (set [0, 1, 0 :: u32]) \<le> card (set [dedup_p, dedup_q, dedup_p])" by auto
  moreover from inst m' have "same_id_same_key key3 [dedup_p, dedup_q, dedup_p] [0, 1, 0]" by auto
  moreover from inst t' have "same_id_same_key (key32 (\<lambda>x. x)) [dedup_p, dedup_q, dedup_p] [0, 1, 0]" by auto
  ultimately show ?thesis using m' t' by auto
qed

section \<open>Properties of the quality checks and of the edge interpolation\<close>

subsection \<open>Rounding to binary64\<close>



















subsection \<open>The quality checks\<close>

lemma triple_Dot_Cross: "Dot (Cross (Sub b a) (Sub c a)) (Sub d a) = triple a b c d"
  by (simp add: Dot_def Cross_def Sub_def triple_def algebra_simps)

lemma Length_Sub: "Length (Sub q p) = spec_edge p q"
  by (simp add: Length_def Dot_def Sub_def spec_edge_def power2_eq_square)

lemma spec_edge_eq_0: "spec_edge p q = 0 \<longleftrightarrow> p = q"
proof -
  have "spec_edge p q = 0 \<longleftrightarrow> (X q - X p)\<^sup>2 + (Y q - Y p)\<^sup>2 + (Z q - Z p)\<^sup>2 = 0"
    by (simp add: spec_edge_def)
  also have "\<dots> \<longleftrightarrow> X q = X p \<and> Y q = Y p \<and> Z q = Z p"
    by (simp add: sum_power2_eq_zero_iff add_nonneg_eq_0_iff)
  also have "\<dots> \<longleftrightarrow> p = q"
    by (cases p, cases q) auto
  finally show ?thesis .
qed


lemma triple_coincide:
  "a = b \<or> a = c \<or> a = d \<or> b = c \<or> b = d \<or> c = d \<Longrightarrow> triple a b c d = 0"
  by (auto simp: triple_def algebra_simps)

lemma isZeroVolume_spec:
  "isZeroVolume a b c d =
     (spec_degenerate a b c d,
      if a = b \<or> a = c \<or> a = d \<or> b = c \<or> b = d \<or> c = d then 0 else spec_volume a b c d)"
  by (simp add: isZeroVolume_def Let_def Length_Sub triple_Dot_Cross spec_degenerate_def
      spec_volume_def spec_edge_eq_0)

text \<open>
  Claim C7. For every tetrahedron candidate \<open>a, b, c, d\<close> the quality gate
  \<open>isZeroVolume\<close> flags it exactly when one of the six edge lengths is zero, or when
  \<open>480 * V / ((|ab| + |cd|) * (|ac| + |bd|) * (|ad| + |bc|)) < 1\<close>, where
  \<open>V = |(ab \<times> ac) \<sqdot> ad| / 6\<close> is the volume from the scalar triple product of the edge
  vectors taken from \<open>a\<close>. (Arithmetic is exact real arithmetic.)
\<close>

theorem isZeroVolume_flags_iff:
  "fst (isZeroVolume a b c d) \<longleftrightarrow>
     (spec_edge a b = 0 \<or> spec_edge a c = 0 \<or> spec_edge a d = 0 \<or>
      spec_edge b c = 0 \<or> spec_edge b d = 0 \<or> spec_edge c d = 0) \<or>
     480 * (\<bar>Dot (Cross (Sub b a) (Sub c a)) (Sub d a)\<bar> / 6) /
       ((spec_edge a b + spec_edge c d) * (spec_edge a c + spec_edge b d) *
        (spec_edge a d + spec_edge b c)) < 1"
  by (simp add: isZeroVolume_spec spec_degenerate_def spec_volume_def triple_Dot_Cross)


lemma sliver_long_edges: "1 \<le> spec_edge sliver_b sliver_d" "1 \<le> spec_edge sliver_c sliver_d"
  unfolding spec_edge_def
  by (rule real_le_rsqrt, simp add: sliver_b_def sliver_c_def sliver_d_def)+

















lemma spec_lerp_half: "spec_lerp p1 p2 0.5 = spec_midpoint p1 p2"
  by (simp add: spec_lerp_def spec_midpoint_def field_simps)

text \<open>
  Claim C6. For an edge with endpoint positions \<open>p1, p2\<close>, endpoint samples \<open>v1, v2\<close> and
  isovalue \<open>x\<close>: if \<open>|x - v1|\<close> and \<open>|x - v2|\<close> are both within tolerance the result is the
  midpoint (\<open>t = 0.5\<close>); if only one side is within tolerance the result is that endpoint;
  otherwise it is \<open>p1 + t * (p2 - p1)\<close> with \<open>t = (x - v1) / (v2 - v1)\<close>. Within tolerance
  means \<open>< epsilon\<close>. In the last case the model is the Go code where \<open>v1 \<noteq> v2\<close> (the
  division is then defined).
\<close>

theorem mcInterpolate_cases:
  "(\<bar>x - v1\<bar> < epsilon \<and> \<bar>x - v2\<bar> < epsilon \<longrightarrow>
      mcInterpolate epsilon p1 p2 v1 v2 x = spec_lerp p1 p2 0.5 \<and>
      mcInterpolate epsilon p1 p2 v1 v2 x = spec_midpoint p1 p2) \<and>
   (\<bar>x - v1\<bar> < epsilon \<and> \<not> \<bar>x - v2\<bar> < epsilon \<longrightarrow>
      mcInterpolate epsilon p1 p2 v1 v2 x = p1) \<and>
   (\<not> \<bar>x - v1\<bar> < epsilon \<and> \<bar>x - v2\<bar> < epsilon \<longrightarrow>
      mcInterpolate epsilon p1 p2 v1 v2 x = p2) \<and>
   (\<not> \<bar>x - v1\<bar> < epsilon \<and> \<not> \<bar>x - v2\<bar> < epsilon \<and> v1 \<noteq> v2 \<longrightarrow>
      mcInterpolate epsilon p1 p2 v1 v2 x = spec_lerp p1 p2 ((x - v1) / (v2 - v1)))"
  by (simp add: mcInterpolate_def Let_def spec_lerp_def spec_lerp_half [symmetric])

theorem mcInterpolate_cases_witness:
  "mcInterpolate (1 / 1000) edge_p1 edge_p2 0 0 0 = \<lparr>X = 1 / 2, Y = 1, Z = 2\<rparr> \<and>
   mcInterpolate (1 / 1000) edge_p1 edge_p2 0 1 0 = edge_p1 \<and>
   mcInterpolate (1 / 1000) edge_p1 edge_p2 (- 1) 0 0 = edge_p2 \<and>
   mcInterpolate (1 / 1000) edge_p1 edge_p2 (- 1) 3 0 = \<lparr>X = 1 / 4, Y = 1 / 2, Z = 1\<rparr>"
proof -
  have "mcInterpolate (1 / 1000) edge_p1 edge_p2 0 0 0 = spec_midpoint edge_p1 edge_p2"
    using mcInterpolate_cases [of 0 0 "1 / 1000" 0 edge_p1 edge_p2] by auto
  moreover have "mcInterpolate (1 / 1000) edge_p1 edge_p2 0 1 0 = edge_p1"
    using mcInterpolate_cases [of 0 0 "1 / 1000" 1 edge_p1 edge_p2] by simp
  moreover have "mcInterpolate (1 / 1000) edge_p1 edge_p2 (- 1) 0 0 = edge_p2"
    using mcInterpolate_cases [of 0 "- 1" "1 / 1000" 0 edge_p1 edge_p2] by simp
  moreover have "mcInterpolate (1 / 1000) edge_p1 edge_p2 (- 1) 3 0 =
      spec_lerp edge_p1 edge_p2 ((0 - (- 1)) / (3 - (- 1)))"
    using mcInterpolate_cases [of 0 "- 1" "1 / 1000" 3 edge_p1 edge_p2] by simp
  ultimately show ?thesis
    by (simp add: spec_lerp_def spec_midpoint_def edge_p1_def edge_p2_def)
qed

section \<open>Properties of the exporter\<close>

subsection \<open>Sequencing\<close>

lemma steps_Nil [simp]: "steps [] s = Done () s"
  by (simp add: steps_def)

lemma steps_Cons [simp]: "steps (f # fs) s = and_then (f s) (\<lambda>_ s'. steps fs s')"
  by (simp add: steps_def)

lemma for_each_append:
  "for_each f (xs @ ys) s = and_then (for_each f xs s) (\<lambda>_ s'. for_each f ys s')"
proof (induction xs arbitrary: s)
  case Nil
  show ?case by simp
next
  case (Cons x xs)
  show ?case
  proof (cases "f x s")
    case (Done v s')
    then show ?thesis by (simp add: Cons.IH)
  next
    case (Fail e s')
    then show ?thesis by simp
  qed
qed

lemma and_then_Done_iff:
  "and_then r f = Done v s \<longleftrightarrow> (\<exists>u t. r = Done u t \<and> f u t = Done v s)"
  by (cases r) auto

lemma succeeded_Done: "succeeded r \<Longrightarrow> r = Done () (final_state r)"
  by (cases r) (simp_all add: succeeded_def final_state_def)

subsection \<open>Unfolding a run on the examples\<close>

lemmas ex_defs = ex_inp_def ex_mesh_def ex_world_def ex_tet_def ex_unknown_def ex_points_def
  ex_free_def ex_fixed_def NewInp_def NewVB_def zeroVec_def

lemmas io_defs = Create_def write_or_return_def write_or_panic_def os_Create_def WriteString_def
  Println_def

lemmas mesh_defs = iterate_def elementIds_def vertex_def Vertex_def VB_Id_def key3_def in_layers_def
  Get_def VoxelsIntersecting_def Size_def IB_Size_def


subsection \<open>The layer range\<close>

lemma layer_range_ok_iff:
  "layer_range_ok inp \<longleftrightarrow>
     0 \<le> LayerStart inp \<and> LayerStart inp < LayerEnd inp \<and>
     LayerEnd inp \<le> Zi (Len (Grid (IBuff (Mesh inp))))"
  by (simp add: layer_range_ok_def Size_def IB_Size_def)

lemma writeHeader_Fail:
  assumes "layer_range_ok (fst st)" "writeHeader st = Fail e st'"
  shows "e = IOError (Path (fst st))"
  using assms
  by (auto simp: writeHeader_def write_or_return_def split: option.splits)

text \<open>
  Claim C8 as stated fails for \<open>Inp.Write\<close>, which creates the master file before
  \<open>writeHeader\<close> checks the range. With the empty range \<open>[0, 0)\<close> and a master path that
  cannot be created, the export returns the I/O error of \<open>os.Create\<close>, not a configuration
  error; and where the master file exists, the export that returns the configuration
  error has emptied it first.
\<close>

theorem layer_range_io_error_first:
  "failure (Write (ex_inp_empty_range, ex_world_locked)) = Some (IOError ''m'') \<and>
   failure (Write (ex_inp_empty_range, ex_world_old)) =
     Some (ConfigError ''start or end layer is beyond range'') \<and>
   files ex_world_old ''m'' = Some ''old'' \<and>
   files (snd (final_state (Write (ex_inp_empty_range, ex_world_old)))) ''m'' = Some []"
  by (simp add: failure_def final_state_def Write_def Create_def os_Create_def writeHeader_def
      layer_range_ok_def Size_def IB_Size_def ex_inp_empty_range_def ex_world_locked_def
      ex_world_old_def ex_defs)

text \<open>
  Claim C8, amended. For every export request the layer range must satisfy
  \<open>0 \<le> layerStart < layerEnd \<le> total layer count\<close>. Otherwise \<open>Inp.Write\<close> first creates
  the master file, returning the I/O error if it cannot, and then returns the
  configuration error with the master file left empty and nothing written to any other
  file, so that no element is produced; \<open>MeshHex8.WriteInpLayers\<close> returns the
  configuration error before touching any file. For a valid range \<open>writeHeader\<close> reports
  no configuration error. The empty range \<open>[0, 0)\<close> is an instance.
\<close>

theorem layer_range_checked:
  "(\<not> (0 \<le> LayerStart inp \<and> LayerStart inp < LayerEnd inp \<and>
        LayerEnd inp \<le> Zi (Len (Grid (IBuff (Mesh inp))))) \<longrightarrow>
      Write (inp, w) =
        (if create_fails w (Path inp) then Fail (IOError (Path inp)) (inp, w)
         else Fail (ConfigError ''start or end layer is beyond range'')
                (inp, w\<lparr>files := (files w)(Path inp \<mapsto> [])\<rparr>))) \<and>
   (0 \<le> LayerStart inp \<and> LayerStart inp < LayerEnd inp \<and>
        LayerEnd inp \<le> Zi (Len (Grid (IBuff (Mesh inp)))) \<longrightarrow>
      (\<forall>e st'. writeHeader (inp, w) = Fail e st' \<longrightarrow> e = IOError (Path inp))) \<and>
   (\<not> (0 \<le> layerStart \<and> layerStart < layerEnd \<and> layerEnd \<le> layerCount m) \<longrightarrow>
      WriteInpLayers m path layerStart layerEnd w =
        Fail (ConfigError ''start or end layer is beyond range'') w)"
proof (intro conjI impI allI)
  assume "\<not> (0 \<le> LayerStart inp \<and> LayerStart inp < LayerEnd inp \<and>
        LayerEnd inp \<le> Zi (Len (Grid (IBuff (Mesh inp)))))"
  then have bad: "\<not> layer_range_ok inp" by (simp add: layer_range_ok_iff)
  then show "Write (inp, w) =
        (if create_fails w (Path inp) then Fail (IOError (Path inp)) (inp, w)
         else Fail (ConfigError ''start or end layer is beyond range'')
                (inp, w\<lparr>files := (files w)(Path inp \<mapsto> [])\<rparr>))"
    by (simp add: Write_def Create_def os_Create_def writeHeader_def)
next
  fix e st'
  assume "0 \<le> LayerStart inp \<and> LayerStart inp < LayerEnd inp \<and>
        LayerEnd inp \<le> Zi (Len (Grid (IBuff (Mesh inp))))"
    and "writeHeader (inp, w) = Fail e st'"
  then show "e = IOError (Path inp)"
    using writeHeader_Fail [of "(inp, w)" e st'] by (simp add: layer_range_ok_iff)
next
  assume "\<not> (0 \<le> layerStart \<and> layerStart < layerEnd \<and> layerEnd \<le> layerCount m)"
  then show "WriteInpLayers m path layerStart layerEnd w =
        Fail (ConfigError ''start or end layer is beyond range'') w"
    unfolding WriteInpLayers_def by (rule if_not_P)
qed

theorem layer_range_checked_witness:
  "Write ((ex_inp [ex_tet] [ex_fixed])\<lparr>LayerStart := 0, LayerEnd := 0\<rparr>, ex_world) =
     Fail (ConfigError ''start or end layer is beyond range'')
       ((ex_inp [ex_tet] [ex_fixed])\<lparr>LayerStart := 0, LayerEnd := 0\<rparr>,
        ex_world\<lparr>files := (files ex_world)(''m'' \<mapsto> [])\<rparr>) \<and>
   files (ex_world\<lparr>files := (files ex_world)(''m'' \<mapsto> [])\<rparr>) ''m.elements_C3D4'' = None \<and>
   WriteInpLayers ex_hex8 ''m'' 0 0 ex_world =
     Fail (ConfigError ''start or end layer is beyond range'') ex_world"
  using layer_range_checked [of "(ex_inp [ex_tet] [ex_fixed])\<lparr>LayerStart := 0, LayerEnd := 0\<rparr>"
      ex_world 0 0 ex_hex8 "''m''"]
  by (simp add: ex_inp_def NewInp_def ex_world_def)

lemmas writer_defs = Write_def Write_body_def writeHeader_def layer_range_ok_def writeNodes_def
  writeNodes_process_def writeNodes_element_def writeNode_def node_record_def
  writeElements_def writeElements_process_def writeElement_def write_record_def
  element_args_def element_record_def writeBoundary_def writeRestraint_def collectNodeSet_def
  writeNodeSet_def nodeSet_entry_def fixed_dofs_def resolveVoxels_def deferred_def
  DestroyHashTable_def enumerate_eq_zip

subsection \<open>What the stages leave unchanged\<close>

lemma keepsI: "(\<And>s v s'. P s \<Longrightarrow> f s = Done v s' \<Longrightarrow> P s') \<Longrightarrow> keeps P f"
  unfolding keeps_def by blast

lemma keepsD: "keeps P f \<Longrightarrow> P s \<Longrightarrow> f s = Done v s' \<Longrightarrow> P s'"
  unfolding keeps_def by blast

lemma keeps_for_each:
  assumes "\<And>x. x \<in> set xs \<Longrightarrow> keeps P (f x)"
  shows "keeps P (for_each f xs)"
  using assms
proof (induction xs)
  case Nil
  show ?case by (rule keepsI) simp
next
  case (Cons x xs)
  have kx: "keeps P (f x)" by (rule Cons.prems) simp
  have kxs: "keeps P (for_each f xs)" by (rule Cons.IH) (simp add: Cons.prems)
  show ?case
  proof (rule keepsI)
    fix s v s'
    assume P: "P s" and d: "for_each f (x # xs) s = Done v s'"
    then obtain u s1 where 1: "f x s = Done u s1" and 2: "for_each f xs s1 = Done v s'"
      by (cases "f x s") simp_all
    from keepsD [OF kx P 1] have "P s1" .
    from keepsD [OF kxs this 2] show "P s'" .
  qed
qed

lemma keeps_steps:
  assumes "\<And>s f. f \<in> set (fs s) \<Longrightarrow> keeps P f"
  shows "keeps P (\<lambda>s. steps (fs s) s)"
proof (rule keepsI)
  fix s v s'
  assume P: "P s" and d: "steps (fs s) s = Done v s'"
  have "keeps P (for_each (\<lambda>f. f) (fs s))" by (rule keeps_for_each) (rule assms)
  from keepsD [OF this P] d show "P s'" by (simp add: steps_def)
qed

lemma keeps_and_then:
  assumes "keeps P f" "\<And>v. keeps P (g v)"
  shows "keeps P (\<lambda>s. and_then (f s) g)"
proof (rule keepsI)
  fix s v s'
  assume P: "P s" and d: "and_then (f s) g = Done v s'"
  then obtain u s1 where 1: "f s = Done u s1" and 2: "g u s1 = Done v s'"
    by (cases "f s") simp_all
  from keepsD [OF assms(1) P 1] have "P s1" .
  from keepsD [OF assms(2) this 2] show "P s'" .
qed

lemma stable_TempVBuff: "stable q \<Longrightarrow> q (i\<lparr>TempVBuff := tb\<rparr>) = q i"
  and stable_eleID: "stable q \<Longrightarrow> q (i\<lparr>eleID := e\<rparr>) = q i"
  and stable_nextNode: "stable q \<Longrightarrow> q (i\<lparr>nextNode := n\<rparr>) = q i"
  unfolding stable_def by blast+

lemmas stable_simps = stable_TempVBuff stable_eleID stable_nextNode

lemma keeps_Create: "keeps (holds q c) (Create p)"
  by (rule keepsI) (auto simp: Create_def holds_def split: option.splits)

lemma keeps_write_or_return: "keeps (holds q c) (write_or_return p t)"
  by (rule keepsI) (auto simp: write_or_return_def holds_def split: option.splits)

lemma keeps_write_or_panic: "keeps (holds q c) (write_or_panic msg p t)"
  by (rule keepsI) (auto simp: write_or_panic_def holds_def split: option.splits)

lemma keeps_elementIds: "stable q \<Longrightarrow> keeps (holds q c) (elementIds el)"
  by (rule keepsI)
     (auto simp: elementIds_def holds_def stable_simps split: option.splits prod.splits)

lemma keeps_writeNode: "stable q \<Longrightarrow> keeps (holds q c) (writeNode vi)"
  by (rule keepsI)
     (auto simp: writeNode_def write_or_panic_def holds_def stable_simps
           split: option.splits prod.splits if_splits)


lemma keeps_Done: "(\<And>s. P s \<Longrightarrow> P (g s)) \<Longrightarrow> keeps P (\<lambda>s. Done v (g s))"
  by (rule keepsI) auto

lemma keeps_iterate:
  assumes "\<And>x y z els. keeps P (f x y z els)"
  shows "keeps P (iterate f)"
proof (rule keepsI)
  fix s v s'
  assume P: "P s" and d: "iterate f s = Done v s'"
  have "keeps P (for_each (\<lambda>(x, y, z). f x y z (Voxel (Grid (IBuff (Mesh (fst s)))) x y z))
      (Order (IBuff (Mesh (fst s)))))"
    by (rule keeps_for_each) (auto intro: assms)
  from keepsD [OF this P] d show "P s'" by (simp add: iterate_def)
qed

lemma keeps_writeNodes_element: "stable q \<Longrightarrow> keeps (holds q c) (writeNodes_element el)"
  unfolding writeNodes_element_def [abs_def]
  by (intro keeps_and_then keeps_elementIds keeps_for_each keeps_writeNode)

lemma keeps_writeNodes_process: "stable q \<Longrightarrow> keeps (holds q c) (writeNodes_process x y z els)"
proof (rule keepsI)
  fix s v s'
  assume st: "stable q" and P: "holds q c s" and d: "writeNodes_process x y z els s = Done v s'"
  have k: "keeps (holds q c) (for_each writeNodes_element els)"
    by (intro keeps_for_each keeps_writeNodes_element st)
  show "holds q c s'"
  proof (cases "in_layers (fst s) z")
    case True
    with d have "for_each writeNodes_element els s = Done v s'" by (simp add: writeNodes_process_def)
    from keepsD [OF k P this] show ?thesis .
  next
    case False
    with d P show ?thesis by (simp add: writeNodes_process_def)
  qed
qed

lemma keeps_set_nextNode:
  "stable q \<Longrightarrow> keeps (holds q c) (\<lambda>st'. Done () ((fst st')\<lparr>nextNode := n\<rparr>, snd st'))"
  by (rule keepsI) (auto simp: holds_def stable_simps)

lemma keeps_writeNodes: "stable q \<Longrightarrow> keeps (holds q c) writeNodes"
  unfolding writeNodes_def [abs_def]
  by (rule keeps_steps)
     (auto intro: keeps_Create keeps_write_or_return keeps_set_nextNode keeps_iterate
        keeps_writeNodes_process)

lemma keeps_writeHeader: "keeps (holds q c) writeHeader"
proof (rule keepsI)
  fix s v s'
  assume P: "holds q c s" and d: "writeHeader s = Done v s'"
  have k: "keeps (holds q c) (\<lambda>s. steps
          [write_or_return (Path (fst s))
             ''**\<newline>** Structure: finite elements of a 3D model.\<newline>** Generated by: https://github.com/deadsy/sdfx\<newline>**\<newline>'',
           write_or_return (Path (fst s))
             (''*HEADING\<newline>Model: 3D model Date: '' @ now (snd s) @ ''\<newline>'')] s)"
    by (rule keeps_steps) (auto intro: keeps_write_or_return)
  from d have "layer_range_ok (fst s)" by (auto simp: writeHeader_def split: if_splits)
  with d keepsD [OF k P] show "holds q c s'" by (simp add: writeHeader_def)
qed

lemma keeps_write_record: "keeps (holds q c) (write_record p t n ids)"
  by (rule keepsI)
     (auto simp: write_record_def write_or_panic_def holds_def split: option.splits)

lemma keeps_writeElement: "stable q \<Longrightarrow> keeps (holds q c) (writeElement el)"
proof (rule keepsI)
  fix s v s'
  assume st: "stable q" and P: "holds q c s" and d: "writeElement el s = Done v s'"
  from d obtain vis s1 where 1: "elementIds el s = Done vis s1"
    by (cases "elementIds el s") (simp_all add: writeElement_def)
  from keepsD [OF keeps_elementIds [OF st] P 1] have P1: "holds q c s1" .
  from d 1 obtain u s2 where 3: "s' = ((fst s2)\<lparr>eleID := eleID (fst s2) + 1\<rparr>, snd s2)"
    and 2: "fst s2 = fst s1"
    by (cases "Type el")
       (auto simp: writeElement_def write_record_def write_or_panic_def and_then_Done_iff
             split: option.splits)
  from P1 2 3 st show "holds q c s'" by (simp add: holds_def stable_simps)
qed

lemma keeps_writeElements_process:
  "stable q \<Longrightarrow> keeps (holds q c) (writeElements_process x y z els)"
proof (rule keepsI)
  fix s v s'
  assume st: "stable q" and P: "holds q c s" and d: "writeElements_process x y z els s = Done v s'"
  have k: "keeps (holds q c) (for_each writeElement els)"
    by (intro keeps_for_each keeps_writeElement st)
  show "holds q c s'"
  proof (cases "in_layers (fst s) z")
    case True
    with d have "for_each writeElement els s = Done v s'" by (simp add: writeElements_process_def)
    from keepsD [OF k P this] show ?thesis .
  next
    case False
    with d P show ?thesis by (simp add: writeElements_process_def)
  qed
qed

lemma keeps_writeElements: "stable q \<Longrightarrow> keeps (holds q c) writeElements"
  unfolding writeElements_def [abs_def]
  by (rule keeps_steps)
     (auto intro: keeps_Create keeps_write_or_return keeps_iterate keeps_writeElements_process)


subsection \<open>Restraints without a fixed degree of freedom\<close>

lemma steps_Done_reaches:
  assumes "steps (pre @ f # post) s = Done v s'" "\<And>g. g \<in> set pre \<Longrightarrow> keeps P g" "P s"
  shows "\<exists>s1 u s2. P s1 \<and> f s1 = Done u s2"
  using assms
proof (induction pre arbitrary: s)
  case Nil
  then show ?case by (cases "f s") auto
next
  case (Cons g pre)
  from Cons.prems(1) obtain s1 where 1: "g s = Done () s1" and 2: "steps (pre @ f # post) s1 = Done v s'"
    by (cases "g s") simp_all
  have "keeps P g" by (rule Cons.prems(2)) simp
  from keepsD [OF this Cons.prems(3) 1] have "P s1" .
  with Cons.IH [OF 2] Cons.prems(2) show ?case by simp
qed

lemma all_free_resolveVoxels: "all_free (resolveVoxels m r) = all_free r"
  by (simp add: all_free_def resolveVoxels_def)

lemma writeRestraint_all_free:
  "all_free r \<Longrightarrow>
   writeRestraint (i, r) st = Fail (ConfigError ''restraint has no fixed degree of freedom'') st"
  by (simp add: writeRestraint_def all_free_def)

lemma restraints_until_all_free:
  assumes "all_free r"
  shows "for_each writeRestraint (enumerate n (pre @ r # post)) st =
         and_then (for_each writeRestraint (enumerate n pre) st)
           (\<lambda>_ st'. Fail (ConfigError ''restraint has no fixed degree of freedom'') st')"
proof -
  have "enumerate n (pre @ r # post) =
        enumerate n pre @ (n + length pre, r) # enumerate (Suc (n + length pre)) post"
    by (simp add: enumerate_append_eq)
  then show ?thesis
    by (simp only: for_each_append for_each.simps writeRestraint_all_free [OF assms] and_then.simps)
qed

lemma writeBoundary_until_all_free:
  assumes "Restraints inp = pre @ r # post" "all_free r"
  shows "writeBoundary (inp, w) =
     and_then (Create (PathBou inp) (inp, w)) (\<lambda>_ st1.
       and_then
         (for_each writeRestraint (enumerate 0 (map (resolveVoxels (Mesh inp)) pre))
            (inp\<lparr>Restraints := map (resolveVoxels (Mesh inp)) (Restraints inp)\<rparr>, snd st1))
         (\<lambda>_ st2. Fail (ConfigError ''restraint has no fixed degree of freedom'') st2))"
proof (cases "create_fails w (PathBou inp)")
  case True
  then show ?thesis by (simp add: writeBoundary_def Create_def os_Create_def)
next
  case False
  have m: "map (resolveVoxels (Mesh inp)) (Restraints inp) =
        map (resolveVoxels (Mesh inp)) pre @ resolveVoxels (Mesh inp) r #
        map (resolveVoxels (Mesh inp)) post"
    by (simp add: assms(1))
  have a: "all_free (resolveVoxels (Mesh inp) r)" by (simp add: all_free_resolveVoxels assms(2))
  show ?thesis
    using False
    by (simp add: writeBoundary_def Create_def os_Create_def Let_def)
       (simp only: m restraints_until_all_free [OF a])
qed

lemma writeBoundary_not_Done:
  assumes "r \<in> set (Restraints (fst st))" "all_free r"
  shows "writeBoundary st \<noteq> Done v st'"
proof -
  from assms(1) obtain pre post where sp: "Restraints (fst st) = pre @ r # post"
    by (auto dest: split_list)
  have "writeBoundary (fst st, snd st) \<noteq> Done v st'"
    by (simp only: writeBoundary_until_all_free [OF sp assms(2)])
       (auto simp: and_then_Done_iff)
  then show ?thesis by simp
qed

lemma stable_Restraints: "stable Restraints"
  by (simp add: stable_def)

lemma deferred_Done: "deferred g r = Done v st \<Longrightarrow> \<exists>st1. r = Done v st1"
  by (cases r) (simp_all add: deferred_def)

lemma Write_not_Done:
  assumes "r \<in> set (Restraints inp)" "all_free r"
  shows "Write (inp, w) \<noteq> Done v st'"
proof
  let ?P = "holds Restraints (Restraints inp)"
  assume "Write (inp, w) = Done v st'"
  then obtain st1 st2 st3 where 1: "Create (Path inp) (inp, w) = Done () st1"
    and 2: "writeHeader st1 = Done () st2"
    and 3: "write_or_return (Path (fst st2)) (''*INCLUDE,INPUT='' @ PathNodes (fst st2) @ ''\<newline>'') st2
              = Done () st3"
    and 4: "deferred (\<lambda>inp. inp\<lparr>TempVBuff := DestroyHashTable (TempVBuff inp)\<rparr>) (Write_body st3)
              = Done v st'"
    by (auto simp: Write_def and_then_Done_iff)
  have P0: "?P (inp, w)" by (simp add: holds_def)
  from keepsD [OF keeps_Create P0 1] have P1: "?P st1" .
  from keepsD [OF keeps_writeHeader P1 2] have P2: "?P st2" .
  from keepsD [OF keeps_write_or_return P2 3] have P3: "?P st3" .
  from deferred_Done [OF 4] obtain st4 where 5: "Write_body st3 = Done v st4" by blast
  let ?pre = "[writeNodes,
        write_or_return (Path (fst st3)) (''*INCLUDE,INPUT='' @ PathElsC3D4 (fst st3) @ ''\<newline>''),
        write_or_return (Path (fst st3)) (''*INCLUDE,INPUT='' @ PathElsC3D10 (fst st3) @ ''\<newline>''),
        write_or_return (Path (fst st3)) (''*INCLUDE,INPUT='' @ PathElsC3D8 (fst st3) @ ''\<newline>''),
        write_or_return (Path (fst st3)) (''*INCLUDE,INPUT='' @ PathElsC3D20R (fst st3) @ ''\<newline>''),
        writeElements,
        write_or_return (Path (fst st3)) (''*INCLUDE,INPUT='' @ PathBou (fst st3) @ ''\<newline>'')]"
  from 5 have 6: "steps (?pre @ writeBoundary # [writeFooter]) st3 = Done v st4"
    by (simp only: Write_body_def append.simps)
  have k: "\<And>g. g \<in> set ?pre \<Longrightarrow> keeps ?P g"
    by (auto intro: keeps_writeNodes keeps_writeElements keeps_write_or_return stable_Restraints)
  from steps_Done_reaches [OF 6 k P3]
  obtain s1 u s2 where "?P s1" "writeBoundary s1 = Done u s2" by blast
  with writeBoundary_not_Done [of r s1 u s2] assms show False by (simp add: holds_def)
qed

lemma Create_fst: "Create p st = Done u st' \<Longrightarrow> fst st' = fst st"
  by (auto simp: Create_def split: option.splits)

lemma write_or_return_fst: "write_or_return p t st = Done u st' \<Longrightarrow> fst st' = fst st"
  by (auto simp: write_or_return_def split: option.splits)

lemma writeHeader_fst: "writeHeader st = Done u st' \<Longrightarrow> fst st' = fst st"
  using keepsD [OF keeps_writeHeader, of "\<lambda>i. i" "fst st" st u st']
  by (simp add: holds_def)

lemma stable_boundary_setup: "stable (\<lambda>i. (PathBou i, Restraints i, Mesh i))"
  by (simp add: stable_def)

lemma Write_config_error:
  assumes r: "Restraints inp = pre @ r # post" "all_free r"
    and 1: "Create (Path inp) (inp, w) = Done () st1"
    and 2: "writeHeader st1 = Done () st2"
    and 3: "write_or_return (Path inp) (''*INCLUDE,INPUT='' @ PathNodes inp @ ''\<newline>'') st2 =
            Done () st3"
    and 4: "writeNodes st3 = Done () st4"
    and 5: "steps
          [write_or_return (Path inp) (''*INCLUDE,INPUT='' @ PathElsC3D4 inp @ ''\<newline>''),
           write_or_return (Path inp) (''*INCLUDE,INPUT='' @ PathElsC3D10 inp @ ''\<newline>''),
           write_or_return (Path inp) (''*INCLUDE,INPUT='' @ PathElsC3D8 inp @ ''\<newline>''),
           write_or_return (Path inp) (''*INCLUDE,INPUT='' @ PathElsC3D20R inp @ ''\<newline>'')]
          st4 = Done () st5"
    and 6: "writeElements st5 = Done () st6"
    and 7: "write_or_return (Path inp) (''*INCLUDE,INPUT='' @ PathBou inp @ ''\<newline>'') st6 =
            Done () st7"
    and 8: "Create (PathBou inp) st7 = Done () st8"
    and 9: "for_each writeRestraint (enumerate 0 (map (resolveVoxels (Mesh inp)) pre))
              ((fst st8)\<lparr>Restraints := map (resolveVoxels (Mesh inp)) (Restraints inp)\<rparr>, snd st8) =
            Done () st9"
  shows "Write (inp, w) =
     Fail (ConfigError ''restraint has no fixed degree of freedom'')
       ((fst st9)\<lparr>TempVBuff := DestroyHashTable (TempVBuff (fst st9))\<rparr>, snd st9)"
proof -
  let ?q = "\<lambda>i. (PathBou i, Restraints i, Mesh i)"
  let ?P = "holds ?q (?q inp)"
  note st = stable_boundary_setup
  have f1: "fst st1 = inp" using Create_fst [OF 1] by simp
  have f2: "fst st2 = inp" using writeHeader_fst [OF 2] f1 by simp
  have f3: "fst st3 = inp" using write_or_return_fst [OF 3] f2 by simp
  from 5 obtain sa sb sc where
    w5a: "write_or_return (Path inp) (''*INCLUDE,INPUT='' @ PathElsC3D4 inp @ ''\<newline>'') st4 = Done () sa"
    and w5b: "write_or_return (Path inp) (''*INCLUDE,INPUT='' @ PathElsC3D10 inp @ ''\<newline>'') sa = Done () sb"
    and w5c: "write_or_return (Path inp) (''*INCLUDE,INPUT='' @ PathElsC3D8 inp @ ''\<newline>'') sb = Done () sc"
    and w5d: "write_or_return (Path inp) (''*INCLUDE,INPUT='' @ PathElsC3D20R inp @ ''\<newline>'') sc = Done () st5"
    by (auto simp: and_then_Done_iff)
  have P3: "?P st3" by (simp add: holds_def f3)
  from keepsD [OF keeps_writeNodes [OF st] P3 4] have P4: "?P st4" .
  from keepsD [OF keeps_write_or_return P4 w5a] have "?P sa" .
  from keepsD [OF keeps_write_or_return this w5b] have "?P sb" .
  from keepsD [OF keeps_write_or_return this w5c] have "?P sc" .
  from keepsD [OF keeps_write_or_return this w5d] have P5: "?P st5" .
  from keepsD [OF keeps_writeElements [OF st] P5 6] have P6: "?P st6" .
  from keepsD [OF keeps_write_or_return P6 7] have P7: "?P st7" .
  then have e7: "PathBou (fst st7) = PathBou inp" "Restraints (fst st7) = Restraints inp"
    "Mesh (fst st7) = Mesh inp" by (simp_all add: holds_def)
  have f8: "fst st8 = fst st7" by (rule Create_fst [OF 8])
  have r7: "Restraints (fst st7) = pre @ r # post" by (simp add: e7 r(1))
  have "writeBoundary (fst st7, snd st7) =
     and_then (Create (PathBou (fst st7)) (fst st7, snd st7)) (\<lambda>_ s1.
       and_then
         (for_each writeRestraint (enumerate 0 (map (resolveVoxels (Mesh (fst st7))) pre))
            ((fst st7)\<lparr>Restraints := map (resolveVoxels (Mesh (fst st7))) (Restraints (fst st7))\<rparr>, snd s1))
         (\<lambda>_ s2. Fail (ConfigError ''restraint has no fixed degree of freedom'') s2))"
    by (rule writeBoundary_until_all_free [OF r7 r(2)])
  then have wb: "writeBoundary st7 =
      Fail (ConfigError ''restraint has no fixed degree of freedom'') st9"
    using 8 9 by (simp add: e7 f8)
  have body: "Write_body st3 = Fail (ConfigError ''restraint has no fixed degree of freedom'') st9"
    by (simp only: Write_body_def f3 steps_Cons 4 w5a w5b w5c w5d 6 7 wb and_then.simps)
  show ?thesis
    by (simp only: Write_def fst_conv 1 2 f2 3 body and_then.simps deferred_def result.case
        snd_conv)
qed


text \<open>
  Claim C1 as stated fails. With the restraints \<open>[fixed in X, all free]\<close> the export fails
  with the configuration error, but only in the boundary stage: the node file and the
  element file are already written, and the boundary file holds the node set and the
  constraint of the first restraint.
\<close>

theorem restraint_error_after_files_written:
  "failure (Write (ex_inp [ex_tet] [ex_fixed, ex_free], ex_world)) =
     Some (ConfigError ''restraint has no fixed degree of freedom'') \<and>
   files (snd (final_state (Write (ex_inp [ex_tet] [ex_fixed, ex_free], ex_world)))) ''m.boundary'' =
     Some ''*NSET,NSET=restraint1\<newline>1,2,3,4\<newline>*BOUNDARY\<newline>restraint1,1\<newline>'' \<and>
   files (snd (final_state (Write (ex_inp [ex_tet] [ex_fixed, ex_free], ex_world)))) ''m.nodes'' =
     Some ''*NODE\<newline>1,f,f,f\<newline>2,f,f,f\<newline>3,f,f,f\<newline>4,f,f,f\<newline>'' \<and>
   files (snd (final_state (Write (ex_inp [ex_tet] [ex_fixed, ex_free], ex_world)))) ''m.elements_C3D4'' =
     Some ''*ELEMENT, TYPE=C3D4, ELSET=eC3D4\<newline>1,1,2,3,4\<newline>''"
proof -
  have "\<exists>e st. Write (ex_inp [ex_tet] [ex_fixed, ex_free], ex_world) = Fail e st \<and>
        e = ConfigError ''restraint has no fixed degree of freedom'' \<and>
        files (snd st) ''m.boundary'' =
          Some ''*NSET,NSET=restraint1\<newline>1,2,3,4\<newline>*BOUNDARY\<newline>restraint1,1\<newline>'' \<and>
        files (snd st) ''m.nodes'' =
          Some ''*NODE\<newline>1,f,f,f\<newline>2,f,f,f\<newline>3,f,f,f\<newline>4,f,f,f\<newline>'' \<and>
        files (snd st) ''m.elements_C3D4'' =
          Some ''*ELEMENT, TYPE=C3D4, ELSET=eC3D4\<newline>1,1,2,3,4\<newline>''"
    by (simp add: writer_defs ex_defs io_defs mesh_defs fmt_d.simps upt_rec)
  then obtain e st where "Write (ex_inp [ex_tet] [ex_fixed, ex_free], ex_world) = Fail e st"
    and "e = ConfigError ''restraint has no fixed degree of freedom''"
    and "files (snd st) ''m.boundary'' =
          Some ''*NSET,NSET=restraint1\<newline>1,2,3,4\<newline>*BOUNDARY\<newline>restraint1,1\<newline>''"
    and "files (snd st) ''m.nodes'' =
          Some ''*NODE\<newline>1,f,f,f\<newline>2,f,f,f\<newline>3,f,f,f\<newline>4,f,f,f\<newline>''"
    and "files (snd st) ''m.elements_C3D4'' =
          Some ''*ELEMENT, TYPE=C3D4, ELSET=eC3D4\<newline>1,1,2,3,4\<newline>''"
    by blast
  then show ?thesis by (simp add: failure_def final_state_def)
qed

text \<open>
  Claim C1, amended. An export whose restraint list contains a restraint with no fixed
  degree of freedom never succeeds. The configuration error is raised in the boundary
  stage: when the master file has been created, the header and the include line of the
  node file written, the node stage run, the include lines of the element files written,
  the element stage run, the include line of the boundary file written, the boundary
  file created and the restraints listed before the first such restraint written, the
  export returns the configuration error, in the state that these steps have reached.
  The boundary stage on its own creates the boundary file, writes the restraints listed
  before that restraint and returns the configuration error; when that restraint is the
  first of the list and the boundary file can be created, it leaves the boundary file
  empty.
\<close>

theorem restraint_without_fixed_dof:
  "(r \<in> set (Restraints inp) \<and> all_free r \<longrightarrow> (\<forall>v st'. Write (inp, w) \<noteq> Done v st')) \<and>
   (Restraints inp = pre @ r # post \<and> all_free r \<and>
    Create (Path inp) (inp, w) = Done () st1 \<and>
    writeHeader st1 = Done () st2 \<and>
    write_or_return (Path inp) (''*INCLUDE,INPUT='' @ PathNodes inp @ ''\<newline>'') st2 = Done () st3 \<and>
    writeNodes st3 = Done () st4 \<and>
    steps
      [write_or_return (Path inp) (''*INCLUDE,INPUT='' @ PathElsC3D4 inp @ ''\<newline>''),
       write_or_return (Path inp) (''*INCLUDE,INPUT='' @ PathElsC3D10 inp @ ''\<newline>''),
       write_or_return (Path inp) (''*INCLUDE,INPUT='' @ PathElsC3D8 inp @ ''\<newline>''),
       write_or_return (Path inp) (''*INCLUDE,INPUT='' @ PathElsC3D20R inp @ ''\<newline>'')]
      st4 = Done () st5 \<and>
    writeElements st5 = Done () st6 \<and>
    write_or_return (Path inp) (''*INCLUDE,INPUT='' @ PathBou inp @ ''\<newline>'') st6 = Done () st7 \<and>
    Create (PathBou inp) st7 = Done () st8 \<and>
    for_each writeRestraint (enumerate 0 (map (resolveVoxels (Mesh inp)) pre))
      ((fst st8)\<lparr>Restraints := map (resolveVoxels (Mesh inp)) (Restraints inp)\<rparr>, snd st8) =
      Done () st9 \<longrightarrow>
      Write (inp, w) =
        Fail (ConfigError ''restraint has no fixed degree of freedom'')
          ((fst st9)\<lparr>TempVBuff := DestroyHashTable (TempVBuff (fst st9))\<rparr>, snd st9)) \<and>
   (Restraints inp = pre @ r # post \<and> all_free r \<longrightarrow>
      writeBoundary (inp, w) =
        and_then (Create (PathBou inp) (inp, w)) (\<lambda>_ st1.
          and_then
            (for_each writeRestraint (enumerate 0 (map (resolveVoxels (Mesh inp)) pre))
               (inp\<lparr>Restraints := map (resolveVoxels (Mesh inp)) (Restraints inp)\<rparr>, snd st1))
            (\<lambda>_ st2. Fail (ConfigError ''restraint has no fixed degree of freedom'') st2))) \<and>
   (Restraints inp = r # post \<and> all_free r \<and> \<not> create_fails w (PathBou inp) \<longrightarrow>
      writeBoundary (inp, w) =
        Fail (ConfigError ''restraint has no fixed degree of freedom'')
          (inp\<lparr>Restraints := map (resolveVoxels (Mesh inp)) (Restraints inp)\<rparr>,
           w\<lparr>files := (files w)(PathBou inp \<mapsto> [])\<rparr>))"
proof (intro conjI impI allI)
  fix v st'
  assume "r \<in> set (Restraints inp) \<and> all_free r"
  then show "Write (inp, w) \<noteq> Done v st'" using Write_not_Done [of r inp w v st'] by blast
next
  assume "Restraints inp = pre @ r # post \<and> all_free r \<and>
    Create (Path inp) (inp, w) = Done () st1 \<and>
    writeHeader st1 = Done () st2 \<and>
    write_or_return (Path inp) (''*INCLUDE,INPUT='' @ PathNodes inp @ ''\<newline>'') st2 = Done () st3 \<and>
    writeNodes st3 = Done () st4 \<and>
    steps
      [write_or_return (Path inp) (''*INCLUDE,INPUT='' @ PathElsC3D4 inp @ ''\<newline>''),
       write_or_return (Path inp) (''*INCLUDE,INPUT='' @ PathElsC3D10 inp @ ''\<newline>''),
       write_or_return (Path inp) (''*INCLUDE,INPUT='' @ PathElsC3D8 inp @ ''\<newline>''),
       write_or_return (Path inp) (''*INCLUDE,INPUT='' @ PathElsC3D20R inp @ ''\<newline>'')]
      st4 = Done () st5 \<and>
    writeElements st5 = Done () st6 \<and>
    write_or_return (Path inp) (''*INCLUDE,INPUT='' @ PathBou inp @ ''\<newline>'') st6 = Done () st7 \<and>
    Create (PathBou inp) st7 = Done () st8 \<and>
    for_each writeRestraint (enumerate 0 (map (resolveVoxels (Mesh inp)) pre))
      ((fst st8)\<lparr>Restraints := map (resolveVoxels (Mesh inp)) (Restraints inp)\<rparr>, snd st8) =
      Done () st9"
  then show "Write (inp, w) =
        Fail (ConfigError ''restraint has no fixed degree of freedom'')
          ((fst st9)\<lparr>TempVBuff := DestroyHashTable (TempVBuff (fst st9))\<rparr>, snd st9)"
    using Write_config_error [of inp pre r post w st1 st2 st3 st4 st5 st6 st7 st8 st9] by blast
next
  assume "Restraints inp = pre @ r # post \<and> all_free r"
  then show "writeBoundary (inp, w) =
        and_then (Create (PathBou inp) (inp, w)) (\<lambda>_ st1.
          and_then
            (for_each writeRestraint (enumerate 0 (map (resolveVoxels (Mesh inp)) pre))
               (inp\<lparr>Restraints := map (resolveVoxels (Mesh inp)) (Restraints inp)\<rparr>, snd st1))
            (\<lambda>_ st2. Fail (ConfigError ''restraint has no fixed degree of freedom'') st2))"
    by (simp only: writeBoundary_until_all_free)
next
  assume a: "Restraints inp = r # post \<and> all_free r \<and> \<not> create_fails w (PathBou inp)"
  then have "Restraints inp = [] @ r # post" "all_free r" by simp_all
  from writeBoundary_until_all_free [OF this] a
  show "writeBoundary (inp, w) =
        Fail (ConfigError ''restraint has no fixed degree of freedom'')
          (inp\<lparr>Restraints := map (resolveVoxels (Mesh inp)) (Restraints inp)\<rparr>,
           w\<lparr>files := (files w)(PathBou inp \<mapsto> [])\<rparr>)"
    by (simp add: Create_def os_Create_def)
qed

theorem restraint_without_fixed_dof_witness:
  "(\<forall>v st'. Write (ex_inp [ex_tet] [ex_fixed, ex_free], ex_world) \<noteq> Done v st') \<and>
   writeBoundary (ex_inp [ex_tet] [ex_free, ex_fixed], ex_world) =
     Fail (ConfigError ''restraint has no fixed degree of freedom'')
       ((ex_inp [ex_tet] [ex_free, ex_fixed])
          \<lparr>Restraints := map (resolveVoxels (ex_mesh [ex_tet])) [ex_free, ex_fixed]\<rparr>,
        ex_world\<lparr>files := (files ex_world)(''m.boundary'' \<mapsto> [])\<rparr>) \<and>
   failure (Write (ex_inp [ex_tet] [ex_fixed, ex_free], ex_world)) =
     Some (ConfigError ''restraint has no fixed degree of freedom'')"
proof -
  have f: "all_free ex_free" by (simp add: all_free_def ex_free_def)
  have r: "Restraints (ex_inp [ex_tet] rs) = rs" "Mesh (ex_inp [ex_tet] rs) = ex_mesh [ex_tet]"
    "PathBou (ex_inp [ex_tet] rs) = ''m.boundary''" for rs
    by (simp_all add: ex_inp_def NewInp_def)
  have c: "\<not> create_fails ex_world ''m.boundary''" by (simp add: ex_world_def)
  let ?a = "ex_inp [ex_tet] [ex_fixed, ex_free]"
  let ?b = "ex_inp [ex_tet] [ex_free, ex_fixed]"
  have ha: "ex_free \<in> set (Restraints ?a) \<and> all_free ex_free" by (simp add: r f)
  have hb: "Restraints ?b = ex_free # [ex_fixed] \<and> all_free ex_free \<and>
      \<not> create_fails ex_world (PathBou ?b)" by (simp add: r f c)
  from restraint_without_fixed_dof [of ex_free ?a ex_world] ha
  have 1: "\<forall>v st'. Write (?a, ex_world) \<noteq> Done v st'" by blast
  from restraint_without_fixed_dof [of ex_free ?b ex_world "[]" "[ex_fixed]"] hb
  have "writeBoundary (?b, ex_world) =
     Fail (ConfigError ''restraint has no fixed degree of freedom'')
       (?b\<lparr>Restraints := map (resolveVoxels (Mesh ?b)) (Restraints ?b)\<rparr>,
        ex_world\<lparr>files := (files ex_world)(PathBou ?b \<mapsto> [])\<rparr>)" by blast
  then have 2: "writeBoundary (?b, ex_world) =
     Fail (ConfigError ''restraint has no fixed degree of freedom'')
       (?b\<lparr>Restraints := map (resolveVoxels (ex_mesh [ex_tet])) [ex_free, ex_fixed]\<rparr>,
        ex_world\<lparr>files := (files ex_world)(''m.boundary'' \<mapsto> [])\<rparr>)"
    by (simp only: r)
  have "\<exists>st1 st2 st3 st4 st5 st6 st7 st8 st9.
    Create (Path ?a) (?a, ex_world) = Done () st1 \<and>
    writeHeader st1 = Done () st2 \<and>
    write_or_return (Path ?a) (''*INCLUDE,INPUT='' @ PathNodes ?a @ ''\<newline>'') st2 = Done () st3 \<and>
    writeNodes st3 = Done () st4 \<and>
    steps
      [write_or_return (Path ?a) (''*INCLUDE,INPUT='' @ PathElsC3D4 ?a @ ''\<newline>''),
       write_or_return (Path ?a) (''*INCLUDE,INPUT='' @ PathElsC3D10 ?a @ ''\<newline>''),
       write_or_return (Path ?a) (''*INCLUDE,INPUT='' @ PathElsC3D8 ?a @ ''\<newline>''),
       write_or_return (Path ?a) (''*INCLUDE,INPUT='' @ PathElsC3D20R ?a @ ''\<newline>'')]
      st4 = Done () st5 \<and>
    writeElements st5 = Done () st6 \<and>
    write_or_return (Path ?a) (''*INCLUDE,INPUT='' @ PathBou ?a @ ''\<newline>'') st6 = Done () st7 \<and>
    Create (PathBou ?a) st7 = Done () st8 \<and>
    for_each writeRestraint (enumerate 0 (map (resolveVoxels (Mesh ?a)) [ex_fixed]))
      ((fst st8)\<lparr>Restraints := map (resolveVoxels (Mesh ?a)) (Restraints ?a)\<rparr>, snd st8) =
      Done () st9"
    by (simp add: writer_defs ex_defs io_defs mesh_defs fmt_d.simps upt_rec)
  then obtain st1 st2 st3 st4 st5 st6 st7 st8 st9 where chain:
    "Create (Path ?a) (?a, ex_world) = Done () st1 \<and>
    writeHeader st1 = Done () st2 \<and>
    write_or_return (Path ?a) (''*INCLUDE,INPUT='' @ PathNodes ?a @ ''\<newline>'') st2 = Done () st3 \<and>
    writeNodes st3 = Done () st4 \<and>
    steps
      [write_or_return (Path ?a) (''*INCLUDE,INPUT='' @ PathElsC3D4 ?a @ ''\<newline>''),
       write_or_return (Path ?a) (''*INCLUDE,INPUT='' @ PathElsC3D10 ?a @ ''\<newline>''),
       write_or_return (Path ?a) (''*INCLUDE,INPUT='' @ PathElsC3D8 ?a @ ''\<newline>''),
       write_or_return (Path ?a) (''*INCLUDE,INPUT='' @ PathElsC3D20R ?a @ ''\<newline>'')]
      st4 = Done () st5 \<and>
    writeElements st5 = Done () st6 \<and>
    write_or_return (Path ?a) (''*INCLUDE,INPUT='' @ PathBou ?a @ ''\<newline>'') st6 = Done () st7 \<and>
    Create (PathBou ?a) st7 = Done () st8 \<and>
    for_each writeRestraint (enumerate 0 (map (resolveVoxels (Mesh ?a)) [ex_fixed]))
      ((fst st8)\<lparr>Restraints := map (resolveVoxels (Mesh ?a)) (Restraints ?a)\<rparr>, snd st8) =
      Done () st9"
    by blast
  have hc: "Restraints ?a = [ex_fixed] @ ex_free # []" by (simp add: r)
  from restraint_without_fixed_dof [of ex_free ?a ex_world "[ex_fixed]" "[]"
      st1 st2 st3 st4 st5 st6 st7 st8 st9] hc f chain
  have "Write (?a, ex_world) =
        Fail (ConfigError ''restraint has no fixed degree of freedom'')
          ((fst st9)\<lparr>TempVBuff := DestroyHashTable (TempVBuff (fst st9))\<rparr>, snd st9)"
    by blast
  then have 3: "failure (Write (?a, ex_world)) =
     Some (ConfigError ''restraint has no fixed degree of freedom'')"
    by (simp add: failure_def)
  from 1 2 3 show ?thesis by blast
qed

section \<open>Properties of \<open>Locate\<close>\<close>

text \<open>
  The index computed on an axis is always below the grid length: that is the bound the
  code enforces. It is non-negative only when the location is not below the grid origin
  on that axis.
\<close>

lemma axisIndex_less: "axisIndex loc mn d n < n"
  by (simp add: axisIndex_def Let_def)

lemma axisIndex_nonneg_iff:
  assumes "0 < n"
  shows "0 \<le> axisIndex loc mn d n \<longleftrightarrow> 0 \<le> \<lfloor>(loc - mn) / d\<rfloor>"
proof (cases "n \<le> \<lfloor>(loc - mn) / d\<rfloor>")
  case True
  then have "axisIndex loc mn d n = n - 1" by (simp add: axisIndex_def Let_def)
  moreover from True assms have "0 \<le> \<lfloor>(loc - mn) / d\<rfloor>" by linarith
  ultimately show ?thesis using assms by simp
next
  case False
  then have "axisIndex loc mn d n = \<lfloor>(loc - mn) / d\<rfloor>" by (simp add: axisIndex_def Let_def)
  then show ?thesis by simp
qed

text \<open>
  Claim C2 says that the cell coordinate returned by \<open>Locate\<close> lies within
  \<open>[0, gridLen)\<close> on every axis for every input point. The code clamps the upper bound
  only. On the grid of one cell of size 1 at the origin, the point
  \<open>(-1/2, 1/2, 1/2)\<close> gets the index \<open>-1\<close> on the first axis, and reading the cell
  \<open>(-1, 0, 0)\<close> of the grid is outside the grid: \<open>Locate\<close> returns no cell coordinate.
\<close>

theorem Locate_below_grid_origin:
  "axisIndex (- 1 / 2) 0 1 1 = - 1 \<and>
   Locate (ex_mesh [ex_tet]) \<lparr>X = - 1 / 2, Y = 1 / 2, Z = 1 / 2\<rparr> = None"
  by (simp add: axisIndex_def Locate_def ex_mesh_def Get_def Let_def)

section \<open>Node sets in the boundary file\<close>

subsection \<open>Writing a node set\<close>

lemma for_each_write_or_return:
  assumes "\<not> write_fails w p" "files w p = Some c"
  shows "for_each (\<lambda>x. write_or_return p (f x)) xs (inp, w) =
         Done () (inp, w\<lparr>files := (files w)(p \<mapsto> c @ concat (map f xs))\<rparr>)"
  using assms
proof (induction xs arbitrary: w c)
  case Nil
  then have "(files w)(p \<mapsto> c) = files w" by (simp add: map_upd_triv)
  then show ?case by simp
next
  case (Cons x xs)
  define w' where "w' = w\<lparr>files := (files w)(p \<mapsto> c @ f x)\<rparr>"
  have step: "write_or_return p (f x) (inp, w) = Done () (inp, w')"
    using Cons.prems by (simp add: write_or_return_def WriteString_def w'_def)
  have "\<not> write_fails w' p" "files w' p = Some (c @ f x)"
    using Cons.prems by (simp_all add: w'_def)
  from Cons.IH [OF this]
  have ih: "for_each (\<lambda>x. write_or_return p (f x)) xs (inp, w') =
        Done () (inp, w'\<lparr>files := (files w')(p \<mapsto> (c @ f x) @ concat (map f xs))\<rparr>)" .
  have eq: "w'\<lparr>files := (files w')(p \<mapsto> (c @ f x) @ concat (map f xs))\<rparr> =
        w\<lparr>files := (files w)(p \<mapsto> c @ concat (map f (x # xs)))\<rparr>"
    by (simp add: w'_def)
  show ?case by (simp only: for_each.simps step and_then.simps ih eq)
qed

lemma writeNodeSet_text:
  assumes "\<not> write_fails w p" "files w p = Some c"
  shows "writeNodeSet p ids (inp, w) =
         Done () (inp, w\<lparr>files := (files w)(p \<mapsto> c @ nodeSet_text ids)\<rparr>)"
proof -
  have e: "(\<lambda>(j, i). write_or_return p (nodeSet_entry (length ids) j i)) =
        (\<lambda>x. write_or_return p ((\<lambda>(j, i). nodeSet_entry (length ids) j i) x))"
    by (simp add: fun_eq_iff)
  show ?thesis
    unfolding writeNodeSet_def nodeSet_text_def e
    by (rule for_each_write_or_return [OF assms])
qed

subsection \<open>Digits\<close>

lemma digit_nth: "k < 10 \<Longrightarrow> ''0123456789'' ! k \<in> set ''0123456789''"
  by (rule nth_mem) simp

lemma fmt_d_set: "set (fmt_d n) \<subseteq> set ''0123456789''"
proof (induction n rule: fmt_d.induct)
  case (1 n)
  show ?case
  proof (cases "n < 10")
    case True
    then have "fmt_d n = [''0123456789'' ! n]" by (subst fmt_d.simps) simp
    with digit_nth [OF True] show ?thesis by simp
  next
    case False
    then have e: "fmt_d n = fmt_d (n div 10) @ [''0123456789'' ! (n mod 10)]"
      by (subst fmt_d.simps) simp
    have "n mod 10 < 10" by simp
    from digit_nth [OF this] 1 [OF False] show ?thesis unfolding e by simp
  qed
qed

lemma fmt_d_not_Nil: "fmt_d n \<noteq> []"
  by (subst fmt_d.simps) simp

lemma fmt_d_no_comma: "CHR '','' \<notin> set (fmt_d n)"
  using fmt_d_set [of n] by auto

lemma fmt_d_no_newline: "CHR ''\<newline>'' \<notin> set (fmt_d n)"
  using fmt_d_set [of n] by auto

lemma csv_no_newline: "CHR ''\<newline>'' \<notin> set (csv is)"
  by (induction "is" rule: csv.induct) (simp_all add: fmt_d_no_newline)

subsection \<open>Lines and entries of a text\<close>

lemma lines_acc_line:
  "CHR ''\<newline>'' \<notin> set a \<Longrightarrow> lines_acc cur (a @ CHR ''\<newline>'' # rest) = (cur @ a) # lines_acc [] rest"
  by (induction a arbitrary: cur) auto

lemma fields_acc_field:
  "CHR '','' \<notin> set a \<Longrightarrow> fields_acc cur (a @ CHR '','' # rest) = (cur @ a) # fields_acc [] rest"
  by (induction a arbitrary: cur) auto

lemma fields_acc_last: "CHR '','' \<notin> set a \<Longrightarrow> fields_acc cur a = [cur @ a]"
  by (induction a arbitrary: cur) auto

lemma entries_csv: "entries (csv is) = map (\<lambda>i. fmt_d (unat i)) is"
proof (induction "is" rule: csv.induct)
  case 1
  show ?case by (simp add: entries_def)
next
  case (2 i)
  show ?case
    by (simp add: entries_def fields_acc_last [OF fmt_d_no_comma] fmt_d_not_Nil)
next
  case (3 i j js)
  have "fields_acc [] (fmt_d (unat i) @ CHR '','' # csv (j # js)) =
        fmt_d (unat i) # fields_acc [] (csv (j # js))"
    using fields_acc_field [OF fmt_d_no_comma, of "[]"] by simp
  with 3 show ?case by (simp add: entries_def fmt_d_not_Nil)
qed

lemma entries_csv_comma: "entries (csv is @ '','') = map (\<lambda>i. fmt_d (unat i)) is"
proof (induction "is" rule: csv.induct)
  case 1
  show ?case by (simp add: entries_def)
next
  case (2 i)
  have "fields_acc [] (fmt_d (unat i) @ CHR '','' # []) = fmt_d (unat i) # fields_acc [] []"
    using fields_acc_field [OF fmt_d_no_comma, of "[]"] by simp
  then show ?case by (simp add: entries_def fmt_d_not_Nil)
next
  case (3 i j js)
  have "fields_acc [] (fmt_d (unat i) @ CHR '','' # (csv (j # js) @ '','')) =
        fmt_d (unat i) # fields_acc [] (csv (j # js) @ '','')"
    using fields_acc_field [OF fmt_d_no_comma, of "[]"] by simp
  with 3 show ?case by (simp add: entries_def fmt_d_not_Nil)
qed

lemma text_lines_render:
  "map entries (text_lines (render cs)) = map (map (\<lambda>i. fmt_d (unat i))) cs"
proof (induction cs rule: render.induct)
  case 1
  show ?case by (simp add: text_lines_def)
next
  case (2 c)
  have "lines_acc [] (csv c @ CHR ''\<newline>'' # []) = csv c # lines_acc [] []"
    using lines_acc_line [OF csv_no_newline, of "[]"] by simp
  then show ?case by (simp add: text_lines_def entries_csv)
next
  case (3 c d ds)
  have "CHR ''\<newline>'' \<notin> set (csv c @ '','')" by (simp add: csv_no_newline)
  from lines_acc_line [OF this, of "[]" "render (d # ds)"]
  have "lines_acc [] (csv c @ '',\<newline>'' @ render (d # ds)) =
        (csv c @ '','') # lines_acc [] (render (d # ds))" by simp
  then have l: "text_lines (render (c # d # ds)) = (csv c @ '','') # text_lines (render (d # ds))"
    by (simp add: text_lines_def)
  from 3 show ?case by (simp only: l list.map entries_csv_comma)
qed

subsection \<open>Wrapping\<close>

lemma wrap_not_Nil: "wrap k xs \<noteq> []"
  by (subst wrap.simps) simp

lemma wrap_hd_not_Nil: "xs \<noteq> [] \<Longrightarrow> hd (wrap k xs) \<noteq> []"
  by (subst wrap.simps) auto

lemma wrap_short: "length xs \<le> k \<Longrightarrow> wrap k xs = [xs]"
  by (subst wrap.simps) simp

lemma wrap_long: "0 < k \<Longrightarrow> k < length xs \<Longrightarrow> wrap k xs = take k xs # wrap 15 (drop k xs)"
  by (subst wrap.simps) simp

lemma wrap_Cons:
  assumes "2 \<le> k" "xs \<noteq> []"
  shows "wrap k (x # xs) = (x # hd (wrap (k - 1) xs)) # tl (wrap (k - 1) xs)"
proof (cases "length (x # xs) \<le> k")
  case True
  then have "length xs \<le> k - 1" by simp
  then show ?thesis using True by (simp only: wrap_short list.sel)
next
  case False
  with assms have a: "0 < k" "k < length (x # xs)" "0 < k - 1" "k - 1 < length xs" by auto
  have "take k (x # xs) = x # take (k - 1) xs" "drop k (x # xs) = drop (k - 1) xs"
    using a(1) by (simp_all add: take_Cons' drop_Cons')
  then show ?thesis
    by (simp only: wrap_long [OF a(1,2)] wrap_long [OF a(3,4)] list.sel)
qed

lemma wrap_lengths: "0 < k \<Longrightarrow> k \<le> 16 \<Longrightarrow> c \<in> set (wrap k xs) \<Longrightarrow> length c \<le> 16"
proof (induction k xs rule: wrap.induct)
  case (1 k xs)
  show ?case
  proof (cases "length xs \<le> k")
    case True
    with "1.prems" show ?thesis by (simp add: wrap_short)
  next
    case False
    with "1.prems" have "c = take k xs \<or> c \<in> set (wrap 15 (drop k xs))"
      by (simp add: wrap_long)
    then show ?thesis
    proof
      assume "c = take k xs"
      with "1.prems" show ?thesis by simp
    next
      assume "c \<in> set (wrap 15 (drop k xs))"
      with "1.IH" False "1.prems"(1) show ?thesis by simp
    qed
  qed
qed

lemma render_Cons: "cs \<noteq> [] \<Longrightarrow> render (c # cs) = csv c @ '',\<newline>'' @ render cs"
  by (cases cs) simp_all

lemma csv_Cons: "is \<noteq> [] \<Longrightarrow> csv (i # is) = fmt_d (unat i) @ '','' @ csv is"
  by (cases "is") simp_all

lemma render_push:
  "l \<noteq> [] \<Longrightarrow> render ((x # l) # ls) = fmt_d (unat x) @ '','' @ render (l # ls)"
  by (cases ls) (simp_all add: csv_Cons)

lemma cap_pos: "0 < cap k"
proof -
  have "(k - 1) mod 15 < 15" by simp
  then show ?thesis unfolding cap_def by (simp split: if_splits)
qed

lemma cap_break: "k \<noteq> 0 \<Longrightarrow> k mod 15 = 0 \<Longrightarrow> cap k = 1 \<and> cap (Suc k) = 15"
proof -
  assume a: "k \<noteq> 0" "k mod 15 = 0"
  then obtain m where m: "k = 15 * m" by (auto simp: mod_eq_0_iff_dvd)
  with a have "0 < m" by simp
  then obtain j where j: "m = Suc j" by (cases m) auto
  have "k - 1 = 15 * j + 14" using m j by simp
  then have "(k - 1) mod 15 = 14" by simp
  with a show ?thesis by (simp add: cap_def)
qed

lemma cap_step: "\<not> (k \<noteq> 0 \<and> k mod 15 = 0) \<Longrightarrow> 2 \<le> cap k \<and> cap (Suc k) = cap k - 1"
proof (cases "k = 0")
  case True
  then show ?thesis by (simp add: cap_def)
next
  case False
  assume "\<not> (k \<noteq> 0 \<and> k mod 15 = 0)"
  with False have nz: "k mod 15 \<noteq> 0" by simp
  from False obtain j where j: "k = Suc j" by (cases k) auto
  have "Suc j mod 15 = (if Suc (j mod 15) = 15 then 0 else Suc (j mod 15))"
    by (rule mod_Suc)
  with nz j have s: "k mod 15 = Suc (j mod 15)" by (simp split: if_splits)
  have "k mod 15 < 15" by simp
  with s have "j mod 15 \<le> 13" by simp
  with s j False show ?thesis by (simp add: cap_def)
qed


lemma csv_not_Nil: "is \<noteq> [] \<Longrightarrow> csv is \<noteq> []"
  by (induction "is" rule: csv.induct) (simp_all add: fmt_d_not_Nil)

lemma csv_last_no_comma: "is \<noteq> [] \<Longrightarrow> last (csv is) \<noteq> CHR '',''"
proof (induction "is" rule: csv.induct)
  case 1
  then show ?case by simp
next
  case (2 i)
  have "last (fmt_d (unat i)) \<in> set (fmt_d (unat i))" by (rule last_in_set) (rule fmt_d_not_Nil)
  with fmt_d_no_comma [of "unat i"] show ?case by auto
next
  case (3 i j js)
  have "csv (j # js) \<noteq> []" by (rule csv_not_Nil) simp
  with 3 show ?case by simp
qed

lemma entries_text_wrap:
  "xs \<noteq> [] \<Longrightarrow> n = k + length xs \<Longrightarrow>
   concat (map (\<lambda>(j, i). nodeSet_entry n j i) (enumerate k xs)) =
   render (wrap (cap k) (map (\<lambda>i. i + 1) xs))"
proof (induction xs arbitrary: k)
  case Nil
  then show ?case by simp
next
  case (Cons x xs)
  note IH = Cons.IH and prems = Cons.prems
  let ?T = "\<lambda>k xs. concat (map (\<lambda>(j, i). nodeSet_entry n j i) (enumerate k xs))"
  let ?ys = "map (\<lambda>i. i + 1) xs"
  have unfold: "?T k (x # xs) = nodeSet_entry n k x @ ?T (Suc k) xs" by simp
  show ?case
  proof (cases "xs = []")
    case True
    have "wrap (cap k) [x + 1] = [[x + 1]]"
      using cap_pos [of k] by (simp add: wrap_short)
    with True prems show ?thesis by (simp add: nodeSet_entry_def)
  next
    case False
    then have ne: "?ys \<noteq> []" by simp
    have n: "n = Suc k + length xs" using prems by simp
    have ih: "?T (Suc k) xs = render (wrap (cap (Suc k)) ?ys)" by (rule IH [OF False n])
    have "0 < length xs" using False by simp
    with n have notlast: "k \<noteq> n - 1" by simp
    show ?thesis
    proof (cases "k \<noteq> 0 \<and> k mod 15 = 0")
      case True
      then have c: "cap k = 1" "cap (Suc k) = 15" using cap_break [of k] by auto
      have e: "nodeSet_entry n k x = fmt_d (unat (x + 1)) @ '',\<newline>''"
        using True notlast by (simp add: nodeSet_entry_def)
      have "1 < length ((x + 1) # ?ys)" using False by simp
      then have "wrap 1 ((x + 1) # ?ys) = take 1 ((x + 1) # ?ys) # wrap 15 (drop 1 ((x + 1) # ?ys))"
        by (rule wrap_long [rotated]) simp
      then have w: "wrap 1 ((x + 1) # ?ys) = [x + 1] # wrap 15 ?ys" by simp
      have "render ([x + 1] # wrap 15 ?ys) = csv [x + 1] @ '',\<newline>'' @ render (wrap 15 ?ys)"
        by (rule render_Cons) (rule wrap_not_Nil)
      then show ?thesis
        by (simp only: unfold e ih c list.map w) simp
    next
      case False
      then have c: "2 \<le> cap k" "cap (Suc k) = cap k - 1" using cap_step [of k] by auto
      have e: "nodeSet_entry n k x = fmt_d (unat (x + 1)) @ '',''"
        using False notlast by (auto simp: nodeSet_entry_def)
      let ?W = "wrap (cap k - 1) ?ys"
      have w: "wrap (cap k) ((x + 1) # ?ys) = ((x + 1) # hd ?W) # tl ?W"
        by (rule wrap_Cons [OF c(1) ne])
      have "render (((x + 1) # hd ?W) # tl ?W) = fmt_d (unat (x + 1)) @ '','' @ render (hd ?W # tl ?W)"
        by (rule render_push) (rule wrap_hd_not_Nil [OF ne])
      moreover have "hd ?W # tl ?W = ?W" using wrap_not_Nil [of "cap k - 1" ?ys] by simp
      ultimately have "render (wrap (cap k) ((x + 1) # ?ys)) = fmt_d (unat (x + 1)) @ '','' @ render ?W"
        by (simp only: w)
      then show ?thesis
        by (simp only: unfold e ih c list.map) simp
    qed
  qed
qed

lemma nodeSet_text_Nil: "nodeSet_text [] = []"
  by (simp add: nodeSet_text_def)

lemma nodeSet_text_render:
  "ids \<noteq> [] \<Longrightarrow> nodeSet_text ids = render (wrap 16 (map (\<lambda>i. i + 1) ids))"
  using entries_text_wrap [of ids "length ids" 0] by (simp add: nodeSet_text_def cap_def)

lemma nodeSet_entries:
  "ids \<noteq> [] \<Longrightarrow>
   map entries (text_lines (nodeSet_text ids)) =
   map (map (\<lambda>i. fmt_d (unat i))) (wrap 16 (map (\<lambda>i. i + 1) ids))"
  by (simp add: nodeSet_text_render text_lines_render)

lemma nodeSet_line_length:
  assumes "l \<in> set (text_lines (nodeSet_text ids))"
  shows "length (entries l) \<le> 16"
proof (cases "ids = []")
  case True
  with assms show ?thesis by (simp add: nodeSet_text_Nil text_lines_def)
next
  case False
  from assms have "entries l \<in> set (map entries (text_lines (nodeSet_text ids)))" by simp
  then have "entries l \<in> set (map (map (\<lambda>i. fmt_d (unat i))) (wrap 16 (map (\<lambda>i. i + 1) ids)))"
    by (simp only: nodeSet_entries [OF False])
  then obtain c where c: "c \<in> set (wrap 16 (map (\<lambda>i. i + 1) ids))"
    and e: "entries l = map (\<lambda>i. fmt_d (unat i)) c" by auto
  have "length c \<le> 16" by (rule wrap_lengths [OF _ _ c]) simp_all
  with e show ?thesis by simp
qed

lemma wrap_17:
  assumes "length xs = 17"
  shows "wrap 16 xs = [take 16 xs, [xs ! 16]]"
proof -
  have "xs ! 16 # drop (Suc 16) xs = drop 16 xs" by (rule Cons_nth_drop_Suc) (simp add: assms)
  then have d: "drop 16 xs = [xs ! 16]" using assms by simp
  have "wrap 16 xs = take 16 xs # wrap 15 (drop 16 xs)" by (rule wrap_long) (simp_all add: assms)
  then show ?thesis by (simp add: d wrap_short)
qed


text \<open>
  Claim C4. When the boundary file can be written, \<open>writeNodeSet\<close> appends the text of the
  node set to it. No line of that text holds more than 16 entries. A node set of exactly
  17 members is wrapped after the 16th entry: the first line holds 16 entries and ends
  with the continuation comma, the second line holds the 17th. A node set of 1 to 16
  members is written on one line, which does not end with a comma.
\<close>

theorem nodeSet_lines_wrapped:
  "(\<not> write_fails w p \<and> files w p = Some c \<longrightarrow>
      writeNodeSet p ids (inp, w) =
        Done () (inp, w\<lparr>files := (files w)(p \<mapsto> c @ nodeSet_text ids)\<rparr>)) \<and>
   (\<forall>l \<in> set (text_lines (nodeSet_text ids)). length (entries l) \<le> 16) \<and>
   (length ids = 17 \<longrightarrow>
      nodeSet_text ids =
        csv (map (\<lambda>i. i + 1) (take 16 ids)) @ '',\<newline>'' @ fmt_d (unat (ids ! 16 + 1)) @ ''\<newline>'' \<and>
      map entries (text_lines (nodeSet_text ids)) =
        [map (\<lambda>i. fmt_d (unat (i + 1))) (take 16 ids), [fmt_d (unat (ids ! 16 + 1))]]) \<and>
   (ids \<noteq> [] \<and> length ids \<le> 16 \<longrightarrow>
      nodeSet_text ids = csv (map (\<lambda>i. i + 1) ids) @ ''\<newline>'' \<and>
      text_lines (nodeSet_text ids) = [csv (map (\<lambda>i. i + 1) ids)] \<and>
      last (csv (map (\<lambda>i. i + 1) ids)) \<noteq> CHR '','')"
proof (intro conjI impI ballI)
  assume "\<not> write_fails w p \<and> files w p = Some c"
  then show "writeNodeSet p ids (inp, w) =
        Done () (inp, w\<lparr>files := (files w)(p \<mapsto> c @ nodeSet_text ids)\<rparr>)"
    by (simp add: writeNodeSet_text)
next
  fix l
  assume "l \<in> set (text_lines (nodeSet_text ids))"
  then show "length (entries l) \<le> 16" by (rule nodeSet_line_length)
next
  assume len: "length ids = 17"
  then have ne: "ids \<noteq> []" by auto
  have w: "wrap 16 (map (\<lambda>i. i + 1) ids) =
        [map (\<lambda>i. i + 1) (take 16 ids), [ids ! 16 + 1]]"
    using wrap_17 [of "map (\<lambda>i. i + 1) ids"] len by (simp add: take_map)
  show "nodeSet_text ids =
        csv (map (\<lambda>i. i + 1) (take 16 ids)) @ '',\<newline>'' @ fmt_d (unat (ids ! 16 + 1)) @ ''\<newline>''"
    by (simp add: nodeSet_text_render [OF ne] w)
  show "map entries (text_lines (nodeSet_text ids)) =
        [map (\<lambda>i. fmt_d (unat (i + 1))) (take 16 ids), [fmt_d (unat (ids ! 16 + 1))]]"
    by (simp add: nodeSet_entries [OF ne] w comp_def)
next
  assume a: "ids \<noteq> [] \<and> length ids \<le> 16"
  then have w: "wrap 16 (map (\<lambda>i. i + 1) ids) = [map (\<lambda>i. i + 1) ids]"
    by (simp add: wrap_short)
  from a show t: "nodeSet_text ids = csv (map (\<lambda>i. i + 1) ids) @ ''\<newline>''"
    by (simp add: nodeSet_text_render w)
  have "lines_acc [] (csv (map (\<lambda>i. i + 1) ids) @ CHR ''\<newline>'' # []) =
        csv (map (\<lambda>i. i + 1) ids) # lines_acc [] []"
    using lines_acc_line [OF csv_no_newline, of "[]"] by simp
  then show "text_lines (nodeSet_text ids) = [csv (map (\<lambda>i. i + 1) ids)]"
    by (simp add: t text_lines_def)
  from a show "last (csv (map (\<lambda>i. i + 1) ids)) \<noteq> CHR '',''"
    by (simp add: csv_last_no_comma)
qed


theorem nodeSet_lines_wrapped_witness:
  "writeNodeSet ''b'' ex_ids17 (ex_inp [] [], ex_world_b) =
     Done () (ex_inp [] [],
       ex_world_b\<lparr>files := (files ex_world_b)(''b'' \<mapsto> nodeSet_text ex_ids17)\<rparr>) \<and>
   nodeSet_text ex_ids17 = ''17,16,15,14,13,12,11,10,9,8,7,6,5,4,3,2,\<newline>1\<newline>'' \<and>
   map entries (text_lines (nodeSet_text ex_ids17)) =
     [[''17'', ''16'', ''15'', ''14'', ''13'', ''12'', ''11'', ''10'', ''9'', ''8'', ''7'', ''6'',
       ''5'', ''4'', ''3'', ''2''], [''1'']] \<and>
   map (\<lambda>l. length (entries l)) (text_lines (nodeSet_text ex_ids17)) = [16, 1] \<and>
   nodeSet_text (take 16 ex_ids17) = ''17,16,15,14,13,12,11,10,9,8,7,6,5,4,3,2\<newline>'' \<and>
   text_lines (nodeSet_text (take 16 ex_ids17)) = [''17,16,15,14,13,12,11,10,9,8,7,6,5,4,3,2'']"
proof -
  have f: "\<not> write_fails ex_world_b ''b'' \<and> files ex_world_b ''b'' = Some []"
    by (simp add: ex_world_b_def ex_world_def)
  have l17: "length ex_ids17 = 17" by (simp add: ex_ids17_def)
  have l16: "take 16 ex_ids17 \<noteq> [] \<and> length (take 16 ex_ids17) \<le> 16" by (simp add: ex_ids17_def)
  have a: "csv (map (\<lambda>i. i + 1) (take 16 ex_ids17)) = ''17,16,15,14,13,12,11,10,9,8,7,6,5,4,3,2''"
    by (simp add: ex_ids17_def fmt_d.simps)
  have b: "fmt_d (unat (ex_ids17 ! 16 + 1)) = ''1''"
    by (simp add: ex_ids17_def fmt_d.simps)
  have c: "map (\<lambda>i. fmt_d (unat (i + 1))) (take 16 ex_ids17) =
     [''17'', ''16'', ''15'', ''14'', ''13'', ''12'', ''11'', ''10'', ''9'', ''8'', ''7'', ''6'',
       ''5'', ''4'', ''3'', ''2'']"
    by (simp add: ex_ids17_def fmt_d.simps)
  note t17 = nodeSet_lines_wrapped [of ex_world_b "''b''" "[]" ex_ids17 "ex_inp [] []"]
  note t16 = nodeSet_lines_wrapped [of ex_world_b "''b''" "[]" "take 16 ex_ids17" "ex_inp [] []"]
  from t17 f have 1: "writeNodeSet ''b'' ex_ids17 (ex_inp [] [], ex_world_b) =
     Done () (ex_inp [] [],
       ex_world_b\<lparr>files := (files ex_world_b)(''b'' \<mapsto> nodeSet_text ex_ids17)\<rparr>)"
    by simp
  from t17 l17 have 2: "nodeSet_text ex_ids17 =
      csv (map (\<lambda>i. i + 1) (take 16 ex_ids17)) @ '',\<newline>'' @ fmt_d (unat (ex_ids17 ! 16 + 1)) @ ''\<newline>''"
    and 3: "map entries (text_lines (nodeSet_text ex_ids17)) =
        [map (\<lambda>i. fmt_d (unat (i + 1))) (take 16 ex_ids17), [fmt_d (unat (ex_ids17 ! 16 + 1))]]"
    by blast+
  have "map (\<lambda>l. length (entries l)) (text_lines (nodeSet_text ex_ids17)) =
      map length (map entries (text_lines (nodeSet_text ex_ids17)))" by simp
  also have "\<dots> = [16, 1]" by (simp only: 3 c) simp
  finally have 4: "map (\<lambda>l. length (entries l)) (text_lines (nodeSet_text ex_ids17)) = [16, 1]" .
  from t16 l16 have 5: "nodeSet_text (take 16 ex_ids17) =
      csv (map (\<lambda>i. i + 1) (take 16 ex_ids17)) @ ''\<newline>''"
    and 6: "text_lines (nodeSet_text (take 16 ex_ids17)) = [csv (map (\<lambda>i. i + 1) (take 16 ex_ids17))]"
    by blast+
  show ?thesis
    using 1 2 3 4 5 6 by (simp only: a b c) simp
qed

section \<open>Reading back the records\<close>

lemma digit_val_nth: "k < 10 \<Longrightarrow> digit_val (''0123456789'' ! k) = Some k"
proof -
  assume k: "k < 10"
  have "map_of (zip ''0123456789'' [0..<10]) (''0123456789'' ! k) = Some ([0..<10] ! k)"
    by (rule map_of_zip_nth) (simp_all add: k)
  with k show ?thesis by (simp add: digit_val_def del: upt_Suc)
qed

lemma parse_acc_snoc:
  "parse_acc a (s @ [c]) =
     (case parse_acc a s of
        None \<Rightarrow> None
      | Some b \<Rightarrow> (case digit_val c of None \<Rightarrow> None | Some d \<Rightarrow> Some (10 * b + d)))"
  by (induction s arbitrary: a) (auto split: option.splits)

lemma parse_acc_fmt_d: "parse_acc 0 (fmt_d n) = Some n"
proof (induction n rule: fmt_d.induct)
  case (1 n)
  show ?case
  proof (cases "n < 10")
    case True
    then have "fmt_d n = [''0123456789'' ! n]" by (subst fmt_d.simps) simp
    with digit_val_nth [OF True] show ?thesis by simp
  next
    case False
    then have e: "fmt_d n = fmt_d (n div 10) @ [''0123456789'' ! (n mod 10)]"
      by (subst fmt_d.simps) simp
    have "digit_val (''0123456789'' ! (n mod 10)) = Some (n mod 10)"
      by (rule digit_val_nth) simp
    with 1 [OF False] show ?thesis by (simp only: e parse_acc_snoc) simp
  qed
qed

lemma parse_d_fmt_d: "parse_d (fmt_d n) = Some n"
  by (simp add: parse_d_def fmt_d_not_Nil parse_acc_fmt_d)

lemma node_record_id: "hd (fields_acc [] (node_record w i v)) = fmt_d (unat (i + 1))"
  using fields_acc_field [OF fmt_d_no_comma, of "[]" "unat (i + 1)"]
  by (simp add: node_record_def)

lemma element_record_entries:
  "concat (map entries (text_lines (element_record t e args))) =
   map (\<lambda>x. fmt_d (unat x)) ((e + 1) # args)"
proof (cases "t = C3D20R")
  case True
  let ?L = "(e + 1) # args"
  have "element_record t e args = render [take 16 ?L, drop 16 ?L]"
    using True by (simp add: element_record_def)
  then have "map entries (text_lines (element_record t e args)) =
      map (map (\<lambda>x. fmt_d (unat x))) [take 16 ?L, drop 16 ?L]"
    by (simp only: text_lines_render)
  then have "concat (map entries (text_lines (element_record t e args))) =
      map (\<lambda>x. fmt_d (unat x)) (take 16 ?L) @ map (\<lambda>x. fmt_d (unat x)) (drop 16 ?L)"
    by (simp only: list.map concat.simps append_Nil2)
  also have "\<dots> = map (\<lambda>x. fmt_d (unat x)) (take 16 ?L @ drop 16 ?L)"
    by (simp only: map_append)
  finally show ?thesis by (simp only: append_take_drop_id)
next
  case False
  let ?L = "(e + 1) # args"
  have "element_record t e args = render [?L]"
    using False by (simp add: element_record_def)
  then have "map entries (text_lines (element_record t e args)) =
      map (map (\<lambda>x. fmt_d (unat x))) [?L]"
    by (simp only: text_lines_render)
  then show ?thesis by simp
qed

lemma unat_plus_one:
  assumes "(i::u32) \<noteq> - 1"
  shows "unat (i + 1) = unat i + 1"
proof -
  from assms have "1 + i \<noteq> 0" by (simp add: eq_neg_iff_add_eq_0 add.commute)
  then have "unat (1 + i) = Suc (unat i)" by (rule unatSuc)
  then show ?thesis by (simp add: add.commute)
qed

section \<open>The node and element stages\<close>

lemma and_then_cong_Done:
  "(\<And>v s1. r = Done v s1 \<Longrightarrow> f v s1 = g v s1) \<Longrightarrow> and_then r f = and_then r g"
  by (cases r) simp_all

lemma stable_layer_range: "stable layer_range"
  by (simp add: stable_def layer_range_def)

lemma stable_file_of: "stable (file_of t)"
  by (simp add: stable_def file_of_def split: ElementType.splits)

lemma iterate_cells:
  assumes proc: "\<And>x y z els s. proc x y z els s =
      (if in_layers (fst s) z then for_each body els s else Done () s)"
    and body: "\<And>el. keeps (holds layer_range (layer_range a)) (body el)"
    and h: "holds layer_range (layer_range a) s"
  shows "for_each (\<lambda>(x, y, z). proc x y z (vx x y z)) cs s =
         for_each body
           (concat (map (\<lambda>(x, y, z). if in_layers a z then vx x y z else []) cs)) s"
  using h
proof (induction cs arbitrary: s)
  case Nil
  show ?case by simp
next
  case (Cons cell cs)
  obtain x y z where cell: "cell = (x, y, z)" by (cases cell) auto
  let ?E = "if in_layers a z then vx x y z else []"
  have il: "in_layers (fst s) z = in_layers a z"
    using Cons.prems by (simp add: holds_def layer_range_def in_layers_def)
  have step: "proc x y z (vx x y z) s = for_each body ?E s"
    by (simp add: proc il)
  have k: "keeps (holds layer_range (layer_range a)) (for_each body ?E)"
    by (intro keeps_for_each body)
  have "and_then (for_each body ?E s)
          (\<lambda>_ s1. for_each (\<lambda>(x, y, z). proc x y z (vx x y z)) cs s1) =
        and_then (for_each body ?E s)
          (\<lambda>_ s1. for_each body
             (concat (map (\<lambda>(x, y, z). if in_layers a z then vx x y z else []) cs)) s1)"
    by (rule and_then_cong_Done) (rule Cons.IH, rule keepsD [OF k Cons.prems])
  then show ?case
    by (simp only: cell for_each.simps list.map concat.simps prod.case step for_each_append)
qed

lemma iterate_writeElements:
  "iterate writeElements_process s = for_each writeElement (visited (fst s)) s"
  unfolding iterate_def visited_def
proof (rule iterate_cells)
  show "writeElements_process x y z els s =
      (if in_layers (fst s) z then for_each writeElement els s else Done () s)" for x y z els s
    by (simp add: writeElements_process_def)
  show "keeps (holds layer_range (layer_range (fst s))) (writeElement el)" for el
    by (intro keeps_writeElement stable_layer_range)
  show "holds layer_range (layer_range (fst s)) s" by (simp add: holds_def)
qed

lemma iterate_writeNodes:
  "iterate writeNodes_process s = for_each writeNodes_element (visited (fst s)) s"
  unfolding iterate_def visited_def
proof (rule iterate_cells)
  show "writeNodes_process x y z els s =
      (if in_layers (fst s) z then for_each writeNodes_element els s else Done () s)" for x y z els s
    by (simp add: writeNodes_process_def)
  show "keeps (holds layer_range (layer_range (fst s))) (writeNodes_element el)" for el
    by (intro keeps_writeNodes_element stable_layer_range)
  show "holds layer_range (layer_range (fst s)) s" by (simp add: holds_def)
qed

lemma steps_last_Done:
  assumes "steps (pre @ [f]) s = Done v s'" "\<And>g. g \<in> set pre \<Longrightarrow> keeps P g" "P s"
  shows "\<exists>s1. P s1 \<and> f s1 = Done v s'"
  using assms
proof (induction pre arbitrary: s)
  case Nil
  then show ?case by (cases "f s") auto
next
  case (Cons g pre)
  from Cons.prems(1) obtain s1 where 1: "g s = Done () s1" and 2: "steps (pre @ [f]) s1 = Done v s'"
    by (cases "g s") simp_all
  have "keeps P g" by (rule Cons.prems(2)) simp
  from keepsD [OF this Cons.prems(3) 1] have "P s1" .
  with Cons.IH [OF 2] Cons.prems(2) show ?case by simp
qed

lemma writeElements_Done:
  assumes "writeElements st = Done v st'"
  shows "\<exists>s0. fst s0 = fst st \<and> for_each writeElement (visited (fst st)) s0 = Done v st'"
proof -
  let ?P = "holds (\<lambda>i. i) (fst st)"
  let ?pre = "[Create (PathElsC3D4 (fst st)),
        Create (PathElsC3D10 (fst st)),
        Create (PathElsC3D8 (fst st)),
        Create (PathElsC3D20R (fst st)),
        write_or_return (PathElsC3D4 (fst st)) ''*ELEMENT, TYPE=C3D4, ELSET=eC3D4\<newline>'',
        write_or_return (PathElsC3D10 (fst st)) ''*ELEMENT, TYPE=C3D10, ELSET=eC3D10\<newline>'',
        write_or_return (PathElsC3D8 (fst st)) ''*ELEMENT, TYPE=C3D8, ELSET=eC3D8\<newline>'',
        write_or_return (PathElsC3D20R (fst st)) ''*ELEMENT, TYPE=C3D20R, ELSET=eC3D20R\<newline>'']"
  from assms have 1: "steps (?pre @ [iterate writeElements_process]) st = Done v st'"
    by (simp only: writeElements_def append.simps)
  have k: "\<And>g. g \<in> set ?pre \<Longrightarrow> keeps ?P g"
    by (auto intro: keeps_Create keeps_write_or_return)
  have "?P st" by (simp add: holds_def)
  from steps_last_Done [OF 1 k this]
  obtain s0 where a: "fst s0 = fst st" and b: "iterate writeElements_process s0 = Done v st'"
    by (auto simp: holds_def)
  from b have "for_each writeElement (visited (fst s0)) s0 = Done v st'"
    by (simp only: iterate_writeElements)
  with a have "fst s0 = fst st \<and> for_each writeElement (visited (fst st)) s0 = Done v st'"
    by simp
  then show ?thesis by (rule exI)
qed

subsection \<open>One element\<close>

lemma elementIds_Done:
  assumes "elementIds el st = Done vis st1"
  shows "\<exists>tb. st1 = ((fst st)\<lparr>TempVBuff := tb\<rparr>, snd st)"
  using assms by (auto simp: elementIds_def split: option.splits prod.splits)

lemma write_record_Done:
  assumes "write_record p t n ids st = Done v st'"
  shows "n \<le> length ids \<and> fst st' = fst st \<and>
         files (snd st') =
           (files (snd st))(p \<mapsto> content (snd st) p @
              element_record t (eleID (fst st)) (map (\<lambda>k. ids ! k + 1) [0..<n]))"
  using assms
  by (auto simp: write_record_def element_args_def write_or_panic_def WriteString_def
        content_def split: option.splits if_splits)

lemma writeElement_known:
  assumes "Type el \<noteq> Unknown"
  shows "writeElement el st =
     and_then (elementIds el st) (\<lambda>vis st1.
       and_then
         (write_record (file_of (Type el) (fst st1)) (Type el) (nodes_of (Type el)) (map snd vis) st1)
         (\<lambda>_ st2. Done () ((fst st2)\<lparr>eleID := eleID (fst st2) + 1\<rparr>, snd st2)))"
  using assms by (cases "Type el") (simp_all add: writeElement_def file_of_def nodes_of_def)

lemma writeElement_Unknown:
  assumes "Type el = Unknown"
  shows "writeElement el st =
     and_then (elementIds el st) (\<lambda>vis st1.
       Done () ((fst st1)\<lparr>eleID := eleID (fst st1) + 1\<rparr>,
                Println ''Element has unknown type :('' (snd st1)))"
  using assms by (cases "elementIds el st") (simp_all add: writeElement_def)

lemma writeElement_step:
  assumes "writeElement el st = Done v st'"
  shows "eleID (fst st') = eleID (fst st) + 1"
    and "Type el = Unknown \<Longrightarrow> files (snd st') = files (snd st)"
    and "Type el \<noteq> Unknown \<Longrightarrow>
         \<exists>ids. nodes_of (Type el) \<le> length ids \<and>
           files (snd st') =
             (files (snd st))(file_of (Type el) (fst st) \<mapsto>
                content (snd st) (file_of (Type el) (fst st)) @
                element_record (Type el) (eleID (fst st))
                  (map (\<lambda>k. ids ! k + 1) [0..<nodes_of (Type el)]))"
proof -
  show "eleID (fst st') = eleID (fst st) + 1"
  proof (cases "Type el = Unknown")
    case True
    with assms show ?thesis
      by (auto simp: writeElement_Unknown and_then_Done_iff dest!: elementIds_Done)
  next
    case False
    with assms show ?thesis
      by (auto simp: writeElement_known and_then_Done_iff dest!: elementIds_Done write_record_Done)
  qed
next
  assume "Type el = Unknown"
  with assms show "files (snd st') = files (snd st)"
    by (auto simp: writeElement_Unknown and_then_Done_iff Println_def dest!: elementIds_Done)
next
  assume k: "Type el \<noteq> Unknown"
  from assms obtain vis st1 st2 where 1: "elementIds el st = Done vis st1"
    and 2: "write_record (file_of (Type el) (fst st1)) (Type el) (nodes_of (Type el)) (map snd vis) st1
            = Done () st2"
    and 3: "st' = ((fst st2)\<lparr>eleID := eleID (fst st2) + 1\<rparr>, snd st2)"
    by (auto simp: writeElement_known [OF k] and_then_Done_iff)
  from elementIds_Done [OF 1] obtain tb where 4: "st1 = ((fst st)\<lparr>TempVBuff := tb\<rparr>, snd st)" by blast
  have f: "file_of (Type el) (fst st1) = file_of (Type el) (fst st)"
    by (simp add: 4 stable_TempVBuff [OF stable_file_of])
  from write_record_Done [OF 2] 3 4 f
  have "nodes_of (Type el) \<le> length (map snd vis) \<and>
           files (snd st') =
             (files (snd st))(file_of (Type el) (fst st) \<mapsto>
                content (snd st) (file_of (Type el) (fst st)) @
                element_record (Type el) (eleID (fst st))
                  (map (\<lambda>k. map snd vis ! k + 1) [0..<nodes_of (Type el)]))"
    by simp
  then show "\<exists>ids. nodes_of (Type el) \<le> length ids \<and>
           files (snd st') =
             (files (snd st))(file_of (Type el) (fst st) \<mapsto>
                content (snd st) (file_of (Type el) (fst st)) @
                element_record (Type el) (eleID (fst st))
                  (map (\<lambda>k. ids ! k + 1) [0..<nodes_of (Type el)]))"
    by (rule exI)
qed

lemma for_each_writeElement_eleID:
  "for_each writeElement els st = Done v st' \<Longrightarrow>
   eleID (fst st') = eleID (fst st) + of_nat (length els)"
proof (induction els arbitrary: st)
  case Nil
  then show ?case by simp
next
  case (Cons el els)
  from Cons.prems obtain s1 where 1: "writeElement el st = Done () s1"
    and 2: "for_each writeElement els s1 = Done v st'"
    by (cases "writeElement el st") simp_all
  from Cons.IH [OF 2] writeElement_step(1) [OF 1] show ?case by simp
qed

lemma for_each_Done_split:
  assumes "for_each f (pre @ x # post) s = Done v s'"
  shows "\<exists>s1 s2. for_each f pre s = Done () s1 \<and> f x s1 = Done () s2 \<and>
           for_each f post s2 = Done v s'"
  using assms by (auto simp: for_each_append and_then_Done_iff)


lemma record_id_element_record:
  assumes "args \<noteq> []"
  shows "record_id (element_record t e args) = Some (unat (e + 1))"
proof -
  have "\<exists>rest. element_record t e args = fmt_d (unat (e + 1)) @ CHR '','' # rest"
  proof (cases "t = C3D20R")
    case True
    from assms have "take 15 args \<noteq> []" by (cases args) simp_all
    then have "csv ((e + 1) # take 15 args) = fmt_d (unat (e + 1)) @ '','' @ csv (take 15 args)"
      by (rule csv_Cons)
    with True show ?thesis by (simp add: element_record_def)
  next
    case False
    from assms have "csv ((e + 1) # args) = fmt_d (unat (e + 1)) @ '','' @ csv args"
      by (rule csv_Cons)
    with False show ?thesis by (simp add: element_record_def)
  qed
  then obtain rest where "element_record t e args = fmt_d (unat (e + 1)) @ CHR '','' # rest" ..
  then have "hd (fields_acc [] (element_record t e args)) = fmt_d (unat (e + 1))"
    using fields_acc_field [OF fmt_d_no_comma, of "[]" "unat (e + 1)" rest] by simp
  then show ?thesis by (simp add: record_id_def parse_d_fmt_d)
qed

lemma nodes_of_pos: "t \<noteq> Unknown \<Longrightarrow> 0 < nodes_of t"
  by (cases t) (simp_all add: nodes_of_def)


subsection \<open>The nodes of one element\<close>

lemma node_record_cong: "fmt_f32 w' = fmt_f32 w \<Longrightarrow> node_record w' i v = node_record w i v"
  by (simp add: node_record_def)

lemma record_id_node_record: "record_id (node_record w i v) = Some (unat (i + 1))"
  by (simp add: record_id_def node_record_id parse_d_fmt_d)

lemma writeNode_Done:
  assumes "writeNode (v, i) st = Done u st'"
  shows "content (snd st') (PathNodes (fst st)) =
           content (snd st) (PathNodes (fst st)) @
           (if i + 1 = nextNode (fst st) then node_record (snd st) i v else [])"
    and "nextNode (fst st') =
           (if i + 1 = nextNode (fst st) then nextNode (fst st) + 1 else nextNode (fst st))"
    and "PathNodes (fst st') = PathNodes (fst st)"
    and "fmt_f32 (snd st') = fmt_f32 (snd st)"
  using assms
  by (auto simp: writeNode_def write_or_panic_def WriteString_def content_def
        split: if_splits option.splits)

lemma for_each_writeNode:
  "for_each writeNode vis st = Done u st' \<Longrightarrow>
   content (snd st') (PathNodes (fst st)) =
     content (snd st) (PathNodes (fst st)) @
     concat (map (\<lambda>(v, i). node_record (snd st) i v) (written_nodes (nextNode (fst st)) vis)) \<and>
   PathNodes (fst st') = PathNodes (fst st) \<and> fmt_f32 (snd st') = fmt_f32 (snd st)"
proof (induction vis arbitrary: st)
  case Nil
  then show ?case by simp
next
  case (Cons vi vis)
  obtain v i where vi: "vi = (v, i)" by (cases vi) auto
  from Cons.prems obtain s1 where 1: "writeNode (v, i) st = Done () s1"
    and 2: "for_each writeNode vis s1 = Done u st'"
    by (cases "writeNode (v, i) st") (simp_all add: vi)
  note w = writeNode_Done [OF 1]
  have r: "(\<lambda>(v, i). node_record (snd s1) i v) = (\<lambda>(v, i). node_record (snd st) i v)"
    by (simp add: fun_eq_iff node_record_cong [OF w(4)])
  from Cons.IH [OF 2]
  have ih: "content (snd st') (PathNodes (fst st)) =
     content (snd s1) (PathNodes (fst st)) @
     concat (map (\<lambda>(v, i). node_record (snd st) i v) (written_nodes (nextNode (fst s1)) vis))"
    and f: "PathNodes (fst st') = PathNodes (fst st)" "fmt_f32 (snd st') = fmt_f32 (snd st)"
    by (simp_all only: w(3) w(4) r)
  show ?case
  proof (cases "i + 1 = nextNode (fst st)")
    case True
    with w ih f show ?thesis by (simp add: vi)
  next
    case False
    with w ih f show ?thesis by (simp add: vi)
  qed
qed

lemma elementIds_Done_ids:
  assumes "elementIds el st = Done vis st1"
  shows "\<exists>tb. tempIds (Mesh (fst st)) (Nodes el) (TempVBuff (fst st)) = Some (vis, tb) \<and>
           st1 = ((fst st)\<lparr>TempVBuff := tb\<rparr>, snd st)"
  using assms by (auto simp: elementIds_def split: option.splits prod.splits)

lemma writeNodes_element_Done:
  assumes "writeNodes_element el st = Done u st'"
  shows "\<exists>vis tb. tempIds (Mesh (fst st)) (Nodes el) (TempVBuff (fst st)) = Some (vis, tb) \<and>
           content (snd st') (PathNodes (fst st)) =
             content (snd st) (PathNodes (fst st)) @
             concat (map (\<lambda>(v, i). node_record (snd st) i v)
               (written_nodes (nextNode (fst st)) vis))"
proof -
  from assms obtain vis s1 where 1: "elementIds el st = Done vis s1"
    and 2: "for_each writeNode vis s1 = Done u st'"
    by (auto simp: writeNodes_element_def and_then_Done_iff)
  from elementIds_Done_ids [OF 1] obtain tb where
    t: "tempIds (Mesh (fst st)) (Nodes el) (TempVBuff (fst st)) = Some (vis, tb)"
    and s1: "s1 = ((fst st)\<lparr>TempVBuff := tb\<rparr>, snd st)" by blast
  from for_each_writeNode [OF 2]
  have "content (snd st') (PathNodes (fst st)) =
             content (snd st) (PathNodes (fst st)) @
             concat (map (\<lambda>(v, i). node_record (snd st) i v)
               (written_nodes (nextNode (fst st)) vis))"
    by (simp add: s1)
  with t show ?thesis by blast
qed

lemma writeElement_record:
  assumes "writeElement el st = Done u st'" "Type el \<noteq> Unknown"
  shows "\<exists>vis tb. tempIds (Mesh (fst st)) (Nodes el) (TempVBuff (fst st)) = Some (vis, tb) \<and>
           nodes_of (Type el) \<le> length vis \<and>
           files (snd st') =
             (files (snd st))(file_of (Type el) (fst st) \<mapsto>
                content (snd st) (file_of (Type el) (fst st)) @
                element_record (Type el) (eleID (fst st))
                  (map (\<lambda>k. snd (vis ! k) + 1) [0..<nodes_of (Type el)]))"
proof -
  note k = assms(2)
  from assms(1) obtain vis st1 st2 where 1: "elementIds el st = Done vis st1"
    and 2: "write_record (file_of (Type el) (fst st1)) (Type el) (nodes_of (Type el)) (map snd vis) st1
            = Done () st2"
    and 3: "st' = ((fst st2)\<lparr>eleID := eleID (fst st2) + 1\<rparr>, snd st2)"
    by (auto simp: writeElement_known [OF k] and_then_Done_iff)
  from elementIds_Done_ids [OF 1] obtain tb where
    t: "tempIds (Mesh (fst st)) (Nodes el) (TempVBuff (fst st)) = Some (vis, tb)"
    and 4: "st1 = ((fst st)\<lparr>TempVBuff := tb\<rparr>, snd st)" by blast
  have f: "file_of (Type el) (fst st1) = file_of (Type el) (fst st)"
    by (simp add: 4 stable_TempVBuff [OF stable_file_of])
  from write_record_Done [OF 2] have n: "nodes_of (Type el) \<le> length vis" by simp
  then have m: "map (\<lambda>k. map snd vis ! k + 1) [0..<nodes_of (Type el)] =
      map (\<lambda>k. snd (vis ! k) + 1) [0..<nodes_of (Type el)]"
    by (intro map_cong) simp_all
  from write_record_Done [OF 2] 3 4 f
  have "files (snd st') =
             (files (snd st))(file_of (Type el) (fst st) \<mapsto>
                content (snd st) (file_of (Type el) (fst st)) @
                element_record (Type el) (eleID (fst st))
                  (map (\<lambda>k. map snd vis ! k + 1) [0..<nodes_of (Type el)]))"
    by simp
  with t n show ?thesis unfolding m by blast
qed

subsection \<open>The stages\<close>

lemma stable_nodes_setup: "stable (\<lambda>i. (Mesh i, LayerStart i, LayerEnd i))"
  by (simp add: stable_def)

lemma visited_cong:
  "Mesh i = Mesh j \<Longrightarrow> LayerStart i = LayerStart j \<Longrightarrow> LayerEnd i = LayerEnd j \<Longrightarrow>
   visited i = visited j"
  unfolding visited_def in_layers_def by (simp cong: if_cong)

lemma writeNodes_Done:
  assumes "writeNodes st = Done v st'"
  shows "\<exists>s0. for_each writeNodes_element (visited (fst st)) s0 = Done v st'"
proof -
  let ?q = "\<lambda>i. (Mesh i, LayerStart i, LayerEnd i)"
  let ?P = "holds ?q (?q (fst st))"
  let ?pre = "[Create (PathNodes (fst st)),
        write_or_return (PathNodes (fst st)) ''*NODE\<newline>'',
        (\<lambda>st'. Done () ((fst st')\<lparr>nextNode := 1\<rparr>, snd st'))]"
  from assms have 1: "steps (?pre @ [iterate writeNodes_process]) st = Done v st'"
    by (simp only: writeNodes_def append.simps)
  have k: "\<And>g. g \<in> set ?pre \<Longrightarrow> keeps ?P g"
    by (auto intro: keeps_Create keeps_write_or_return keeps_set_nextNode stable_nodes_setup)
  have "?P st" by (simp add: holds_def)
  from steps_last_Done [OF 1 k this]
  obtain s0 where a: "?P s0" and b: "iterate writeNodes_process s0 = Done v st'" by blast
  from a have "visited (fst s0) = visited (fst st)"
    by (intro visited_cong) (simp_all add: holds_def)
  with b have "for_each writeNodes_element (visited (fst st)) s0 = Done v st'"
    by (simp add: iterate_writeNodes)
  then show ?thesis by (rule exI)
qed
section \<open>Serialized ids\<close>

lemma written_nodes_subset: "set (written_nodes nn vis) \<subseteq> set vis"
  by (induction nn vis rule: written_nodes.induct) auto

text \<open>
  Claim C9. Every id serialized to the output files is the internal id plus one.
  For the nodes of an element, \<open>writeNodes\<close> takes their ids in the temporary vertex buffer
  and appends to the node file the records of those whose turn it is; the record of the
  node with id \<open>i\<close> reads back as \<open>i + 1\<close>. For an element of one of the four types,
  \<open>writeElement\<close> appends to the file of its type the record whose entries, over its one
  or two lines, read back as \<open>eleID + 1\<close> followed by \<open>ids[k] + 1\<close> for the ids of its
  nodes in the temporary vertex buffer. The node stage and the element stage are the
  runs of these two on the visited elements, in order. The sums are those of \<open>uint32\<close>;
  they are the sums of natural numbers below the largest id.
\<close>

theorem serialized_ids_one_based:
  "(writeNodes_element el st = Done u st' \<longrightarrow>
      (\<exists>vis tb. tempIds (Mesh (fst st)) (Nodes el) (TempVBuff (fst st)) = Some (vis, tb) \<and>
         content (snd st') (PathNodes (fst st)) =
           content (snd st) (PathNodes (fst st)) @
           concat (map (\<lambda>(v, i). node_record (snd st) i v)
             (written_nodes (nextNode (fst st)) vis)))) \<and>
   set (written_nodes nn vis) \<subseteq> set vis \<and>
   record_id (node_record w i v) = Some (unat (i + 1)) \<and>
   (i \<noteq> - 1 \<longrightarrow> record_id (node_record w i v) = Some (unat i + 1)) \<and>
   (writeElement el st = Done u st' \<and> Type el \<noteq> Unknown \<longrightarrow>
      (\<exists>vis tb. tempIds (Mesh (fst st)) (Nodes el) (TempVBuff (fst st)) = Some (vis, tb) \<and>
         nodes_of (Type el) \<le> length vis \<and>
         files (snd st') =
           (files (snd st))(file_of (Type el) (fst st) \<mapsto>
              content (snd st) (file_of (Type el) (fst st)) @
              element_record (Type el) (eleID (fst st))
                (map (\<lambda>k. snd (vis ! k) + 1) [0..<nodes_of (Type el)])))) \<and>
   map parse_d (concat (map entries (text_lines
       (element_record t e (map (\<lambda>k. ids ! k + 1) [0..<n]))))) =
     map (\<lambda>x. Some (unat (x + 1))) (e # map (\<lambda>k. ids ! k) [0..<n]) \<and>
   (writeNodes st = Done u st' \<and> visited (fst st) = pre @ el # post \<longrightarrow>
      (\<exists>s0 st1 st2. for_each writeNodes_element pre s0 = Done () st1 \<and>
         writeNodes_element el st1 = Done () st2 \<and>
         for_each writeNodes_element post st2 = Done u st')) \<and>
   (writeElements st = Done u st' \<and> visited (fst st) = pre @ el # post \<longrightarrow>
      (\<exists>s0 st1 st2. fst s0 = fst st \<and> for_each writeElement pre s0 = Done () st1 \<and>
         writeElement el st1 = Done () st2 \<and>
         for_each writeElement post st2 = Done u st'))"
proof (intro conjI impI)
  assume "writeNodes_element el st = Done u st'"
  then show "\<exists>vis tb. tempIds (Mesh (fst st)) (Nodes el) (TempVBuff (fst st)) = Some (vis, tb) \<and>
         content (snd st') (PathNodes (fst st)) =
           content (snd st) (PathNodes (fst st)) @
           concat (map (\<lambda>(v, i). node_record (snd st) i v)
             (written_nodes (nextNode (fst st)) vis))"
    by (rule writeNodes_element_Done)
next
  show "set (written_nodes nn vis) \<subseteq> set vis" by (rule written_nodes_subset)
next
  show "record_id (node_record w i v) = Some (unat (i + 1))" by (rule record_id_node_record)
next
  assume "i \<noteq> - 1"
  then show "record_id (node_record w i v) = Some (unat i + 1)"
    by (simp add: record_id_node_record unat_plus_one)
next
  assume "writeElement el st = Done u st' \<and> Type el \<noteq> Unknown"
  then show "\<exists>vis tb. tempIds (Mesh (fst st)) (Nodes el) (TempVBuff (fst st)) = Some (vis, tb) \<and>
         nodes_of (Type el) \<le> length vis \<and>
         files (snd st') =
           (files (snd st))(file_of (Type el) (fst st) \<mapsto>
              content (snd st) (file_of (Type el) (fst st)) @
              element_record (Type el) (eleID (fst st))
                (map (\<lambda>k. snd (vis ! k) + 1) [0..<nodes_of (Type el)]))"
    using writeElement_record [of el st u st'] by blast
next
  show "map parse_d (concat (map entries (text_lines
       (element_record t e (map (\<lambda>k. ids ! k + 1) [0..<n]))))) =
     map (\<lambda>x. Some (unat (x + 1))) (e # map (\<lambda>k. ids ! k) [0..<n])"
    by (simp only: element_record_entries) (simp add: parse_d_fmt_d comp_def)
next
  assume a: "writeNodes st = Done u st' \<and> visited (fst st) = pre @ el # post"
  from writeNodes_Done [of st u st'] a
  obtain s0 where "for_each writeNodes_element (pre @ el # post) s0 = Done u st'" by auto
  from for_each_Done_split [OF this]
  show "\<exists>s0 st1 st2. for_each writeNodes_element pre s0 = Done () st1 \<and>
         writeNodes_element el st1 = Done () st2 \<and>
         for_each writeNodes_element post st2 = Done u st'" by blast
next
  assume a: "writeElements st = Done u st' \<and> visited (fst st) = pre @ el # post"
  from writeElements_Done [of st u st'] a
  obtain s0 where 0: "fst s0 = fst st"
    and "for_each writeElement (pre @ el # post) s0 = Done u st'" by auto
  from for_each_Done_split [OF this(2)] 0
  show "\<exists>s0 st1 st2. fst s0 = fst st \<and> for_each writeElement pre s0 = Done () st1 \<and>
         writeElement el st1 = Done () st2 \<and>
         for_each writeElement post st2 = Done u st'" by blast
qed


theorem serialized_ids_one_based_witness:
  "content (snd (final_state (writeNodes_element ex_tet ex_state1))) ''m.nodes'' =
     ''1,f,f,f\<newline>2,f,f,f\<newline>3,f,f,f\<newline>4,f,f,f\<newline>'' \<and>
   record_id (node_record ex_world 6 zeroVec) = Some 7 \<and>
   files (snd (final_state (writeElement ex_tet ex_state))) ''m.elements_C3D4'' =
     Some ''1,1,2,3,4\<newline>'' \<and>
   (\<exists>s0 st1 st2. for_each writeNodes_element [] s0 = Done () st1 \<and>
      writeNodes_element ex_tet st1 = Done () st2 \<and>
      for_each writeNodes_element [] st2 = Done () (final_state (writeNodes ex_state))) \<and>
   (\<exists>s0 st1 st2. fst s0 = fst ex_state \<and> for_each writeElement [] s0 = Done () st1 \<and>
      writeElement ex_tet st1 = Done () st2 \<and>
      for_each writeElement [] st2 = Done () (final_state (writeElements ex_state)))"
proof -
  note defs = ex_state_def ex_state1_def writer_defs ex_defs io_defs mesh_defs fmt_d.simps upt_rec
  have "succeeded (writeNodes_element ex_tet ex_state1)" by (simp add: succeeded_def defs)
  then have d1: "writeNodes_element ex_tet ex_state1 =
      Done () (final_state (writeNodes_element ex_tet ex_state1))" by (rule succeeded_Done)
  have "succeeded (writeElement ex_tet ex_state)" by (simp add: succeeded_def defs)
  then have d2: "writeElement ex_tet ex_state =
      Done () (final_state (writeElement ex_tet ex_state))" by (rule succeeded_Done)
  have "succeeded (writeNodes ex_state)" by (simp add: succeeded_def defs)
  then have d3: "writeNodes ex_state = Done () (final_state (writeNodes ex_state))"
    by (rule succeeded_Done)
  have "succeeded (writeElements ex_state)" by (simp add: succeeded_def defs)
  then have d4: "writeElements ex_state = Done () (final_state (writeElements ex_state))"
    by (rule succeeded_Done)
  have v: "visited (fst ex_state) = [] @ ex_tet # []"
    by (simp add: visited_def ex_state_def ex_defs in_layers_def)
  have t: "Type ex_tet \<noteq> Unknown" by (simp add: ex_tet_def)
  have ids: "\<exists>tb. tempIds (Mesh (fst ex_state1)) (Nodes ex_tet) (TempVBuff (fst ex_state1)) =
      Some (zip ex_points [0, 1, 2, 3], tb)"
    "\<exists>tb. tempIds (Mesh (fst ex_state)) (Nodes ex_tet) (TempVBuff (fst ex_state)) =
      Some (zip ex_points [0, 1, 2, 3], tb)"
    by (simp_all add: defs)
  note n1 = serialized_ids_one_based [where el = ex_tet and st = ex_state1 and u = "()"
      and st' = "final_state (writeNodes_element ex_tet ex_state1)"]
  from n1 d1 obtain vis tb where
    "tempIds (Mesh (fst ex_state1)) (Nodes ex_tet) (TempVBuff (fst ex_state1)) = Some (vis, tb)"
    and c: "content (snd (final_state (writeNodes_element ex_tet ex_state1))) (PathNodes (fst ex_state1)) =
      content (snd ex_state1) (PathNodes (fst ex_state1)) @
      concat (map (\<lambda>(v, i). node_record (snd ex_state1) i v)
        (written_nodes (nextNode (fst ex_state1)) vis))" by blast
  with ids(1) have "vis = zip ex_points [0, 1, 2, 3]" by auto
  with c have 1: "content (snd (final_state (writeNodes_element ex_tet ex_state1))) ''m.nodes'' =
     ''1,f,f,f\<newline>2,f,f,f\<newline>3,f,f,f\<newline>4,f,f,f\<newline>''"
    by (simp add: ex_state1_def ex_defs content_def node_record_def fmt_d.simps)
  from serialized_ids_one_based [where w = ex_world and i = 6 and v = zeroVec]
  have 2: "record_id (node_record ex_world 6 zeroVec) = Some 7" by simp
  note n3 = serialized_ids_one_based [where el = ex_tet and st = ex_state and u = "()"
      and st' = "final_state (writeElement ex_tet ex_state)"]
  from n3 d2 t obtain vis' tb' where
    "tempIds (Mesh (fst ex_state)) (Nodes ex_tet) (TempVBuff (fst ex_state)) = Some (vis', tb')"
    and f: "files (snd (final_state (writeElement ex_tet ex_state))) =
           (files (snd ex_state))(file_of (Type ex_tet) (fst ex_state) \<mapsto>
              content (snd ex_state) (file_of (Type ex_tet) (fst ex_state)) @
              element_record (Type ex_tet) (eleID (fst ex_state))
                (map (\<lambda>k. snd (vis' ! k) + 1) [0..<nodes_of (Type ex_tet)]))" by blast
  with ids(2) have "vis' = zip ex_points [0, 1, 2, 3]" by auto
  with f have 3: "files (snd (final_state (writeElement ex_tet ex_state))) ''m.elements_C3D4'' =
     Some ''1,1,2,3,4\<newline>''"
    by (simp add: ex_state_def ex_defs content_def element_record_def file_of_def nodes_of_def
        fmt_d.simps upt_rec)
  note n4 = serialized_ids_one_based [where st = ex_state and u = "()" and pre = "[]"
      and el = ex_tet and post = "[]" and st' = "final_state (writeNodes ex_state)"]
  from n4 d3 v have 4: "\<exists>s0 st1 st2. for_each writeNodes_element [] s0 = Done () st1 \<and>
      writeNodes_element ex_tet st1 = Done () st2 \<and>
      for_each writeNodes_element [] st2 = Done () (final_state (writeNodes ex_state))" by blast
  note n5 = serialized_ids_one_based [where st = ex_state and u = "()" and pre = "[]"
      and el = ex_tet and post = "[]" and st' = "final_state (writeElements ex_state)"]
  from n5 d4 v have 5: "\<exists>s0 st1 st2. fst s0 = fst ex_state \<and> for_each writeElement [] s0 = Done () st1 \<and>
      writeElement ex_tet st1 = Done () st2 \<and>
      for_each writeElement [] st2 = Done () (final_state (writeElements ex_state))" by blast
  from 1 2 3 4 5 show ?thesis by blast
qed

section \<open>Element ids\<close>

lemmas footer_defs = writeFooter_def writeLoad_def writeLoad_load_def writeGravity_def
  gravity_record_def

text \<open>
  Claim C10 says that the ids over the four element files are exactly the consecutive
  sequence from 1 to the number of elements. The counter \<open>eleID\<close>, "a counter to keep track
  of written elements", is also advanced for an element of unknown type, which is
  written to no file. In the export of a cell holding an element of unknown type and
  then a tetrahedron, the export succeeds and the only element record of the four files
  carries the id 2.
\<close>

theorem unknown_element_consumes_id:
  "succeeded (Write (ex_inp [ex_unknown, ex_tet] [ex_fixed], ex_world)) \<and>
   files (snd (final_state (Write (ex_inp [ex_unknown, ex_tet] [ex_fixed], ex_world))))
     ''m.elements_C3D4'' = Some ''*ELEMENT, TYPE=C3D4, ELSET=eC3D4\<newline>2,1,2,3,4\<newline>'' \<and>
   files (snd (final_state (Write (ex_inp [ex_unknown, ex_tet] [ex_fixed], ex_world))))
     ''m.elements_C3D10'' = Some ''*ELEMENT, TYPE=C3D10, ELSET=eC3D10\<newline>'' \<and>
   files (snd (final_state (Write (ex_inp [ex_unknown, ex_tet] [ex_fixed], ex_world))))
     ''m.elements_C3D8'' = Some ''*ELEMENT, TYPE=C3D8, ELSET=eC3D8\<newline>'' \<and>
   files (snd (final_state (Write (ex_inp [ex_unknown, ex_tet] [ex_fixed], ex_world))))
     ''m.elements_C3D20R'' = Some ''*ELEMENT, TYPE=C3D20R, ELSET=eC3D20R\<newline>''"
proof -
  have "\<exists>st. Write (ex_inp [ex_unknown, ex_tet] [ex_fixed], ex_world) = Done () st \<and>
     files (snd st) ''m.elements_C3D4'' =
       Some ''*ELEMENT, TYPE=C3D4, ELSET=eC3D4\<newline>2,1,2,3,4\<newline>'' \<and>
     files (snd st) ''m.elements_C3D10'' = Some ''*ELEMENT, TYPE=C3D10, ELSET=eC3D10\<newline>'' \<and>
     files (snd st) ''m.elements_C3D8'' = Some ''*ELEMENT, TYPE=C3D8, ELSET=eC3D8\<newline>'' \<and>
     files (snd st) ''m.elements_C3D20R'' = Some ''*ELEMENT, TYPE=C3D20R, ELSET=eC3D20R\<newline>''"
    by (simp add: writer_defs footer_defs ex_defs io_defs mesh_defs fmt_d.simps upt_rec)
  then obtain st where "Write (ex_inp [ex_unknown, ex_tet] [ex_fixed], ex_world) = Done () st"
    and "files (snd st) ''m.elements_C3D4'' =
       Some ''*ELEMENT, TYPE=C3D4, ELSET=eC3D4\<newline>2,1,2,3,4\<newline>''"
    and "files (snd st) ''m.elements_C3D10'' = Some ''*ELEMENT, TYPE=C3D10, ELSET=eC3D10\<newline>''"
    and "files (snd st) ''m.elements_C3D8'' = Some ''*ELEMENT, TYPE=C3D8, ELSET=eC3D8\<newline>''"
    and "files (snd st) ''m.elements_C3D20R'' = Some ''*ELEMENT, TYPE=C3D20R, ELSET=eC3D20R\<newline>''"
    by blast
  then show ?thesis by (simp add: succeeded_def final_state_def)
qed



end
